(* ===== verification/Prelude.thy ===== *)
theory Prelude
  imports Main "HOL-Library.Word" "HOL-Library.Stream"
begin

text \<open>
  Shared vocabulary of the development: the JavaScript values a JSON request body can carry
  (\<open>jval\<close>), the two JavaScript conversions the handlers apply to them (truthiness in
  \<open>if (c && ...)\<close> and \<open>ToString\<close> inside \<open>RegExp.prototype.test\<close> and
  \<open>new URL\<close>), the ASCII character classes of the regular expressions, timestamps,
  and the generic list and map lemmas the component theories share.
\<close>

named_theorems js_simps "evaluation rules of the JavaScript conversions"
named_theorems store_simps "characteristic equations of the record-store operations"

text \<open>
  \<open>new Date().toISOString()\<close> is read as a number of milliseconds since the epoch; the
  ISO strings of the source compare as these numbers do.
\<close>

type_synonym timestamp = nat

subsection \<open>JavaScript values of a JSON body\<close>

text \<open>
  A field of \<open>req.body\<close> is \<open>undefined\<close> when absent, otherwise a JSON value: null,
  a boolean, a number, a string, an array, or an object with its properties in order.
  Numbers are the integral ones: a non-integral number prints with a \<open>.\<close> or an
  exponent and no \<open>:\<close>, so neither \<open>validCode\<close> nor \<open>validUrl\<close> accepts it.
\<close>

datatype jval =
    JUndefined
  | JNull
  | JBool bool
  | JNum int
  | JStr string
  | JArr "jval list"
  | JObj "(string \<times> jval) list"

primrec js_truthy :: "jval \<Rightarrow> bool" where
  "js_truthy JUndefined = False"
| "js_truthy JNull = False"
| "js_truthy (JBool b) = b"
| "js_truthy (JNum n) = (n \<noteq> 0)"
| "js_truthy (JStr s) = (s \<noteq> [])"
| "js_truthy (JArr vs) = True"
| "js_truthy (JObj fs) = True"

definition digit_char :: "nat \<Rightarrow> char" where
  "digit_char d = char_of (48 + d)"

fun nat_to_decimal :: "nat \<Rightarrow> string" where
  "nat_to_decimal n =
     (if n < 10 then [digit_char n] else nat_to_decimal (n div 10) @ [digit_char (n mod 10)])"

declare nat_to_decimal.simps [simp del]

definition int_to_decimal :: "int \<Rightarrow> string" where
  "int_to_decimal i =
     (if i < 0 then CHR ''-'' # nat_to_decimal (nat (- i)) else nat_to_decimal (nat i))"

text \<open>\<open>xs.join(sep)\<close> on strings.\<close>

fun js_join :: "string \<Rightarrow> string list \<Rightarrow> string" where
  "js_join sep [] = []"
| "js_join sep [x] = x"
| "js_join sep (x # y # xs) = x @ sep @ js_join sep (y # xs)"

text \<open>\<open>ToString\<close> of ECMA-262 on the values above. An array prints as
  \<open>Array.prototype.join(",")\<close>, which prints \<open>undefined\<close> and \<open>null\<close> elements as
  the empty string; a plain object as \<open>[object Object]\<close>.\<close>

fun js_to_string :: "jval \<Rightarrow> string" where
  "js_to_string JUndefined = ''undefined''"
| "js_to_string JNull = ''null''"
| "js_to_string (JBool b) = (if b then ''true'' else ''false'')"
| "js_to_string (JNum n) = int_to_decimal n"
| "js_to_string (JStr s) = s"
| "js_to_string (JArr vs) =
     js_join '','' (map (\<lambda>v. if v = JUndefined \<or> v = JNull then [] else js_to_string v) vs)"
| "js_to_string (JObj fs) = ''[object Object]''"

subsection \<open>ASCII character classes\<close>

definition is_ascii_upper :: "char \<Rightarrow> bool" where
  "is_ascii_upper c = (let n = of_char c :: nat in 65 \<le> n \<and> n \<le> 90)"

definition is_ascii_lower :: "char \<Rightarrow> bool" where
  "is_ascii_lower c = (let n = of_char c :: nat in 97 \<le> n \<and> n \<le> 122)"

definition is_ascii_digit :: "char \<Rightarrow> bool" where
  "is_ascii_digit c = (let n = of_char c :: nat in 48 \<le> n \<and> n \<le> 57)"

definition is_ascii_alpha :: "char \<Rightarrow> bool" where
  "is_ascii_alpha c = (is_ascii_upper c \<or> is_ascii_lower c)"

text \<open>The class \<open>[A-Za-z0-9]\<close>.\<close>

definition is_ascii_alnum :: "char \<Rightarrow> bool" where
  "is_ascii_alnum c = (is_ascii_alpha c \<or> is_ascii_digit c)"

definition ascii_lower :: "char \<Rightarrow> char" where
  "ascii_lower c = (if is_ascii_upper c then char_of (of_char c + (32::nat)) else c)"

lemmas ascii_class_defs [js_simps] =
  is_ascii_upper_def is_ascii_lower_def is_ascii_digit_def is_ascii_alpha_def is_ascii_alnum_def

subsection \<open>Shared lemmas\<close>

lemma digit_char_is_digit [simp]: "d < 10 \<Longrightarrow> is_ascii_digit (digit_char d)"
  by (simp add: digit_char_def is_ascii_digit_def)

lemma nat_to_decimal_digits: "\<forall>c \<in> set (nat_to_decimal n). is_ascii_digit c"
proof (induction n rule: nat_to_decimal.induct)
  case (1 n)
  then show ?case by (subst nat_to_decimal.simps) auto
qed

lemma nat_to_decimal_nonempty [simp]: "nat_to_decimal n \<noteq> []"
  by (subst nat_to_decimal.simps) simp

lemma colon_not_digit [simp]: "\<not> is_ascii_digit CHR '':''"
  by (simp add: is_ascii_digit_def)

lemma nat_to_decimal_no_colon [simp]: "CHR '':'' \<notin> set (nat_to_decimal n)"
  using nat_to_decimal_digits [of n] colon_not_digit by blast

lemma int_to_decimal_nonneg: "0 \<le> i \<Longrightarrow> int_to_decimal i = nat_to_decimal (nat i)"
  by (simp add: int_to_decimal_def)

lemma int_to_decimal_no_colon: "CHR '':'' \<notin> set (int_to_decimal i)"
  by (simp add: int_to_decimal_def)

text \<open>Of the JSON values only strings and arrays can print with a colon.\<close>

lemma js_to_string_scalar_no_colon:
  "(\<forall>s. v \<noteq> JStr s) \<Longrightarrow> (\<forall>vs. v \<noteq> JArr vs) \<Longrightarrow> CHR '':'' \<notin> set (js_to_string v)"
  by (cases v) (auto simp: int_to_decimal_no_colon)

subsection \<open>Lists updated at one index\<close>

text \<open>A system of concurrent requests updates one entry of its list of threads per step;
  these are the facts about sums and predicates over such a list.\<close>

lemma sum_list_map_update:
  "i < length xs \<Longrightarrow> sum_list (map f (xs[i := y])) + f (xs ! i) = sum_list (map f xs) + (f y :: nat)"
proof (induction xs arbitrary: i)
  case (Cons x xs)
  then show ?case by (cases i) auto
qed simp

lemma sum_list_update_less:
  assumes "i < length xs" and "f y < f (xs ! i)"
  shows "sum_list (map f (xs[i := y])) < (sum_list (map f xs) :: nat)"
  using sum_list_map_update [OF assms(1), of f y] assms(2) by linarith

lemma list_all_update_keep [intro]:
  "list_all P xs \<Longrightarrow> P y \<Longrightarrow> list_all P (xs[i := y])"
  by (auto simp: list_all_iff dest: set_update_subset_insert [THEN subsetD])

end
