(* ===== verification/Validator.thy ===== *)
theory Validator
  imports Prelude
begin

text \<open>
  The input checks and the code generator of \<open>src/pages/api/links/index.js\<close>:
  \<open>validCode\<close> (the regular expression \<open>/^[A-Za-z0-9]{6,8}$/\<close> applied through
  \<open>RegExp.prototype.test\<close>, which first converts its argument with \<open>ToString\<close>),
  \<open>validUrl\<close> (whether \<open>new URL(u)\<close> throws), and the generation of a code from six
  random bytes, \<open>chars[b%62]\<close> for each byte \<open>b\<close> of a \<open>Uint8Array(6)\<close>.
  The URL constructor is the platform's WHATWG parser; only its accept/reject decision is
  modelled (\<open>url_parses\<close>).
\<close>

subsection \<open>The code pattern\<close>

text \<open>\<open>/^[A-Za-z0-9]{6,8}$/\<close> on a string: without the \<open>m\<close> flag \<open>^\<close> and \<open>$\<close>
  anchor at the ends of the input.\<close>

definition code_regex :: "string \<Rightarrow> bool" where
  "code_regex s = (6 \<le> length s \<and> length s \<le> 8 \<and> list_all is_ascii_alnum s)"

definition validCode :: "jval \<Rightarrow> bool" where
  "validCode c = code_regex (js_to_string c)"

subsection \<open>The URL constructor\<close>

text \<open>
  The decision of the WHATWG basic URL parser run without a base URL. The input is first
  stripped of leading and trailing C0 controls and spaces, then of every tab and newline.
  A scheme (an ASCII letter, then letters, digits, \<open>+\<close>, \<open>-\<close>, \<open>.\<close>, then \<open>:\<close>) is
  required: without one and without a base the parser fails. What follows the scheme
  fails only in the authority: its host (the host parser: an IPv6 literal in brackets, an
  opaque host for a non-special scheme, otherwise a domain, percent-decoded, that is an
  IPv4 address when it ends in a number) and its port (decimal, below 65536). Paths,
  queries and fragments never fail. Not modelled: the UTS 46 mapping and validation of
  non-ASCII domains and of \<open>xn--\<close> labels, which the model accepts when their ASCII
  characters pass.
\<close>

definition c0_or_space :: "char \<Rightarrow> bool" where
  "c0_or_space c = (of_char c \<le> (32::nat))"

definition tab_or_newline :: "char \<Rightarrow> bool" where
  "tab_or_newline c = (c = CHR 0x09 \<or> c = CHR 0x0A \<or> c = CHR 0x0D)"

definition url_preprocess :: "string \<Rightarrow> string" where
  "url_preprocess s =
     filter (\<lambda>c. \<not> tab_or_newline c) (rev (dropWhile c0_or_space (rev (dropWhile c0_or_space s))))"

definition scheme_char :: "char \<Rightarrow> bool" where
  "scheme_char c = (is_ascii_alnum c \<or> c = CHR ''+'' \<or> c = CHR ''-'' \<or> c = CHR ''.'')"

definition url_scheme_split :: "string \<Rightarrow> (string \<times> string) option" where
  "url_scheme_split s =
     (case (takeWhile scheme_char s, dropWhile scheme_char s) of
        (c # cs, d # rest) \<Rightarrow>
          if is_ascii_alpha c \<and> d = CHR '':'' then Some (map ascii_lower (c # cs), rest) else None
      | _ \<Rightarrow> None)"

definition special_scheme :: "string \<Rightarrow> bool" where
  "special_scheme sch = (sch \<in> set [''http'', ''https'', ''ws'', ''wss'', ''ftp''])"

text \<open>The forbidden host code points, which no host may contain, and the forbidden domain
  code points: those, the other C0 controls, \<open>%\<close> and DEL.\<close>

definition forbidden_host_char :: "char \<Rightarrow> bool" where
  "forbidden_host_char c =
     (c \<in> set '' #/:<>?@[]^|'' \<or> c = CHR 0x5C \<or> c = CHR 0x00 \<or> tab_or_newline c)"

definition forbidden_domain_char :: "char \<Rightarrow> bool" where
  "forbidden_domain_char c =
     (forbidden_host_char c \<or> of_char c < (32::nat) \<or> c = CHR ''%'' \<or> of_char c = (127::nat))"

definition decimal_value :: "string \<Rightarrow> nat" where
  "decimal_value ds = foldl (\<lambda>n d. 10 * n + (of_char d - 48)) 0 ds"

definition is_ascii_hex :: "char \<Rightarrow> bool" where
  "is_ascii_hex c =
     (is_ascii_digit c \<or> (let n = of_char c :: nat in (65 \<le> n \<and> n \<le> 70) \<or> (97 \<le> n \<and> n \<le> 102)))"

definition hex_value :: "char \<Rightarrow> nat" where
  "hex_value c = (let n = of_char c :: nat in if n \<le> 57 then n - 48 else if n \<le> 70 then n - 55 else n - 87)"

text \<open>Percent-decoding: \<open>%\<close> and two hex digits is the byte they spell; any other
  \<open>%\<close> stays.\<close>

fun percent_decode :: "string \<Rightarrow> string" where
  "percent_decode (c # a # b # cs) =
     (if c = CHR ''%'' \<and> is_ascii_hex a \<and> is_ascii_hex b
      then char_of (16 * hex_value a + hex_value b) # percent_decode cs
      else c # percent_decode (a # b # cs))"
| "percent_decode cs = cs"

text \<open>Strictly splitting on a delimiter: \<open>n\<close> delimiters give \<open>n + 1\<close> items.\<close>

fun strict_split :: "char \<Rightarrow> string \<Rightarrow> string list" where
  "strict_split d [] = [[]]"
| "strict_split d (c # cs) =
     (let ps = strict_split d cs in if c = d then [] # ps else (c # hd ps) # tl ps)"

subsubsection \<open>IPv4\<close>

text \<open>The IPv4 number parser: \<open>0x\<close> or \<open>0X\<close> selects hexadecimal, a leading \<open>0\<close>
  octal; what is left may be empty (zero).\<close>

definition radix_digit :: "nat \<Rightarrow> char \<Rightarrow> bool" where
  "radix_digit r c =
     (if r = 16 then is_ascii_hex c
      else if r = 8 then (let n = of_char c :: nat in 48 \<le> n \<and> n \<le> 55)
      else is_ascii_digit c)"

definition radix_value :: "nat \<Rightarrow> string \<Rightarrow> nat" where
  "radix_value r ds = foldl (\<lambda>n d. r * n + hex_value d) 0 ds"

definition ipv4_number :: "string \<Rightarrow> nat option" where
  "ipv4_number s =
     (if s = [] then None
      else
        let (r, ds) =
              (if 2 \<le> length s \<and> (take 2 s = ''0x'' \<or> take 2 s = ''0X'') then (16::nat, drop 2 s)
               else if 2 \<le> length s \<and> hd s = CHR ''0'' then (8, tl s)
               else (10, s))
        in if ds = [] then Some 0
           else if list_all (radix_digit r) ds then Some (radix_value r ds) else None)"

text \<open>The ends-in-a-number checker: the last label, after dropping one empty label at the
  end, is decimal digits or a hexadecimal IPv4 number.\<close>

definition ends_in_number :: "string \<Rightarrow> bool" where
  "ends_in_number s =
     (let ps = strict_split CHR ''.'' s in
      if ps = [[]] then False
      else
        let l = last (if last ps = [] then butlast ps else ps) in
        case ipv4_number l of
          Some _ \<Rightarrow> True
        | None \<Rightarrow> l \<noteq> [] \<and> list_all is_ascii_digit l)"

text \<open>The IPv4 parser: at most four parts (after dropping one empty part at the end),
  each an IPv4 number, all but the last below 256, the last below \<open>256 ^ (5 - n)\<close>; the
  address puts the first parts in the high bytes.\<close>

definition ipv4_parts :: "string \<Rightarrow> string list" where
  "ipv4_parts s =
     (let ps = strict_split CHR ''.'' s in if last ps = [] \<and> 1 < length ps then butlast ps else ps)"

definition ipv4_parse :: "string \<Rightarrow> nat option" where
  "ipv4_parse s =
     (let ps = ipv4_parts s in
      if 4 < length ps then None
      else
        case those (map ipv4_number ps) of
          None \<Rightarrow> None
        | Some ns \<Rightarrow>
            if list_all (\<lambda>n. n \<le> 255) (butlast ns) \<and> last ns < 256 ^ (5 - length ns)
            then Some (foldl (\<lambda>a n. 256 * a + n) 0 (butlast ns) * 256 ^ (5 - length ns) + last ns)
            else None)"

subsubsection \<open>IPv6\<close>

text \<open>An IPv4 address at the end of an IPv6 literal: exactly four decimal numbers, each
  at most 255 and without a leading zero.\<close>

definition ipv4_in_ipv6 :: "string \<Rightarrow> bool" where
  "ipv4_in_ipv6 s =
     (let ps = strict_split CHR ''.'' s in
      length ps = 4 \<and>
      list_all (\<lambda>p. p \<noteq> [] \<and> list_all is_ascii_digit p \<and> \<not> (1 < length p \<and> hd p = CHR ''0'') \<and>
                     decimal_value p \<le> 255) ps)"

text \<open>The main loop of the IPv6 parser over the rest of the input, with the index of the
  next piece and the position of the compression \<open>::\<close> if one was seen: at most eight
  pieces of at most four hex digits separated by \<open>:\<close>, one \<open>::\<close>, an IPv4 address in
  place of the last two pieces; without \<open>::\<close> there must be eight pieces.\<close>

function ipv6_pieces :: "string \<Rightarrow> nat \<Rightarrow> nat option \<Rightarrow> bool" where
  "ipv6_pieces [] i cz = (case cz of Some _ \<Rightarrow> True | None \<Rightarrow> i = 8)"
| "ipv6_pieces (c # cs) i cz =
     (if i = 8 then False
      else if c = CHR '':'' then
        (case cz of Some _ \<Rightarrow> False | None \<Rightarrow> ipv6_pieces cs (Suc i) (Some (Suc i)))
      else
        let hs = takeWhile is_ascii_hex (take 4 (c # cs)) in
        case drop (length hs) (c # cs) of
          [] \<Rightarrow> ipv6_pieces [] (Suc i) cz
        | d # ds \<Rightarrow>
            if d = CHR ''.'' then
              hs \<noteq> [] \<and> i \<le> 6 \<and> ipv4_in_ipv6 (c # cs) \<and>
              (case cz of Some _ \<Rightarrow> True | None \<Rightarrow> i + 2 = 8)
            else if d = CHR '':'' \<and> ds \<noteq> [] then ipv6_pieces ds (Suc i) cz
            else False)"
  by pat_completeness auto
termination
proof (relation "measure (\<lambda>(cs, i, cz). length cs)")
  fix c cs and hs ds :: string and d
  assume "drop (length hs) (c # cs) = d # ds"
  then have "length (d # ds) \<le> length (c # cs)" by (metis length_drop diff_le_self)
  then show "((ds, Suc i, cz), c # cs, i, cz) \<in> measure (\<lambda>(cs, i, cz). length cs)"
    for i cz by simp
qed auto

definition ipv6_parses :: "string \<Rightarrow> bool" where
  "ipv6_parses s =
     (if take 1 s = '':'' then take 2 s = ''::'' \<and> ipv6_pieces (drop 2 s) 1 (Some 1)
      else ipv6_pieces s 0 None)"

subsubsection \<open>Hosts and authorities\<close>

text \<open>The host parser: a bracketed IPv6 literal; for a non-special scheme an opaque host
  without forbidden host code points; otherwise the percent-decoded domain, non-empty,
  without forbidden domain code points, and an IPv4 address if it ends in a number.\<close>

definition host_parses :: "bool \<Rightarrow> string \<Rightarrow> bool" where
  "host_parses special h =
     (if take 1 h = ''['' then last h = CHR '']'' \<and> ipv6_parses (butlast (tl h))
      else if \<not> special then \<not> list_ex forbidden_host_char h
      else
        let d = percent_decode h in
        d \<noteq> [] \<and> \<not> list_ex forbidden_domain_char d \<and>
        (if ends_in_number d then ipv4_parse d \<noteq> None else True))"

text \<open>The host state: the host ends at the first \<open>:\<close> outside brackets, the port
  follows it.\<close>

fun split_host_port :: "bool \<Rightarrow> string \<Rightarrow> string \<times> string option" where
  "split_host_port inb [] = ([], None)"
| "split_host_port inb (c # cs) =
     (if c = CHR '':'' \<and> \<not> inb then ([], Some cs)
      else
        let (h, p) = split_host_port (if c = CHR ''['' then True else if c = CHR '']'' then False else inb) cs
        in (c # h, p))"

text \<open>The authority state: the authority ends at \<open>/\<close>, \<open>?\<close>, \<open>#\<close> (and \<open>\\<close> for a
  special scheme); the credentials end at its last \<open>@\<close>, after which the host must not be
  empty. A special scheme needs a host; a port needs a host before it.\<close>

definition authority_ok :: "bool \<Rightarrow> string \<Rightarrow> bool" where
  "authority_ok special r =
     (let auth = takeWhile (\<lambda>c. c \<notin> set ''/?#'' \<and> (if special then c \<noteq> CHR 0x5C else True)) r;
          hostport = rev (takeWhile (\<lambda>c. c \<noteq> CHR ''@'') (rev auth))
      in (if CHR ''@'' \<in> set auth then hostport \<noteq> [] else True) \<and>
         (case split_host_port False hostport of
            (host, None) \<Rightarrow> (if special then host \<noteq> [] else True) \<and> host_parses special host
          | (host, Some port) \<Rightarrow>
              host \<noteq> [] \<and> host_parses special host \<and>
              list_all is_ascii_digit port \<and> decimal_value port < 65536))"

definition slash_or_bs :: "char \<Rightarrow> bool" where
  "slash_or_bs c = (c = CHR ''/'' \<or> c = CHR 0x5C)"

text \<open>\<open>file:\<close> has a host only after two slashes; it ends at \<open>/\<close>, \<open>\\<close>, \<open>?\<close>,
  \<open>#\<close>, and is parsed as a domain unless it is empty or a Windows drive letter.\<close>

definition file_ok :: "string \<Rightarrow> bool" where
  "file_ok rest =
     (case rest of
        c # d # r \<Rightarrow>
          if slash_or_bs c \<and> slash_or_bs d then
            (let h = takeWhile (\<lambda>x. x \<notin> set ''/?#'' \<and> x \<noteq> CHR 0x5C) r in
             if h = [] then True
             else if length h = 2 \<and> is_ascii_alpha (hd h) \<and> (h ! 1 = CHR '':'' \<or> h ! 1 = CHR ''|'') then True
             else host_parses True h)
          else True
      | _ \<Rightarrow> True)"

text \<open>After the scheme: \<open>file:\<close>; a special scheme, whose authority follows any number
  of slashes and backslashes; a non-special scheme, which has an authority only after
  \<open>//\<close>; otherwise an opaque path, which never fails.\<close>

definition url_parses :: "string \<Rightarrow> bool" where
  "url_parses s =
     (case url_scheme_split (url_preprocess s) of
        None \<Rightarrow> False
      | Some (sch, rest) \<Rightarrow>
          if sch = ''file'' then file_ok rest
          else if special_scheme sch then authority_ok True (dropWhile slash_or_bs rest)
          else if take 2 rest = ''//'' then authority_ok False (drop 2 rest)
          else True)"

text \<open>\<open>validUrl(u)\<close>: \<open>new URL(u)\<close> converts \<open>u\<close> with \<open>ToString\<close> and throws
  exactly when parsing fails.\<close>

definition validUrl :: "jval \<Rightarrow> bool" where
  "validUrl u = url_parses (js_to_string u)"

text \<open>An IPv4 address in dotted-decimal notation, as written in a URL.\<close>

definition dotted_decimal :: "nat \<Rightarrow> nat \<Rightarrow> nat \<Rightarrow> nat \<Rightarrow> string" where
  "dotted_decimal a b c d =
     nat_to_decimal a @ ''.'' @ nat_to_decimal b @ ''.'' @ nat_to_decimal c @ ''.'' @ nat_to_decimal d"

subsection \<open>Code generation\<close>

definition code_chars :: string where
  "code_chars = ''abcdefghijklmnopqrstuvwxyzABCDEFGHIJKLMNOPQRSTUVWXYZ0123456789''"

text \<open>One character per random byte: \<open>chars[b%62]\<close>.\<close>

definition gen_char :: "8 word \<Rightarrow> char" where
  "gen_char b = code_chars ! (unat b mod 62)"

text \<open>The random source of \<open>crypto.getRandomValues\<close>: the stream of bytes it will
  deliver.\<close>

type_synonym random_bytes = "8 word stream"

text \<open>\<open>[...crypto.getRandomValues(new Uint8Array(6))].map(b=>chars[b%62]).join("")\<close>: six
  bytes from the random source, one character each.\<close>

definition gen_code :: "random_bytes \<Rightarrow> string" where
  "gen_code rnd = map gen_char (stake 6 rnd)"

subsection \<open>Helper lemmas\<close>

lemmas url_parser_defs = validUrl_def url_parses_def url_preprocess_def url_scheme_split_def
  c0_or_space_def tab_or_newline_def scheme_char_def ascii_lower_def special_scheme_def
  slash_or_bs_def file_ok_def authority_ok_def host_parses_def forbidden_host_char_def
  forbidden_domain_char_def decimal_value_def is_ascii_hex_def hex_value_def ends_in_number_def
  ipv4_number_def radix_digit_def radix_value_def ipv4_parts_def ipv4_parse_def
  ipv6_parses_def ipv4_in_ipv6_def

lemma map_of_char_code_chars:
  "map (of_char :: char \<Rightarrow> nat) code_chars = [97..<123] @ [65..<91] @ [48..<58]"
  by (simp add: code_chars_def upt_rec)

lemma alnum_iff_code_char: "is_ascii_alnum c \<longleftrightarrow> c \<in> set code_chars"
proof -
  have "c \<in> set code_chars \<longleftrightarrow> (of_char c :: nat) \<in> set (map of_char code_chars)"
    by (auto simp: inj_image_mem_iff [OF inj_of_char])
  also have "\<dots> \<longleftrightarrow> (of_char c :: nat) \<in> {97..<123} \<union> ({65..<91} \<union> {48..<58})"
    by (simp only: map_of_char_code_chars set_append set_upt)
  also have "\<dots> \<longleftrightarrow> is_ascii_alnum c"
    by (auto simp: js_simps Let_def)
  finally show ?thesis by simp
qed

lemma distinct_code_chars: "distinct code_chars"
  by (simp add: code_chars_def)

lemma length_code_chars [simp]: "length code_chars = 62"
  by (simp add: code_chars_def)

lemma gen_char_mem [simp]: "gen_char b \<in> set code_chars"
  by (simp add: gen_char_def)

lemma gen_char_eq_iff:
  "i < 62 \<Longrightarrow> gen_char b = code_chars ! i \<longleftrightarrow> unat b mod 62 = i"
  using nth_eq_iff_index_eq [OF distinct_code_chars] by (simp add: gen_char_def)

lemma gen_char_inj_iff: "gen_char b = gen_char b' \<longleftrightarrow> unat b mod 62 = unat b' mod 62"
  by (simp add: gen_char_def nth_eq_iff_index_eq [OF distinct_code_chars])

lemma pow10_ge: "k \<noteq> 0 \<Longrightarrow> (10::nat) \<le> 10 ^ k"
  by (cases k) simp_all

lemma length_nat_to_decimal: "k < length (nat_to_decimal n) \<longleftrightarrow> k = 0 \<or> 10 ^ k \<le> n"
proof (induction n arbitrary: k rule: nat_to_decimal.induct)
  case (1 n)
  show ?case
  proof (cases "n < 10")
    case True
    moreover have "k \<noteq> 0 \<Longrightarrow> \<not> 10 ^ k \<le> n"
      using True pow10_ge [of k] by linarith
    ultimately show ?thesis
      by (subst nat_to_decimal.simps) auto
  next
    case False
    then have len: "length (nat_to_decimal n) = Suc (length (nat_to_decimal (n div 10)))"
      by (subst nat_to_decimal.simps) simp
    show ?thesis
    proof (cases k)
      case 0
      then show ?thesis by (simp add: len)
    next
      case (Suc j)
      have "10 ^ j \<le> n div 10 \<longleftrightarrow> 10 ^ Suc j \<le> n"
        by (simp add: less_eq_div_iff_mult_less_eq mult.commute)
      then show ?thesis
        using "1.IH" [OF False, of j] False Suc len by auto
    qed
  qed
qed

lemma url_preprocess_subset: "set (url_preprocess s) \<subseteq> set s"
  by (auto simp: url_preprocess_def dest!: set_dropWhileD)

lemma url_scheme_split_colon:
  assumes "url_scheme_split s = Some r"
  shows "CHR '':'' \<in> set s"
proof -
  from assms obtain rest where "dropWhile scheme_char s = CHR '':'' # rest"
    by (auto simp: url_scheme_split_def split: list.splits if_splits)
  then have "CHR '':'' \<in> set (dropWhile scheme_char s)" by simp
  then show ?thesis by (rule set_dropWhileD)
qed

lemma url_parses_colon: "url_parses s \<Longrightarrow> CHR '':'' \<in> set s"
  using url_preprocess_subset url_scheme_split_colon
  by (fastforce simp: url_parses_def split: option.splits)

text \<open>Counting the residues below \<open>N\<close>: each class modulo \<open>m\<close> has \<open>N div m\<close>
  members, and one more for the classes below \<open>N mod m\<close>.\<close>

lemma card_mod_class:
  assumes "0 < m" "i < m"
  shows "card {n::nat. n < N \<and> n mod m = i} = N div m + (if i < N mod m then 1 else 0)"
proof (induction N)
  case 0
  then show ?case by simp
next
  case (Suc N)
  have split: "{n. n < Suc N \<and> n mod m = i} =
      {n. n < N \<and> n mod m = i} \<union> (if N mod m = i then {N} else {})"
    by (auto simp: less_Suc_eq)
  have "card {n. n < Suc N \<and> n mod m = i} =
      card {n. n < N \<and> n mod m = i} + (if N mod m = i then 1 else 0)"
    unfolding split by (simp add: card_insert_if)
  also have "\<dots> = Suc N div m + (if i < Suc N mod m then 1 else 0)"
    using Suc.IH assms mod_less_divisor [OF assms(1), of N]
    by (auto simp: mod_Suc div_Suc)
  finally show ?case .
qed

lemma unat_class_image:
  "{b :: 8 word. unat b mod 62 = i} = word_of_nat ` {n. n < 256 \<and> n mod 62 = i}"
proof (intro equalityI subsetI)
  fix b :: "8 word"
  assume "b \<in> {b. unat b mod 62 = i}"
  moreover have "unat b < 256" using unsigned_less [of b, where ?'a = nat] by simp
  ultimately show "b \<in> word_of_nat ` {n. n < 256 \<and> n mod 62 = i}"
    by (auto intro: image_eqI [where x = "unat b"])
next
  fix b :: "8 word"
  assume "b \<in> word_of_nat ` {n. n < 256 \<and> n mod 62 = i}"
  then obtain n where "n < 256" "n mod 62 = i" "b = word_of_nat n" by blast
  then show "b \<in> {b. unat b mod 62 = i}" by (simp add: unat_of_nat)
qed

lemma card_unat_class:
  assumes "i < 62"
  shows "card {b :: 8 word. unat b mod 62 = i} = (if i < 8 then 5 else 4)"
proof -
  have "inj_on (word_of_nat :: nat \<Rightarrow> 8 word) {n. n < 256 \<and> n mod 62 = i}"
    by (rule inj_on_subset [OF inj_on_word_of_nat]) auto
  then have "card {b :: 8 word. unat b mod 62 = i} = card {n::nat. n < 256 \<and> n mod 62 = i}"
    by (simp add: unat_class_image card_image)
  also have "\<dots> = (if i < 8 then 5 else 4)"
    using card_mod_class [of 62 i 256] assms by simp
  finally show ?thesis .
qed

lemma url_preprocess_visible:
  assumes "list_all (\<lambda>c. (32::nat) < of_char c) s"
  shows "url_preprocess s = s"
proof -
  have nc: "\<forall>c \<in> set s. \<not> c0_or_space c \<and> \<not> tab_or_newline c"
    using assms by (auto simp: list_all_iff c0_or_space_def tab_or_newline_def)
  then have "dropWhile c0_or_space s = s" and "dropWhile c0_or_space (rev s) = rev s"
    by (auto simp: dropWhile_eq_self_iff neq_Nil_conv hd_rev last_in_set)
  then show ?thesis using nc by (simp add: url_preprocess_def filter_id_conv)
qed

lemma percent_decode_no_percent: "CHR ''%'' \<notin> set s \<Longrightarrow> percent_decode s = s"
  by (induction s rule: percent_decode.induct) auto

lemma strict_split_no_delim: "d \<notin> set xs \<Longrightarrow> strict_split d xs = [xs]"
  by (induction xs) (auto simp: Let_def)

lemma strict_split_append:
  "d \<notin> set xs \<Longrightarrow> strict_split d (xs @ d # ys) = xs # strict_split d ys"
  by (induction xs) (auto simp: Let_def)

lemma split_host_port_no_colon: "CHR '':'' \<notin> set h \<Longrightarrow> split_host_port b h = (h, None)"
  by (induction b h rule: split_host_port.induct) (auto simp: Let_def)

lemma hex_value_digit_char [simp]: "d < 10 \<Longrightarrow> hex_value (digit_char d) = d"
  by (simp add: hex_value_def digit_char_def)

lemma radix_value_snoc: "radix_value r (xs @ [c]) = r * radix_value r xs + hex_value c"
  by (simp add: radix_value_def)

lemma radix_value_nat_to_decimal: "radix_value 10 (nat_to_decimal n) = n"
proof (induction n rule: nat_to_decimal.induct)
  case (1 n)
  then show ?case
    by (subst nat_to_decimal.simps) (auto simp: radix_value_snoc radix_value_def)
qed

lemma hd_nat_to_decimal_zero: "hd (nat_to_decimal n) = CHR ''0'' \<Longrightarrow> n = 0"
proof (induction n rule: nat_to_decimal.induct)
  case (1 n)
  show ?case
  proof (cases "n < 10")
    case True
    then have "char_of (48 + n) = CHR ''0''" using 1(2) nat_to_decimal.simps [of n]
      by (simp add: digit_char_def)
    then have "(of_char (char_of (48 + n) :: char) :: nat) = 48" by simp
    then show ?thesis using True by (simp add: of_char_of)
  next
    case False
    then have "hd (nat_to_decimal (n div 10)) = CHR ''0''"
      using 1(2) nat_to_decimal.simps [of n] by simp
    then have "n div 10 = 0" using 1(1) False by simp
    then show ?thesis using False by simp
  qed
qed

lemma ipv4_number_nat_to_decimal: "ipv4_number (nat_to_decimal n) = Some n"
proof -
  let ?s = "nat_to_decimal n"
  have dig: "list_all is_ascii_digit ?s" using nat_to_decimal_digits [of n] by (simp add: list_all_iff)
  have "\<not> (2 \<le> length ?s \<and> hd ?s = CHR ''0'')"
  proof
    assume a: "2 \<le> length ?s \<and> hd ?s = CHR ''0''"
    then have "n = 0" by (blast intro: hd_nat_to_decimal_zero)
    with a show False by (simp add: nat_to_decimal.simps)
  qed
  moreover have "take 2 ?s \<noteq> ''0x'' \<and> take 2 ?s \<noteq> ''0X''"
  proof -
    have "\<not> is_ascii_digit CHR ''x''" "\<not> is_ascii_digit CHR ''X''" by (simp_all add: is_ascii_digit_def)
    then have "CHR ''x'' \<notin> set ?s" "CHR ''X'' \<notin> set ?s" using dig by (auto simp: list_all_iff)
    moreover have "CHR ''x'' \<in> set (take 2 ?s)" if "take 2 ?s = ''0x''" using that by simp
    moreover have "CHR ''X'' \<in> set (take 2 ?s)" if "take 2 ?s = ''0X''" using that by simp
    ultimately show ?thesis by (metis in_set_takeD)
  qed
  ultimately show ?thesis
    using dig radix_value_nat_to_decimal [of n]
    by (auto simp: ipv4_number_def radix_digit_def list_all_iff hd_conv_nth)
qed

lemma nondigit_not_in_decimal: "\<not> is_ascii_digit x \<Longrightarrow> x \<notin> set (nat_to_decimal n)"
  using nat_to_decimal_digits [of n] by blast

lemma dotted_decimal_chars:
  "x \<in> set (dotted_decimal a b c d) \<Longrightarrow> is_ascii_digit x \<or> x = CHR ''.''"
  using nat_to_decimal_digits by (auto simp: dotted_decimal_def)

lemma strict_split_dotted_decimal:
  "strict_split CHR ''.'' (dotted_decimal a b c d) =
     [nat_to_decimal a, nat_to_decimal b, nat_to_decimal c, nat_to_decimal d]"
proof -
  have n: "CHR ''.'' \<notin> set (nat_to_decimal n)" for n
    by (rule nondigit_not_in_decimal) (simp add: is_ascii_digit_def)
  show ?thesis
    by (simp add: dotted_decimal_def strict_split_append [OF n] strict_split_no_delim [OF n])
qed

lemma ipv4_parse_dotted_decimal:
  "ipv4_parse (dotted_decimal a b c d) \<noteq> None \<longleftrightarrow> a \<le> 255 \<and> b \<le> 255 \<and> c \<le> 255 \<and> d \<le> 255"
  by (auto simp: ipv4_parse_def ipv4_parts_def strict_split_dotted_decimal ipv4_number_nat_to_decimal)

lemma ends_in_number_dotted_decimal: "ends_in_number (dotted_decimal a b c d)"
  by (simp add: ends_in_number_def strict_split_dotted_decimal ipv4_number_nat_to_decimal)

lemma host_parses_dotted_decimal:
  "host_parses True (dotted_decimal a b c d) \<longleftrightarrow> a \<le> 255 \<and> b \<le> 255 \<and> c \<le> 255 \<and> d \<le> 255"
proof -
  let ?h = "dotted_decimal a b c d"
  have ch: "\<And>x. x \<in> set ?h \<Longrightarrow> is_ascii_digit x \<or> x = CHR ''.''" by (rule dotted_decimal_chars)
  have "CHR ''%'' \<notin> set ?h" using ch [of "CHR ''%''"] by (auto simp: is_ascii_digit_def)
  then have pd: "percent_decode ?h = ?h" by (rule percent_decode_no_percent)
  have nf: "\<not> list_ex forbidden_domain_char ?h"
    using ch by (fastforce simp: list_ex_iff forbidden_domain_char_def forbidden_host_char_def
                                 tab_or_newline_def is_ascii_digit_def)
  have "take 1 ?h \<noteq> ''[''"
    using ch [of "CHR ''[''"] by (cases ?h) (auto simp: is_ascii_digit_def)
  moreover have "?h \<noteq> []" by (simp add: dotted_decimal_def)
  ultimately show ?thesis
    using pd nf
    by (simp add: host_parses_def ends_in_number_dotted_decimal ipv4_parse_dotted_decimal del: not_None_eq)
qed

lemma validCode_JStr_iff:
  "validCode (JStr s) \<longleftrightarrow> 6 \<le> length s \<and> length s \<le> 8 \<and> set s \<subseteq> set code_chars"
  by (auto simp: validCode_def code_regex_def list_all_iff alnum_iff_code_char)

lemma gen_code_length [simp]: "length (gen_code rnd) = 6"
  by (simp add: gen_code_def)

lemma gen_code_validCode: "validCode (JStr (gen_code rnd))"
proof -
  have "set (gen_code rnd) \<subseteq> set code_chars"
    by (auto simp: gen_code_def)
  then show ?thesis by (simp add: validCode_JStr_iff)
qed

text \<open>Of the JSON values only a string or an array can pass \<open>validUrl\<close>: the others
  print without a colon, hence without a scheme.\<close>

lemma validUrl_string_or_array: "validUrl v \<Longrightarrow> (\<exists>s. v = JStr s) \<or> (\<exists>vs. v = JArr vs)"
  using js_to_string_scalar_no_colon [of v] url_parses_colon by (auto simp: validUrl_def)

subsection \<open>Properties of the checks and of the generator\<close>

text \<open>
  C13. A string passes \<open>validCode\<close> exactly when it has 6 to 8 characters, all taken from
  the 62-character alphabet the generator draws from: the regular expression's class
  \<open>[A-Za-z0-9]\<close> and the string \<open>chars\<close> of the handler are the same set.
\<close>

theorem validCode_alphabet:
  "validCode (JStr s) \<longleftrightarrow> 6 \<le> length s \<and> length s \<le> 8 \<and> set s \<subseteq> set code_chars"
  by (auto simp: validCode_def code_regex_def list_all_iff alnum_iff_code_char)

text \<open>
  C14. A generated code has the six characters of the six bytes drawn, is accepted by
  \<open>validCode\<close> and is truthy (so it is never replaced), and it determines exactly the
  six residues \<open>b%62\<close>: two draws give the same code iff their bytes agree modulo 62.
\<close>

theorem gen_code_valid:
  "validCode (JStr (gen_code rnd)) \<and> length (gen_code rnd) = 6 \<and> js_truthy (JStr (gen_code rnd)) \<and>
   (gen_code rnd = gen_code rnd' \<longleftrightarrow> (\<forall>i < 6. unat (rnd !! i) mod 62 = unat (rnd' !! i) mod 62))"
proof -
  have v: "validCode (JStr (gen_code rnd)) \<and> length (gen_code rnd) = 6 \<and> js_truthy (JStr (gen_code rnd))"
    using gen_code_validCode [of rnd] gen_code_length [of rnd] by (auto simp del: gen_code_length)
  have "gen_code rnd = gen_code rnd' \<longleftrightarrow> (\<forall>i < 6. gen_char (rnd !! i) = gen_char (rnd' !! i))"
    by (simp add: gen_code_def list_eq_iff_nth_eq)
  also have "\<dots> \<longleftrightarrow> (\<forall>i < 6. unat (rnd !! i) mod 62 = unat (rnd' !! i) mod 62)"
    by (simp add: gen_char_inj_iff)
  finally show ?thesis using v by simp
qed

theorem gen_code_valid_witness:
  "validCode (JStr (gen_code ([0, 61, 62, 255, 8, 7] @- sconst 0))) \<and>
   length (gen_code ([0, 61, 62, 255, 8, 7] @- sconst 0)) = 6 \<and>
   js_truthy (JStr (gen_code ([0, 61, 62, 255, 8, 7] @- sconst 0))) \<and>
   gen_code ([0, 61, 62, 255, 8, 7] @- sconst 0) = ''a9ahih''"
proof -
  have "stake 6 ([0, 61, 62, 255, 8, 7] @- sconst (0::8 word)) = [0, 61, 62, 255, 8, 7]"
    by (simp only: stake_shift) simp
  then have "gen_code ([0, 61, 62, 255, 8, 7] @- sconst 0) = ''a9ahih''"
    by (simp add: gen_code_def gen_char_def code_chars_def)
  then show ?thesis using gen_code_valid [of "[0, 61, 62, 255, 8, 7] @- sconst 0"] by simp
qed

text \<open>
  C16. The generator is not uniform: \<open>b%62\<close> on a byte maps 5 of the 256 byte values
  to each of the first 8 characters (\<open>a\<close> to \<open>h\<close>) and 4 to each of the other 54.
\<close>

theorem gen_char_bias:
  assumes "i < 62"
  shows "card {b :: 8 word. gen_char b = code_chars ! i} = (if i < 8 then 5 else 4)"
  using card_unat_class [OF assms] gen_char_eq_iff [OF assms] by simp

theorem gen_char_bias_witness:
  "card {b :: 8 word. gen_char b = code_chars ! 0} = 5 \<and> card {b :: 8 word. gen_char b = code_chars ! 8} = 4"
  using gen_char_bias [of 0] gen_char_bias [of 8] by simp

text \<open>
  A JSON number passes \<open>validCode\<close> exactly when it is an integer from 100000 to
  99999999: \<open>test\<close> converts it to its decimal string first. The handler then hands a
  number to the store as the key.
\<close>

theorem validCode_JNum: "validCode (JNum n) \<longleftrightarrow> 100000 \<le> n \<and> n \<le> 99999999"
proof (cases "n < 0")
  case True
  then show ?thesis
    by (simp add: validCode_def code_regex_def int_to_decimal_def js_simps)
next
  case False
  have lo: "5 < length (nat_to_decimal (nat n)) \<longleftrightarrow> 100000 \<le> n"
    using length_nat_to_decimal [of 5 "nat n"] False by (simp add: le_nat_iff)
  have hi: "8 < length (nat_to_decimal (nat n)) \<longleftrightarrow> 100000000 \<le> n"
    using length_nat_to_decimal [of 8 "nat n"] False by (simp add: le_nat_iff)
  have "list_all is_ascii_alnum (nat_to_decimal (nat n))"
    using nat_to_decimal_digits by (simp add: list_all_iff is_ascii_alnum_def)
  with lo hi False show ?thesis
    by (auto simp: validCode_def code_regex_def int_to_decimal_def)
qed


text \<open>
  C37. The server's URL check decides dotted-decimal IPv4 hosts by the range of their
  parts: \<open>http://a.b.c.d/\<close> passes \<open>validUrl\<close> exactly when each of the four numbers
  is at most 255, so a POST of \<open>http://256.0.0.1/\<close> is answered 400.
\<close>

theorem validUrl_ipv4_bounds:
  "validUrl (JStr (''http://'' @ dotted_decimal a b c d @ ''/'')) \<longleftrightarrow>
     a \<le> 255 \<and> b \<le> 255 \<and> c \<le> 255 \<and> d \<le> 255"
proof -
  let ?h = "dotted_decimal a b c d"
  have ch: "\<And>x. x \<in> set ?h \<Longrightarrow> is_ascii_digit x \<or> x = CHR ''.''" by (rule dotted_decimal_chars)
  have "(32::nat) < of_char x" if "x \<in> set ?h" for x
    using ch [OF that] by (auto simp: is_ascii_digit_def Let_def)
  then have vis: "list_all (\<lambda>c. (32::nat) < of_char c) (''http://'' @ ?h @ ''/'')"
    by (simp add: list_all_iff)
  have sp: "url_scheme_split (''http://'' @ ?h @ ''/'') = Some (''http'', ''//'' @ ?h @ ''/'')"
    by (simp add: url_scheme_split_def scheme_char_def ascii_lower_def js_simps)
  have ne: "?h \<noteq> []" by (simp add: dotted_decimal_def)
  then obtain x xs where hx: "?h = x # xs" by (cases ?h) auto
  then have "\<not> slash_or_bs x" using ch [of x] by (auto simp: slash_or_bs_def is_ascii_digit_def)
  then have hd_ok: "dropWhile slash_or_bs (?h @ ''/'') = ?h @ ''/''" by (simp add: hx)
  have tw: "takeWhile (\<lambda>x. x \<notin> set ''/?#'' \<and> (if True then x \<noteq> CHR 0x5C else True)) (?h @ ''/'') = ?h"
    using ch by (subst takeWhile_append2) (fastforce simp: is_ascii_digit_def)+
  have at: "CHR ''@'' \<notin> set ?h" and colon: "CHR '':'' \<notin> set ?h"
    using ch [of "CHR ''@''"] ch [of "CHR '':''"] by (auto simp: is_ascii_digit_def)
  then have "takeWhile (\<lambda>x. x \<noteq> CHR ''@'') (rev ?h) = rev ?h"
    by (subst takeWhile_eq_all_conv) auto
  then have hp: "rev (takeWhile (\<lambda>x. x \<noteq> CHR ''@'') (rev ?h)) = ?h" by (metis rev_rev_ident)
  have "slash_or_bs CHR ''/''" by (simp add: slash_or_bs_def)
  then show ?thesis
    using ne url_preprocess_visible [OF vis] sp hd_ok tw at hp split_host_port_no_colon [OF colon]
    by (simp add: validUrl_def url_parses_def special_scheme_def authority_ok_def
                  host_parses_dotted_decimal)
qed

end
