(* ===== verification/Store.thy ===== *)
theory Store
  imports Validator
begin

text \<open>
  The record-store adapter \<open>src/lib/dynamo.js\<close>. The DynamoDB table is a map from the
  partition key \<open>code\<close> to the stored item; each exported function is one request to the
  table and is modelled by its effect on the map, with DynamoDB's semantics for the
  request it sends:
  \<^item> \<open>createLink\<close>: \<open>PutItem\<close> with \<open>attribute_not_exists(code)\<close>, a conditional
    insert that fails with \<open>ConditionalCheckFailedException\<close> when the key exists, and
    with \<open>ValidationException\<close> when the key is not a non-empty string;
  \<^item> \<open>getLink\<close>: \<open>GetItem\<close>, a point lookup;
  \<^item> \<open>listLinks\<close>: one \<open>Scan\<close> request, which returns the first page of the table
    in the table's own order (the code never follows \<open>LastEvaluatedKey\<close>);
  \<^item> \<open>deleteLink\<close>: \<open>DeleteItem\<close>, which succeeds whether or not the key exists;
  \<^item> \<open>incrementClick\<close>: \<open>UpdateItem\<close> with \<open>SET lastClickedAt = :t ADD clicks :inc\<close>,
    which creates the item when the key is absent (an update is an upsert) and treats
    a missing \<open>clicks\<close> as 0.
\<close>

subsection \<open>Items and the table\<close>

text \<open>An item as \<open>unmarshall\<close> returns it. \<open>url\<close> is the JSON value the POST
  received (\<open>marshall\<close> keeps a string as \<open>S\<close>, an array as \<open>L\<close>); \<open>url\<close> and
  \<open>createdAt\<close> are absent from an item that \<open>UpdateItem\<close> created.\<close>

record link =
  code :: string
  url :: "jval option"
  clicks :: nat
  createdAt :: "timestamp option"
  lastClickedAt :: "timestamp option"

type_synonym store = "string \<rightharpoonup> link"

datatype store_error = ConditionalCheckFailed | ValidationException

text \<open>The environment of a \<open>Scan\<close>: the order in which the table returns its keys and
  how many items fit in the first page of at most 1 MB.\<close>

record scan_env =
  scan_keys :: "string list"
  page_items :: nat

definition scan_env_ok :: "scan_env \<Rightarrow> store \<Rightarrow> bool" where
  "scan_env_ok env st = (distinct (scan_keys env) \<and> set (scan_keys env) = dom st)"

subsection \<open>The five operations\<close>

text \<open>\<open>const item = { code, url, clicks: 0, createdAt: now }\<close>. \<open>marshall\<close> throws on an
  \<open>undefined\<close> value; a body parsed from JSON holds none but an absent field, and the
  handler never passes one (an absent url fails \<open>validUrl\<close>, an absent code is
  replaced). A key that is not a non-empty string is refused by DynamoDB.\<close>

definition new_item :: "string \<Rightarrow> jval \<Rightarrow> timestamp \<Rightarrow> link" where
  "new_item k u now = \<lparr>code = k, url = Some u, clicks = 0, createdAt = Some now, lastClickedAt = None\<rparr>"

definition createLink :: "timestamp \<Rightarrow> jval \<Rightarrow> jval \<Rightarrow> store \<Rightarrow> store_error + store" where
  "createLink now c u st =
     (case c of
        JStr k \<Rightarrow>
          if k = [] then Inl ValidationException
          else if st k \<noteq> None then Inl ConditionalCheckFailed
          else Inr (st(k \<mapsto> new_item k u now))
      | _ \<Rightarrow> Inl ValidationException)"

definition getLink :: "string \<Rightarrow> store \<Rightarrow> link option" where
  "getLink k st = st k"

definition listLinks :: "scan_env \<Rightarrow> store \<Rightarrow> link list" where
  "listLinks env st = take (page_items env) (List.map_filter st (scan_keys env))"

definition deleteLink :: "string \<Rightarrow> store \<Rightarrow> store" where
  "deleteLink k st = st(k := None)"

text \<open>The item \<open>UpdateItem\<close> writes: the old one with \<open>clicks + 1\<close> and the new
  timestamp, or, for an absent key, a fresh item holding only the key, \<open>clicks = 1\<close>
  and the timestamp.\<close>

definition clicked_item :: "timestamp \<Rightarrow> string \<Rightarrow> link option \<Rightarrow> link" where
  "clicked_item now k old =
     (case old of
        Some l \<Rightarrow> l\<lparr>clicks := clicks l + 1, lastClickedAt := Some now\<rparr>
      | None \<Rightarrow> \<lparr>code = k, url = None, clicks = 1, createdAt = None, lastClickedAt = Some now\<rparr>)"

definition incrementClick :: "timestamp \<Rightarrow> string \<Rightarrow> store \<Rightarrow> store" where
  "incrementClick now k st = st(k \<mapsto> clicked_item now k (st k))"

subsection \<open>Invariants of the table\<close>

text \<open>Every item is stored under its own code.\<close>

definition keyed :: "store \<Rightarrow> bool" where
  "keyed st = (\<forall>k l. st k = Some l \<longrightarrow> code l = k)"

text \<open>An item as the API creates and updates it: stored under its code, with a url and a
  creation time, and clicked at least once exactly when it has a last-click time.\<close>

definition item_ok :: "string \<Rightarrow> link \<Rightarrow> bool" where
  "item_ok k l = (code l = k \<and> url l \<noteq> None \<and> createdAt l \<noteq> None \<and>
                  (lastClickedAt l = None \<longleftrightarrow> clicks l = 0))"

definition store_ok :: "store \<Rightarrow> bool" where
  "store_ok st = (\<forall>k l. st k = Some l \<longrightarrow> item_ok k l)"

text \<open>One request's effect keeps what the data model fixes per item: an item that is
  still there has the same code, url and creation time, and no fewer clicks.\<close>

definition evolves :: "store \<Rightarrow> store \<Rightarrow> bool" where
  "evolves st st' =
     (\<forall>k l l'. st k = Some l \<longrightarrow> st' k = Some l' \<longrightarrow>
        code l' = code l \<and> url l' = url l \<and> createdAt l' = createdAt l \<and> clicks l \<le> clicks l')"

subsection \<open>Characteristic equations\<close>

lemma createLink_Inr [store_simps]:
  "createLink now c u st = Inr st' \<longleftrightarrow>
     (\<exists>k. c = JStr k \<and> k \<noteq> [] \<and> st k = None \<and> st' = st(k \<mapsto> new_item k u now))"
  by (auto simp: createLink_def split: jval.splits if_splits)

lemma createLink_exists [store_simps]:
  "k \<noteq> [] \<Longrightarrow> st k \<noteq> None \<Longrightarrow> createLink now (JStr k) u st = Inl ConditionalCheckFailed"
  by (simp add: createLink_def)

lemma createLink_fresh [store_simps]:
  "k \<noteq> [] \<Longrightarrow> st k = None \<Longrightarrow> createLink now (JStr k) u st = Inr (st(k \<mapsto> new_item k u now))"
  by (simp add: createLink_def)

lemma createLink_JNum [store_simps]: "createLink now (JNum n) u st = Inl ValidationException"
  by (simp add: createLink_def)

lemma incrementClick_at [simp, store_simps]:
  "incrementClick now k st k = Some (clicked_item now k (st k))"
  by (simp add: incrementClick_def)

lemma incrementClick_other [simp, store_simps]: "k' \<noteq> k \<Longrightarrow> incrementClick now k st k' = st k'"
  by (simp add: incrementClick_def)

lemma clicked_item_Some [simp, store_simps]:
  "clicked_item now k (Some l) = l\<lparr>clicks := clicks l + 1, lastClickedAt := Some now\<rparr>"
  by (simp add: clicked_item_def)

lemma map_filter_total:
  "set ks \<subseteq> dom st \<Longrightarrow> List.map_filter st ks = map (\<lambda>k. the (st k)) ks"
  by (induction ks) (auto simp: List.map_filter_def)

lemma listLinks_eq:
  "scan_env_ok env st \<Longrightarrow> listLinks env st = map (\<lambda>k. the (st k)) (take (page_items env) (scan_keys env))"
  by (simp add: listLinks_def scan_env_ok_def map_filter_total take_map)

lemma keyed_inj: "keyed st \<Longrightarrow> inj_on (\<lambda>k. the (st k)) (dom st)"
  unfolding keyed_def inj_on_def by (metis domD option.sel)

lemma take_keys_subset: "set ks = dom st \<Longrightarrow> set (take p ks) \<subseteq> dom st"
  by (metis set_take_subset)

lemma ran_eq_image: "ran st = (\<lambda>k. the (st k)) ` dom st"
  by (force simp: ran_def dom_def)

subsection \<open>Preservation of the invariants\<close>

lemma item_ok_new_item [simp]: "item_ok k (new_item k u now)"
  by (simp add: item_ok_def new_item_def)

lemma item_ok_clicked [simp]: "item_ok k l \<Longrightarrow> item_ok k (clicked_item now k (Some l))"
  by (simp add: item_ok_def)

lemma store_ok_keyed: "store_ok st \<Longrightarrow> keyed st"
  by (simp add: store_ok_def keyed_def item_ok_def)

lemma store_ok_createLink:
  "store_ok st \<Longrightarrow> createLink now c u st = Inr st' \<Longrightarrow> store_ok st'"
  by (auto simp: store_ok_def createLink_Inr split: if_splits)

lemma store_ok_deleteLink: "store_ok st \<Longrightarrow> store_ok (deleteLink k st)"
  by (simp add: store_ok_def deleteLink_def)

lemma store_ok_incrementClick:
  "store_ok st \<Longrightarrow> st k \<noteq> None \<Longrightarrow> store_ok (incrementClick now k st)"
  unfolding store_ok_def by (metis incrementClick_at incrementClick_other item_ok_clicked option.exhaust option.inject)

lemma keyed_incrementClick: "keyed st \<Longrightarrow> keyed (incrementClick now k st)"
  by (auto simp: keyed_def incrementClick_def clicked_item_def split: option.splits if_splits)

lemma keyed_deleteLink: "keyed st \<Longrightarrow> keyed (deleteLink k st)"
  by (simp add: keyed_def deleteLink_def)

lemma keyed_createLink: "keyed st \<Longrightarrow> createLink now c u st = Inr st' \<Longrightarrow> keyed st'"
  by (auto simp: keyed_def createLink_Inr new_item_def split: if_splits)

lemma evolves_refl [simp]: "evolves st st"
  by (simp add: evolves_def)

lemma evolves_createLink: "createLink now c u st = Inr st' \<Longrightarrow> evolves st st'"
  by (auto simp: evolves_def createLink_Inr split: if_splits)

lemma evolves_deleteLink: "evolves st (deleteLink k st)"
  by (simp add: evolves_def deleteLink_def)

lemma evolves_incrementClick: "evolves st (incrementClick now k st)"
  by (auto simp: evolves_def incrementClick_def split: if_splits)

lemmas store_invariant_rules =
  store_ok_createLink store_ok_deleteLink store_ok_incrementClick
  evolves_createLink evolves_deleteLink evolves_incrementClick

subsection \<open>Properties of the adapter\<close>

text \<open>
  C18. \<open>incrementClick\<close> is one atomic \<open>ADD\<close>: applying it for the timestamps
  \<open>ts\<close> in any order of commits raises \<open>clicks\<close> by exactly \<open>length ts\<close>, leaves
  \<open>lastClickedAt\<close> at the last committed timestamp, and changes nothing else.
\<close>

theorem incrementClick_counts:
  assumes "st k = Some l"
  shows "\<exists>l'. fold (\<lambda>t. incrementClick t k) ts st k = Some l' \<and>
           clicks l' = clicks l + length ts \<and>
           lastClickedAt l' = (if ts = [] then lastClickedAt l else Some (last ts)) \<and>
           code l' = code l \<and> url l' = url l \<and> createdAt l' = createdAt l"
  using assms
proof (induction ts arbitrary: st l)
  case Nil
  then show ?case by simp
next
  case (Cons t ts)
  let ?l1 = "l\<lparr>clicks := clicks l + 1, lastClickedAt := Some t\<rparr>"
  have "incrementClick t k st k = Some ?l1" using Cons.prems by simp
  then obtain l' where "fold (\<lambda>t. incrementClick t k) ts (incrementClick t k st) k = Some l'"
      "clicks l' = clicks ?l1 + length ts"
      "lastClickedAt l' = (if ts = [] then lastClickedAt ?l1 else Some (last ts))"
      "code l' = code ?l1" "url l' = url ?l1" "createdAt l' = createdAt ?l1"
    using Cons.IH [of "incrementClick t k st" ?l1] by blast
  then show ?case by auto
qed

theorem incrementClick_counts_witness:
  "\<exists>l'. fold (\<lambda>t. incrementClick t ''abc123'') [5, 9, 7]
          [''abc123'' \<mapsto> new_item ''abc123'' (JStr ''https://example.com'') 1] ''abc123'' = Some l' \<and>
        clicks l' = clicks (new_item ''abc123'' (JStr ''https://example.com'') 1) + length [5::nat, 9, 7] \<and>
        lastClickedAt l' = (if [5::nat, 9, 7] = [] then lastClickedAt (new_item ''abc123'' (JStr ''https://example.com'') 1)
                            else Some (last [5::nat, 9, 7])) \<and>
        code l' = code (new_item ''abc123'' (JStr ''https://example.com'') 1) \<and>
        url l' = url (new_item ''abc123'' (JStr ''https://example.com'') 1) \<and>
        createdAt l' = createdAt (new_item ''abc123'' (JStr ''https://example.com'') 1)"
  by (rule incrementClick_counts) simp

text \<open>
  C19. \<open>incrementClick\<close> on an absent code does not report "not found": the
  \<open>UpdateItem\<close> request creates an item holding only the code, one click and the
  timestamp, without url or creation time, which breaks the table invariant.
\<close>

theorem incrementClick_upsert:
  assumes "st k = None"
  shows "incrementClick now k st k =
           Some \<lparr>code = k, url = None, clicks = 1, createdAt = None, lastClickedAt = Some now\<rparr>
         \<and> \<not> store_ok (incrementClick now k st)"
proof -
  let ?g = "\<lparr>code = k, url = None, clicks = 1, createdAt = None, lastClickedAt = Some now\<rparr>"
  have g: "incrementClick now k st k = Some ?g"
    using assms by (simp add: clicked_item_def)
  have "\<not> item_ok k ?g" by (simp add: item_ok_def)
  with g have "\<not> store_ok (incrementClick now k st)" unfolding store_ok_def by blast
  with g show ?thesis by simp
qed

theorem incrementClick_upsert_witness:
  "Map.empty ''abc123'' = (None :: link option) \<and>
   incrementClick 7 ''abc123'' Map.empty ''abc123'' =
     Some \<lparr>code = ''abc123'', url = None, clicks = 1, createdAt = None, lastClickedAt = Some 7\<rparr>
   \<and> \<not> store_ok (incrementClick 7 ''abc123'' Map.empty)"
  using incrementClick_upsert [of "Map.empty" "''abc123''" 7] by simp

text \<open>
  C20. \<open>listLinks\<close> returns every item of the table exactly when the table fits in the
  first page of the scan; beyond that the items after the first page are never listed.
\<close>

theorem listLinks_complete_iff:
  assumes env: "scan_env_ok env st" and key: "keyed st"
  shows "set (listLinks env st) = ran st \<longleftrightarrow> card (dom st) \<le> page_items env"
proof -
  let ?ks = "scan_keys env" and ?p = "page_items env" and ?f = "\<lambda>k. the (st k)"
  have d: "distinct ?ks" and s: "set ?ks = dom st" using env by (auto simp: scan_env_ok_def)
  have "set (listLinks env st) = ran st \<longleftrightarrow> ?f ` set (take ?p ?ks) = ?f ` set ?ks"
    using env s by (simp add: listLinks_eq ran_eq_image)
  also have "\<dots> \<longleftrightarrow> set (take ?p ?ks) = set ?ks"
    using inj_on_image_eq_iff [OF keyed_inj [OF key] take_keys_subset [OF s]] s by simp
  also have "\<dots> \<longleftrightarrow> length ?ks \<le> ?p"
  proof
    assume "set (take ?p ?ks) = set ?ks"
    then have "card (set (take ?p ?ks)) = card (set ?ks)" by simp
    then show "length ?ks \<le> ?p" using distinct_take [OF d] d by (simp add: distinct_card)
  qed simp
  also have "length ?ks = card (dom st)"
    using d s distinct_card by fastforce
  finally show ?thesis .
qed

theorem listLinks_complete_iff_witness:
  "scan_env_ok \<lparr>scan_keys = [''aaaaaa'', ''bbbbbb''], page_items = 1\<rparr>
     [''aaaaaa'' \<mapsto> new_item ''aaaaaa'' (JStr ''https://a.com'') 1, ''bbbbbb'' \<mapsto> new_item ''bbbbbb'' (JStr ''https://b.com'') 2] \<and>
   keyed [''aaaaaa'' \<mapsto> new_item ''aaaaaa'' (JStr ''https://a.com'') 1, ''bbbbbb'' \<mapsto> new_item ''bbbbbb'' (JStr ''https://b.com'') 2] \<and>
   (set (listLinks \<lparr>scan_keys = [''aaaaaa'', ''bbbbbb''], page_items = 1\<rparr>
          [''aaaaaa'' \<mapsto> new_item ''aaaaaa'' (JStr ''https://a.com'') 1, ''bbbbbb'' \<mapsto> new_item ''bbbbbb'' (JStr ''https://b.com'') 2])
      = ran [''aaaaaa'' \<mapsto> new_item ''aaaaaa'' (JStr ''https://a.com'') 1, ''bbbbbb'' \<mapsto> new_item ''bbbbbb'' (JStr ''https://b.com'') 2]
    \<longleftrightarrow> card (dom [''aaaaaa'' \<mapsto> new_item ''aaaaaa'' (JStr ''https://a.com'') 1, ''bbbbbb'' \<mapsto> new_item ''bbbbbb'' (JStr ''https://b.com'') 2]) \<le> 1)"
proof -
  let ?st = "[''aaaaaa'' \<mapsto> new_item ''aaaaaa'' (JStr ''https://a.com'') 1, ''bbbbbb'' \<mapsto> new_item ''bbbbbb'' (JStr ''https://b.com'') 2]"
  let ?env = "\<lparr>scan_keys = [''aaaaaa'', ''bbbbbb''], page_items = 1\<rparr>"
  have e: "scan_env_ok ?env ?st" by (auto simp: scan_env_ok_def)
  have k: "keyed ?st" by (simp add: keyed_def new_item_def)
  show ?thesis using e k listLinks_complete_iff [OF e k] unfolding scan_env.select_convs by blast
qed

end
