(* ===== verification/Api.thy ===== *)
theory Api
  imports Store
begin

text \<open>
  The three request handlers of the server:
  \<^item> \<open>src/pages/api/links/index.js\<close> (\<open>links_handler\<close>): \<open>GET\<close> lists the table,
    \<open>POST\<close> validates the body, chooses or generates the code and creates the link,
    mapping the store's errors to 409 and 500;
  \<^item> \<open>src/pages/api/links/[code].js\<close> (\<open>link_handler\<close>): \<open>GET\<close> and \<open>DELETE\<close> of
    one link, the delete guarded by a lookup;
  \<^item> \<open>src/pages/[code].js\<close> (\<open>getServerSideProps\<close>): the redirect, which looks the
    code up, fires the click increment and writes a 302 with the stored url.
  A handler is a function of the request and the table to the response and the new
  table. The current time and the six random bytes are inputs; awaited store calls run
  in program order. The increment the redirect fires without waiting is applied in the
  same step here; its interleaving with other requests is the subject of
  \<open>Concurrency.thy\<close>.
\<close>

datatype http_method = GET | POST | DELETE | OtherMethod string

text \<open>The two fields the POST handler reads from \<open>req.body\<close>.\<close>

record post_body =
  body_url :: jval
  body_code :: jval

datatype resp_body =
    BLinks "link list"
  | BLink link
  | BCreated jval jval
  | BError string
  | BSuccess

text \<open>\<open>res.status(n).json(b)\<close>, \<open>res.status(n).end()\<close>, the redirect written by
  \<open>res.writeHead(302, {Location: v})\<close> with the value \<open>v\<close>, Next.js's 404 page for \<open>{notFound: true}\<close>, and its 500
  page when \<open>getServerSideProps\<close> throws.\<close>

datatype response =
    Json nat resp_body
  | EndStatus nat
  | Redirect302 jval
  | NotFoundPage
  | InternalError

subsection \<open>The links collection: \<open>/api/links\<close>\<close>

text \<open>The \<open>try\<close>/\<open>catch\<close> around \<open>createLink\<close>: success is 201 with \<open>{code, url}\<close>;
  an error whose text contains \<open>ConditionalCheckFailed\<close> is 409; any other is 500.\<close>

definition create_response :: "jval \<Rightarrow> jval \<Rightarrow> store_error + store \<Rightarrow> store \<Rightarrow> response \<times> store" where
  "create_response c u r st =
     (case r of
        Inr st' \<Rightarrow> (Json 201 (BCreated c u), st')
      | Inl ConditionalCheckFailed \<Rightarrow> (Json 409 (BError ''Code exists''), st)
      | Inl ValidationException \<Rightarrow> (Json 500 (BError ''Internal''), st))"

text \<open>
  The POST branch. \<open>createLink\<close> receives the body's \<open>url\<close> as it is: a string, or
  an array whose \<open>ToString\<close> parses (\<open>Validator.validUrl_string_or_array\<close>). The code
  is the body's \<open>code\<close> when truthy, else the one generated from the random bytes
  \<open>rnd\<close>.
\<close>

definition post_links :: "timestamp \<Rightarrow> random_bytes \<Rightarrow> post_body \<Rightarrow> store \<Rightarrow> response \<times> store" where
  "post_links now rnd b st =
     (let u = body_url b; c = body_code b in
      if \<not> validUrl u then (Json 400 (BError ''Invalid URL''), st)
      else if js_truthy c \<and> \<not> validCode c then (Json 400 (BError ''Invalid code''), st)
      else
        let c' = (if \<not> js_truthy c then JStr (gen_code rnd) else c)
        in create_response c' u (createLink now c' u st) st)"

definition links_handler ::
  "timestamp \<Rightarrow> random_bytes \<Rightarrow> scan_env \<Rightarrow> http_method \<Rightarrow> post_body \<Rightarrow> store \<Rightarrow> response \<times> store" where
  "links_handler now rnd env m b st =
     (case m of
        GET \<Rightarrow> (Json 200 (BLinks (listLinks env st)), st)
      | POST \<Rightarrow> post_links now rnd b st
      | _ \<Rightarrow> (EndStatus 405, st))"

subsection \<open>One link: \<open>/api/links/[code]\<close>\<close>

definition link_handler :: "http_method \<Rightarrow> string \<Rightarrow> store \<Rightarrow> response \<times> store" where
  "link_handler m k st =
     (case m of
        GET \<Rightarrow>
          (case getLink k st of
             None \<Rightarrow> (Json 404 (BError ''Not found''), st)
           | Some l \<Rightarrow> (Json 200 (BLink l), st))
      | DELETE \<Rightarrow>
          (case getLink k st of
             None \<Rightarrow> (Json 404 (BError ''Not found''), st)
           | Some _ \<Rightarrow> (Json 200 BSuccess, deleteLink k st))
      | _ \<Rightarrow> (EndStatus 405, st))"

subsection \<open>The redirect: \<open>/[code]\<close>\<close>

text \<open>Node's check of a header value in \<open>writeHead\<close>: \<open>undefined\<close> is refused, and
  the value's \<open>ToString\<close> may hold only tab and the characters \<open>0x20\<close> to \<open>0xFF\<close>
  other than DEL. An array is written as one header line per element, each checked the
  same way. A refused value throws, and Next.js answers 500.\<close>

definition header_value_ok :: "string \<Rightarrow> bool" where
  "header_value_ok s = list_all (\<lambda>c. c = CHR 0x09 \<or> (32 \<le> (of_char c :: nat) \<and> of_char c \<noteq> (127::nat))) s"

definition location_ok :: "jval \<Rightarrow> bool" where
  "location_ok v =
     (case v of
        JUndefined \<Rightarrow> False
      | JArr vs \<Rightarrow> list_all (\<lambda>e. e \<noteq> JUndefined \<and> header_value_ok (js_to_string e)) vs
      | _ \<Rightarrow> header_value_ok (js_to_string v))"

text \<open>\<open>res.writeHead(302, {Location: link.url})\<close>; an item without \<open>url\<close> passes
  \<open>undefined\<close>.\<close>

definition location_response :: "link \<Rightarrow> response" where
  "location_response l =
     (case url l of
        Some u \<Rightarrow> if location_ok u then Redirect302 u else InternalError
      | None \<Rightarrow> InternalError)"

text \<open>\<open>incrementClick(code).catch(()=>{})\<close> is issued before \<open>writeHead\<close>, so the
  click is recorded whatever the response turns out to be.\<close>

definition getServerSideProps :: "timestamp \<Rightarrow> string \<Rightarrow> store \<Rightarrow> response \<times> store" where
  "getServerSideProps now k st =
     (case getLink k st of
        None \<Rightarrow> (NotFoundPage, st)
      | Some l \<Rightarrow> (location_response l, incrementClick now k st))"

subsection \<open>The server as one step function\<close>

text \<open>A request to any of the routes, with the inputs the runtime supplies.\<close>

datatype api_request =
    LinksRequest http_method post_body
  | LinkRequest http_method string
  | RedirectRequest string

definition api_step ::
  "timestamp \<Rightarrow> random_bytes \<Rightarrow> scan_env \<Rightarrow> api_request \<Rightarrow> store \<Rightarrow> response \<times> store" where
  "api_step now rnd env rq st =
     (case rq of
        LinksRequest m b \<Rightarrow> links_handler now rnd env m b st
      | LinkRequest m k \<Rightarrow> link_handler m k st
      | RedirectRequest k \<Rightarrow> getServerSideProps now k st)"

subsection \<open>Helper lemmas\<close>

lemma snd_create_response:
  "snd (create_response c u r st) = (case r of Inr st' \<Rightarrow> st' | Inl _ \<Rightarrow> st)"
  by (simp add: create_response_def split: sum.splits store_error.splits)

lemma post_links_store:
  "snd (post_links now rnd b st) = st \<or>
   (\<exists>c. createLink now c (body_url b) st = Inr (snd (post_links now rnd b st)))"
  by (auto simp: post_links_def Let_def snd_create_response split: sum.splits)

lemma api_step_cases:
  "snd (api_step now rnd env rq st) = st \<or>
   (\<exists>c u. createLink now c u st = Inr (snd (api_step now rnd env rq st))) \<or>
   (\<exists>k. snd (api_step now rnd env rq st) = deleteLink k st) \<or>
   (\<exists>k. st k \<noteq> None \<and> snd (api_step now rnd env rq st) = incrementClick now k st)"
proof (cases rq)
  case (LinksRequest m b)
  then show ?thesis using post_links_store [of now rnd b st]
    by (cases m) (auto simp: api_step_def links_handler_def)
next
  case (LinkRequest m k)
  then show ?thesis
    by (cases m) (auto simp: api_step_def link_handler_def getLink_def split: option.splits)
next
  case (RedirectRequest k)
  then show ?thesis
    by (auto simp: api_step_def getServerSideProps_def getLink_def split: option.splits)
qed

lemma post_links_created:
  assumes "post_links now rnd \<lparr>body_url = JStr u, body_code = c\<rparr> st = (Json 201 (BCreated (JStr k) v), st')"
  shows "st' = st(k \<mapsto> new_item k (JStr u) now)"
  using assms
  by (auto simp: post_links_def create_response_def createLink_def Let_def
           split: if_splits sum.splits store_error.splits jval.splits)

lemma valid_example_url: "validUrl (JStr ''https://example.com'')"
  by (simp add: url_parser_defs js_simps)

lemma valid_example_code: "validCode (JStr ''abc123'')"
  by (simp add: validCode_def code_regex_def js_simps)

subsection \<open>Creating links\<close>

text \<open>
  C1. A POST with a valid url and no code (any falsy \<open>code\<close>) stores a new link under
  the code generated from six bytes of the random source, with no clicks and the current time, and
  answers 201 with that code and the url; the code is a valid six-character code.
\<close>

theorem post_generated_code:
  assumes "validUrl (JStr u)" and "\<not> js_truthy c" and "st (gen_code rnd) = None"
  shows "post_links now rnd \<lparr>body_url = JStr u, body_code = c\<rparr> st =
           (Json 201 (BCreated (JStr (gen_code rnd)) (JStr u)),
            st(gen_code rnd \<mapsto> new_item (gen_code rnd) (JStr u) now))
         \<and> validCode (JStr (gen_code rnd)) \<and> length (gen_code rnd) = 6"
proof -
  have "gen_code rnd \<noteq> []" by (metis gen_code_length list.size(3) zero_neq_numeral)
  then show ?thesis using assms gen_code_validCode [of rnd]
    by (simp add: post_links_def create_response_def createLink_fresh Let_def)
qed

theorem post_generated_code_witness:
  "post_links 1 ([0, 1, 2, 3, 4, 5] @- sconst 0) \<lparr>body_url = JStr ''https://example.com'', body_code = JUndefined\<rparr> Map.empty =
     (Json 201 (BCreated (JStr (gen_code ([0, 1, 2, 3, 4, 5] @- sconst 0))) (JStr ''https://example.com'')),
      [gen_code ([0, 1, 2, 3, 4, 5] @- sconst 0) \<mapsto> new_item (gen_code ([0, 1, 2, 3, 4, 5] @- sconst 0)) (JStr ''https://example.com'') 1])
   \<and> validCode (JStr (gen_code ([0, 1, 2, 3, 4, 5] @- sconst 0))) \<and> length (gen_code ([0, 1, 2, 3, 4, 5] @- sconst 0)) = 6"
  using post_generated_code [OF valid_example_url, where c = JUndefined and rnd = "[0, 1, 2, 3, 4, 5] @- sconst 0"
      and st = Map.empty and now = 1]
  by simp





subsection \<open>Redirects and single links\<close>

text \<open>
  C4. Redirecting an existing code answers 302 with its stored url as the location and
  adds one click with the current time as \<open>lastClickedAt\<close>; nothing else in the table
  changes.
\<close>

theorem redirect_found:
  assumes "st k = Some l" and "url l = Some u" and "location_ok u"
  shows "getServerSideProps now k st =
           (Redirect302 u, st(k \<mapsto> l\<lparr>clicks := clicks l + 1, lastClickedAt := Some now\<rparr>))"
  using assms by (simp add: getServerSideProps_def getLink_def location_response_def incrementClick_def)

theorem redirect_found_witness:
  "getServerSideProps 5 ''abc123'' [''abc123'' \<mapsto> new_item ''abc123'' (JStr ''https://example.com'') 1] =
     (Redirect302 (JStr ''https://example.com''),
      [''abc123'' \<mapsto> (new_item ''abc123'' (JStr ''https://example.com'') 1)\<lparr>clicks := 1, lastClickedAt := Some 5\<rparr>])"
proof -
  have h: "location_ok (JStr ''https://example.com'')" by (simp add: location_ok_def header_value_ok_def)
  show ?thesis
    using redirect_found [of "[''abc123'' \<mapsto> new_item ''abc123'' (JStr ''https://example.com'') 1]" "''abc123''"
        "new_item ''abc123'' (JStr ''https://example.com'') 1" "JStr ''https://example.com''" 5] h
    by (simp add: new_item_def)
qed

text \<open>
  Redirecting an unknown code answers the not-found page, sets no location and does
  not touch the table.
\<close>

theorem redirect_missing:
  assumes "st k = None"
  shows "getServerSideProps now k st = (NotFoundPage, st)"
  using assms by (simp add: getServerSideProps_def getLink_def)

theorem redirect_missing_witness:
  "getServerSideProps 5 ''abc123'' Map.empty = (NotFoundPage, Map.empty)"
  using redirect_missing [of Map.empty "''abc123''" 5] by simp

text \<open>
  Deleting a code twice in sequence: the first DELETE answers 200 and removes the
  link, the second answers 404.
\<close>

theorem delete_twice:
  assumes "st k \<noteq> None"
  shows "link_handler DELETE k st = (Json 200 BSuccess, st(k := None)) \<and>
         link_handler DELETE k (st(k := None)) = (Json 404 (BError ''Not found''), st(k := None))"
  using assms by (auto simp: link_handler_def getLink_def deleteLink_def)

theorem delete_twice_witness:
  "link_handler DELETE ''abc123'' [''abc123'' \<mapsto> new_item ''abc123'' (JStr ''https://example.com'') 1] =
     (Json 200 BSuccess, ([''abc123'' \<mapsto> new_item ''abc123'' (JStr ''https://example.com'') 1])(''abc123'' := None)) \<and>
   link_handler DELETE ''abc123'' (([''abc123'' \<mapsto> new_item ''abc123'' (JStr ''https://example.com'') 1])(''abc123'' := None)) =
     (Json 404 (BError ''Not found''), ([''abc123'' \<mapsto> new_item ''abc123'' (JStr ''https://example.com'') 1])(''abc123'' := None))"
  by (rule delete_twice) simp

subsection \<open>Invariants of the server\<close>

text \<open>
  C7. Every request handled by the server, on any route and with any input, keeps the table
  well formed: each item under its own code, with a url and a creation time, and with a
  last-click time exactly when it has clicks.
\<close>

theorem api_step_store_ok:
  assumes "store_ok st"
  shows "store_ok (snd (api_step now rnd env rq st))"
  using api_step_cases [of now rnd env rq st] assms
    store_ok_createLink store_ok_deleteLink store_ok_incrementClick
  by metis

theorem api_step_store_ok_witness:
  "store_ok [''abc123'' \<mapsto> new_item ''abc123'' (JStr ''https://example.com'') 1] \<and>
   store_ok (snd (api_step 5 (sconst 0) \<lparr>scan_keys = [], page_items = 0\<rparr> (RedirectRequest ''abc123'')
                    [''abc123'' \<mapsto> new_item ''abc123'' (JStr ''https://example.com'') 1]))"
proof -
  have h: "store_ok [''abc123'' \<mapsto> new_item ''abc123'' (JStr ''https://example.com'') 1]"
    by (simp add: store_ok_def)
  show ?thesis using h api_step_store_ok [OF h] by blast
qed

text \<open>
  C8. No request changes the code, url or creation time of a link that survives it, and
  none lowers its click count.
\<close>

theorem api_step_evolves: "evolves st (snd (api_step now rnd env rq st))"
  using api_step_cases [of now rnd env rq st]
  by (auto intro: evolves_createLink evolves_deleteLink evolves_incrementClick)

theorem api_step_evolves_witness:
  "evolves [''abc123'' \<mapsto> new_item ''abc123'' (JStr ''https://example.com'') 1]
     [''abc123'' \<mapsto> (new_item ''abc123'' (JStr ''https://example.com'') 1)\<lparr>clicks := 1, lastClickedAt := Some 5\<rparr>]"
  using api_step_evolves [of "[''abc123'' \<mapsto> new_item ''abc123'' (JStr ''https://example.com'') 1]" 5 "sconst 0"
      "\<lparr>scan_keys = [], page_items = 0\<rparr>" "RedirectRequest ''abc123''"]
  by (simp add: api_step_def getServerSideProps_def getLink_def incrementClick_def clicked_item_def
                new_item_def)

subsection \<open>Divergences from the specification\<close>



text \<open>
  C22. The endpoint does not restrict urls to http and https: any scheme the URL parser
  accepts is stored, for instance \<open>javascript:\<close>.
\<close>

theorem post_accepts_any_scheme:
  assumes "st k = None" and "validCode (JStr k)"
  shows "post_links now rnd \<lparr>body_url = JStr ''javascript:alert(1)'', body_code = JStr k\<rparr> st =
           (Json 201 (BCreated (JStr k) (JStr ''javascript:alert(1)'')),
            st(k \<mapsto> new_item k (JStr ''javascript:alert(1)'') now))"
proof -
  have v: "validUrl (JStr ''javascript:alert(1)'')"
    by (simp add: url_parser_defs js_simps)
  have "k \<noteq> []" using assms(2) by (auto simp: validCode_JStr_iff)
  with v assms show ?thesis
    by (simp add: post_links_def create_response_def createLink_fresh Let_def)
qed

theorem post_accepts_any_scheme_witness:
  "Map.empty ''abc123'' = (None :: link option) \<and> validCode (JStr ''abc123'') \<and>
   post_links 1 (sconst 0) \<lparr>body_url = JStr ''javascript:alert(1)'', body_code = JStr ''abc123''\<rparr> Map.empty =
     (Json 201 (BCreated (JStr ''abc123'') (JStr ''javascript:alert(1)'')),
      [''abc123'' \<mapsto> new_item ''abc123'' (JStr ''javascript:alert(1)'') 1])"
proof -
  have v: "validCode (JStr ''abc123'')" by (simp add: validCode_def code_regex_def js_simps)
  show ?thesis using v post_accepts_any_scheme [of Map.empty "''abc123''" 1 "sconst 0", OF _ v] by simp
qed

text \<open>
  C15. The POST handler accepts a url that is not a string: \<open>new URL\<close> converts its
  argument with \<open>ToString\<close>, so a one-element array holding a valid url passes
  \<open>validUrl\<close>, and the array itself is stored as the link's url (a DynamoDB list) and
  echoed in the 201. The specification requires a string url and \<open>InvalidInput\<close>
  otherwise.
\<close>

theorem post_accepts_array_url:
  assumes "validUrl (JStr u)" and "validCode (JStr k)" and "st k = None"
  shows "post_links now rnd \<lparr>body_url = JArr [JStr u], body_code = JStr k\<rparr> st =
           (Json 201 (BCreated (JStr k) (JArr [JStr u])), st(k \<mapsto> new_item k (JArr [JStr u]) now))"
proof -
  have "validUrl (JArr [JStr u])" using assms(1) by (simp add: validUrl_def)
  moreover have "k \<noteq> []" using assms(2) by (auto simp: validCode_JStr_iff)
  ultimately show ?thesis using assms
    by (simp add: post_links_def create_response_def createLink_fresh Let_def)
qed

theorem post_accepts_array_url_witness:
  "post_links 1 (sconst 0) \<lparr>body_url = JArr [JStr ''https://example.com''], body_code = JStr ''abc123''\<rparr> Map.empty =
     (Json 201 (BCreated (JStr ''abc123'') (JArr [JStr ''https://example.com''])),
      [''abc123'' \<mapsto> new_item ''abc123'' (JArr [JStr ''https://example.com'']) 1])"
  using post_accepts_array_url [OF valid_example_url valid_example_code, of Map.empty 1 "sconst 0"] by simp

text \<open>
  C23. A url holding a control character such as a newline passes \<open>validUrl\<close>
  (the URL parser drops newlines) and is stored as given; every later redirect to it fails
  with 500 in \<open>writeHead\<close> while still counting the click.
\<close>

theorem created_link_unredirectable:
  assumes "post_links now rnd \<lparr>body_url = JStr u, body_code = c\<rparr> st = (Json 201 (BCreated (JStr k) v), st')"
    and "\<not> header_value_ok u"
  shows "getServerSideProps now' k st' = (InternalError, incrementClick now' k st')"
  using post_links_created [OF assms(1)] assms(2)
  by (simp add: getServerSideProps_def getLink_def location_response_def location_ok_def new_item_def)

theorem created_link_unredirectable_witness:
  "post_links 1 (sconst 0) \<lparr>body_url = JStr (''https://example.com/a'' @ [CHR 0x0A] @ ''b''), body_code = JStr ''abc123''\<rparr> Map.empty
     = (Json 201 (BCreated (JStr ''abc123'') (JStr (''https://example.com/a'' @ [CHR 0x0A] @ ''b''))),
        [''abc123'' \<mapsto> new_item ''abc123'' (JStr (''https://example.com/a'' @ [CHR 0x0A] @ ''b'')) 1]) \<and>
   \<not> header_value_ok (''https://example.com/a'' @ [CHR 0x0A] @ ''b'') \<and>
   getServerSideProps 2 ''abc123'' [''abc123'' \<mapsto> new_item ''abc123'' (JStr (''https://example.com/a'' @ [CHR 0x0A] @ ''b'')) 1]
     = (InternalError, incrementClick 2 ''abc123''
          [''abc123'' \<mapsto> new_item ''abc123'' (JStr (''https://example.com/a'' @ [CHR 0x0A] @ ''b'')) 1])"
proof -
  let ?u = "''https://example.com/a'' @ [CHR 0x0A] @ ''b''"
  have v: "validUrl (JStr ?u)" by (simp add: url_parser_defs js_simps)
  have c: "validCode (JStr ''abc123'')" by (simp add: validCode_def code_regex_def js_simps)
  have p: "post_links 1 (sconst 0) \<lparr>body_url = JStr ?u, body_code = JStr ''abc123''\<rparr> Map.empty
     = (Json 201 (BCreated (JStr ''abc123'') (JStr ?u)), [''abc123'' \<mapsto> new_item ''abc123'' (JStr ?u) 1])"
    using v c by (simp add: post_links_def create_response_def createLink_fresh Let_def)
  have h: "\<not> header_value_ok ?u" by (simp add: header_value_ok_def)
  show ?thesis using p h created_link_unredirectable [OF p h, of 2] by simp
qed

end
