(* ===== verification/Concurrency.thy ===== *)
theory Concurrency
  imports Api
begin

text \<open>
  Requests are served concurrently, and each handler awaits one store request at a time,
  so the store requests of different handlers interleave. A handler in flight is a
  thread whose state says which store request it issues next; a step of the system runs
  one store request of one thread atomically against the table, as DynamoDB executes
  each request atomically. The threads follow the handlers of \<open>Api.thy\<close>:
  \<^item> a redirect (\<open>src/pages/[code].js\<close>) reads the item, answers, and leaves its
    \<open>UpdateItem\<close> in flight (\<open>TIncrement\<close>) until it lands;
  \<^item> a DELETE (\<open>src/pages/api/links/[code].js\<close>) reads the item, then deletes it;
  \<^item> a GET of one link or of the list is one read;
  \<^item> a POST (\<open>src/pages/api/links/index.js\<close>) validates locally, then issues one
    conditional put.
  The time of a request is fixed when it starts: \<open>new Date()\<close> in \<open>incrementClick\<close>
  and \<open>createLink\<close> runs when the call is made.
\<close>

datatype thread =
    TRedirect timestamp string
  | TIncrement timestamp string response
  | TDelete string
  | TDeleteItem string
  | TGetLink string
  | TList scan_env
  | TCreate timestamp jval jval jval
  | TDone response

record sys =
  table :: store
  threads :: "thread list"

text \<open>The thread a request starts as; a POST that fails validation is answered before
  any store request.\<close>

definition post_thread :: "timestamp \<Rightarrow> random_bytes \<Rightarrow> post_body \<Rightarrow> thread" where
  "post_thread now rnd b =
     (let u = body_url b; c = body_code b in
      if \<not> validUrl u then TDone (Json 400 (BError ''Invalid URL''))
      else if js_truthy c \<and> \<not> validCode c then TDone (Json 400 (BError ''Invalid code''))
      else
        let c' = (if \<not> js_truthy c then JStr (gen_code rnd) else c)
        in TCreate now c' u u)"

definition start_thread :: "timestamp \<Rightarrow> random_bytes \<Rightarrow> scan_env \<Rightarrow> api_request \<Rightarrow> thread" where
  "start_thread now rnd env rq =
     (case rq of
        LinksRequest GET b \<Rightarrow> TList env
      | LinksRequest POST b \<Rightarrow> post_thread now rnd b
      | LinksRequest _ b \<Rightarrow> TDone (EndStatus 405)
      | LinkRequest GET k \<Rightarrow> TGetLink k
      | LinkRequest DELETE k \<Rightarrow> TDelete k
      | LinkRequest _ k \<Rightarrow> TDone (EndStatus 405)
      | RedirectRequest k \<Rightarrow> TRedirect now k)"

text \<open>One store request of thread \<open>i\<close>.\<close>

inductive cstep :: "sys \<Rightarrow> sys \<Rightarrow> bool" where
  redirect_found:
    "\<lbrakk>i < length (threads s); threads s ! i = TRedirect t k; getLink k (table s) = Some l\<rbrakk>
     \<Longrightarrow> cstep s (s\<lparr>threads := (threads s)[i := TIncrement t k (location_response l)]\<rparr>)"
| redirect_missing:
    "\<lbrakk>i < length (threads s); threads s ! i = TRedirect t k; getLink k (table s) = None\<rbrakk>
     \<Longrightarrow> cstep s (s\<lparr>threads := (threads s)[i := TDone NotFoundPage]\<rparr>)"
| increment:
    "\<lbrakk>i < length (threads s); threads s ! i = TIncrement t k r\<rbrakk>
     \<Longrightarrow> cstep s \<lparr>table = incrementClick t k (table s), threads = (threads s)[i := TDone r]\<rparr>"
| delete_found:
    "\<lbrakk>i < length (threads s); threads s ! i = TDelete k; getLink k (table s) \<noteq> None\<rbrakk>
     \<Longrightarrow> cstep s (s\<lparr>threads := (threads s)[i := TDeleteItem k]\<rparr>)"
| delete_missing:
    "\<lbrakk>i < length (threads s); threads s ! i = TDelete k; getLink k (table s) = None\<rbrakk>
     \<Longrightarrow> cstep s (s\<lparr>threads := (threads s)[i := TDone (Json 404 (BError ''Not found''))]\<rparr>)"
| delete_item:
    "\<lbrakk>i < length (threads s); threads s ! i = TDeleteItem k\<rbrakk>
     \<Longrightarrow> cstep s \<lparr>table = deleteLink k (table s), threads = (threads s)[i := TDone (Json 200 BSuccess)]\<rparr>"
| get_link:
    "\<lbrakk>i < length (threads s); threads s ! i = TGetLink k\<rbrakk>
     \<Longrightarrow> cstep s (s\<lparr>threads := (threads s)[i := TDone (fst (link_handler GET k (table s)))]\<rparr>)"
| list:
    "\<lbrakk>i < length (threads s); threads s ! i = TList env\<rbrakk>
     \<Longrightarrow> cstep s (s\<lparr>threads := (threads s)[i := TDone (Json 200 (BLinks (listLinks env (table s))))]\<rparr>)"
| create:
    "\<lbrakk>i < length (threads s); threads s ! i = TCreate t c u v;
      create_response c v (createLink t c u (table s)) (table s) = (r, st')\<rbrakk>
     \<Longrightarrow> cstep s \<lparr>table = st', threads = (threads s)[i := TDone r]\<rparr>"

text \<open>How many store requests a thread still has to issue.\<close>

primrec work :: "thread \<Rightarrow> nat" where
  "work (TRedirect t k) = 2"
| "work (TIncrement t k r) = 1"
| "work (TDelete k) = 2"
| "work (TDeleteItem k) = 1"
| "work (TGetLink k) = 1"
| "work (TList env) = 1"
| "work (TCreate t c u v) = 1"
| "work (TDone r) = 0"

definition total_work :: "sys \<Rightarrow> nat" where
  "total_work s = sum_list (map work (threads s))"

subsection \<open>Bookkeeping for the invariants\<close>

text \<open>For the lost-update argument: the threads that are redirects of code \<open>k\<close>
  (finished threads included), and how many clicks each still owes the table.\<close>

primrec redirect_of :: "string \<Rightarrow> thread \<Rightarrow> bool" where
  "redirect_of k (TRedirect t k') = (k' = k)"
| "redirect_of k (TIncrement t k' r) = (k' = k)"
| "redirect_of k (TDelete k') = False"
| "redirect_of k (TDeleteItem k') = False"
| "redirect_of k (TGetLink k') = False"
| "redirect_of k (TList env) = False"
| "redirect_of k (TCreate t c u v) = False"
| "redirect_of k (TDone r) = True"

primrec owed :: "thread \<Rightarrow> nat" where
  "owed (TRedirect t k) = 1"
| "owed (TIncrement t k r) = 1"
| "owed (TDelete k) = 0"
| "owed (TDeleteItem k) = 0"
| "owed (TGetLink k) = 0"
| "owed (TList env) = 0"
| "owed (TCreate t c u v) = 0"
| "owed (TDone r) = 0"

definition clicks_inv :: "string \<Rightarrow> nat \<Rightarrow> sys \<Rightarrow> bool" where
  "clicks_inv k n s =
     (list_all (redirect_of k) (threads s) \<and>
      (\<exists>l. table s k = Some l \<and> clicks l + sum_list (map owed (threads s)) = n))"

text \<open>For the create race: the threads that are POSTs of code \<open>k\<close>, finished ones
  answered 201 or 409, and whether a finished thread won the conditional put.\<close>

fun created_resp :: "string \<Rightarrow> response \<Rightarrow> bool" where
  "created_resp k (Json n (BCreated c v)) = (n = 201 \<and> c = JStr k)"
| "created_resp k r = False"

primrec create_of :: "string \<Rightarrow> thread \<Rightarrow> bool" where
  "create_of k (TRedirect t k') = False"
| "create_of k (TIncrement t k' r) = False"
| "create_of k (TDelete k') = False"
| "create_of k (TDeleteItem k') = False"
| "create_of k (TGetLink k') = False"
| "create_of k (TList env) = False"
| "create_of k (TCreate t c u v) = (c = JStr k)"
| "create_of k (TDone r) = (created_resp k r \<or> r = Json 409 (BError ''Code exists''))"

definition wins :: "string \<Rightarrow> thread \<Rightarrow> nat" where
  "wins k th = (case th of TDone r \<Rightarrow> if created_resp k r then 1 else 0 | _ \<Rightarrow> 0)"

definition create_inv :: "string \<Rightarrow> sys \<Rightarrow> bool" where
  "create_inv k s =
     (list_all (create_of k) (threads s) \<and>
      sum_list (map (wins k) (threads s)) = (if table s k = None then 0 else 1) \<and>
      (table s k = None \<longrightarrow> list_all (\<lambda>th. work th \<noteq> 0) (threads s)))"

text \<open>The item a late \<open>UpdateItem\<close> writes under a code that was deleted meanwhile.\<close>

definition ghost_item :: "timestamp \<Rightarrow> string \<Rightarrow> link" where
  "ghost_item t k = clicked_item t k None"

subsection \<open>Helper lemmas\<close>

lemma cstep_length: "cstep s s' \<Longrightarrow> length (threads s') = length (threads s)"
  by (induction rule: cstep.induct) simp_all

lemma cstep_run_length: "cstep\<^sup>*\<^sup>* s s' \<Longrightarrow> length (threads s') = length (threads s)"
  by (induction rule: rtranclp_induct) (simp_all add: cstep_length)

lemma post_thread_cases:
  "(\<exists>r. post_thread now rnd b = TDone r \<and> post_links now rnd b st = (r, st)) \<or>
   (\<exists>t c u v. post_thread now rnd b = TCreate t c u v \<and>
       post_links now rnd b st = create_response c v (createLink t c u st) st)"
  by (auto simp: post_thread_def post_links_def Let_def)

lemma solo_redirect:
  "cstep\<^sup>*\<^sup>* \<lparr>table = st, threads = [TRedirect now k]\<rparr>
     \<lparr>table = snd (getServerSideProps now k st), threads = [TDone (fst (getServerSideProps now k st))]\<rparr>"
proof (cases "st k")
  case None
  have "cstep \<lparr>table = st, threads = [TRedirect now k]\<rparr> \<lparr>table = st, threads = [TDone NotFoundPage]\<rparr>"
    using cstep.redirect_missing [of 0 "\<lparr>table = st, threads = [TRedirect now k]\<rparr>" now k] None
    by (simp add: getLink_def)
  then show ?thesis using None by (simp add: getServerSideProps_def getLink_def)
next
  case (Some l)
  have "cstep \<lparr>table = st, threads = [TRedirect now k]\<rparr>
               \<lparr>table = st, threads = [TIncrement now k (location_response l)]\<rparr>"
    using cstep.redirect_found [of 0 "\<lparr>table = st, threads = [TRedirect now k]\<rparr>" now k l] Some
    by (simp add: getLink_def)
  moreover have "cstep \<lparr>table = st, threads = [TIncrement now k (location_response l)]\<rparr>
               \<lparr>table = incrementClick now k st, threads = [TDone (location_response l)]\<rparr>"
    using cstep.increment [of 0 "\<lparr>table = st, threads = [TIncrement now k (location_response l)]\<rparr>"] by simp
  ultimately show ?thesis using Some
    by (simp add: getServerSideProps_def getLink_def)
qed

lemma solo_delete:
  "cstep\<^sup>*\<^sup>* \<lparr>table = st, threads = [TDelete k]\<rparr>
     \<lparr>table = snd (link_handler DELETE k st), threads = [TDone (fst (link_handler DELETE k st))]\<rparr>"
proof (cases "st k")
  case None
  have "cstep \<lparr>table = st, threads = [TDelete k]\<rparr> \<lparr>table = st, threads = [TDone (Json 404 (BError ''Not found''))]\<rparr>"
    using cstep.delete_missing [of 0 "\<lparr>table = st, threads = [TDelete k]\<rparr>" k] None
    by (simp add: getLink_def)
  then show ?thesis using None by (simp add: link_handler_def getLink_def)
next
  case (Some l)
  have "cstep \<lparr>table = st, threads = [TDelete k]\<rparr> \<lparr>table = st, threads = [TDeleteItem k]\<rparr>"
    using cstep.delete_found [of 0 "\<lparr>table = st, threads = [TDelete k]\<rparr>" k] Some
    by (simp add: getLink_def)
  moreover have "cstep \<lparr>table = st, threads = [TDeleteItem k]\<rparr>
      \<lparr>table = deleteLink k st, threads = [TDone (Json 200 BSuccess)]\<rparr>"
    using cstep.delete_item [of 0 "\<lparr>table = st, threads = [TDeleteItem k]\<rparr>" k] by simp
  ultimately show ?thesis using Some by (simp add: link_handler_def getLink_def)
qed

lemma solo_get_link:
  "cstep\<^sup>*\<^sup>* \<lparr>table = st, threads = [TGetLink k]\<rparr>
     \<lparr>table = snd (link_handler GET k st), threads = [TDone (fst (link_handler GET k st))]\<rparr>"
proof -
  have "snd (link_handler GET k st) = st"
    by (simp add: link_handler_def split: option.splits)
  moreover have "cstep \<lparr>table = st, threads = [TGetLink k]\<rparr>
       \<lparr>table = st, threads = [TDone (fst (link_handler GET k st))]\<rparr>"
    using cstep.get_link [of 0 "\<lparr>table = st, threads = [TGetLink k]\<rparr>" k] by simp
  ultimately show ?thesis by simp
qed

lemma solo_list:
  "cstep\<^sup>*\<^sup>* \<lparr>table = st, threads = [TList env]\<rparr>
     \<lparr>table = st, threads = [TDone (Json 200 (BLinks (listLinks env st)))]\<rparr>"
  using cstep.list [of 0 "\<lparr>table = st, threads = [TList env]\<rparr>" env] by simp

lemma solo_post:
  "cstep\<^sup>*\<^sup>* \<lparr>table = st, threads = [post_thread now rnd b]\<rparr>
     \<lparr>table = snd (post_links now rnd b st), threads = [TDone (fst (post_links now rnd b st))]\<rparr>"
  using post_thread_cases [of now rnd b st]
proof
  assume "\<exists>r. post_thread now rnd b = TDone r \<and> post_links now rnd b st = (r, st)"
  then show ?thesis by auto
next
  assume "\<exists>t c u v. post_thread now rnd b = TCreate t c u v \<and>
       post_links now rnd b st = create_response c v (createLink t c u st) st"
  then obtain t c u v where th: "post_thread now rnd b = TCreate t c u v"
    and p: "post_links now rnd b st = create_response c v (createLink t c u st) st" by blast
  obtain r st' where rs: "create_response c v (createLink t c u st) st = (r, st')" by fastforce
  have "cstep \<lparr>table = st, threads = [TCreate t c u v]\<rparr> \<lparr>table = st', threads = [TDone r]\<rparr>"
    using cstep.create [of 0 "\<lparr>table = st, threads = [TCreate t c u v]\<rparr>" t c u v r st'] rs by simp
  then show ?thesis using th p rs by simp
qed

lemma redirect_of_nth:
  "clicks_inv k n s \<Longrightarrow> i < length (threads s) \<Longrightarrow> redirect_of k (threads s ! i)"
  by (simp add: clicks_inv_def list_all_length)

lemma clicks_inv_step:
  assumes "cstep s s'" and "clicks_inv k n s"
  shows "clicks_inv k n s'"
  using assms
proof (induction rule: cstep.induct)
  case (redirect_found i s t k' l)
  then have "k' = k" using redirect_of_nth [of k n s i] by simp
  with redirect_found show ?case
    using sum_list_map_update [of i "threads s" owed "TIncrement t k' (location_response l)"]
    by (auto simp: clicks_inv_def)
next
  case (redirect_missing i s t k')
  then have "k' = k" using redirect_of_nth [of k n s i] by simp
  with redirect_missing show ?case by (auto simp: clicks_inv_def getLink_def)
next
  case (increment i s t k' r)
  then have "k' = k" using redirect_of_nth [of k n s i] by simp
  with increment show ?case
    using sum_list_map_update [of i "threads s" owed "TDone r"]
    by (auto simp: clicks_inv_def)
qed (use redirect_of_nth in fastforce)+

lemma clicks_inv_run: "cstep\<^sup>*\<^sup>* s s' \<Longrightarrow> clicks_inv k n s \<Longrightarrow> clicks_inv k n s'"
  by (induction rule: rtranclp_induct) (auto intro: clicks_inv_step)

lemma sum_owed_done: "list_all (\<lambda>th. work th = 0) ts \<Longrightarrow> sum_list (map owed ts) = 0"
proof (induction ts)
  case (Cons th ts)
  then show ?case by (cases th) auto
qed simp

lemma create_of_nth:
  "create_inv k s \<Longrightarrow> i < length (threads s) \<Longrightarrow> create_of k (threads s ! i)"
  by (simp add: create_inv_def list_all_length)

lemma create_inv_step:
  assumes "cstep s s'" and "create_inv k s" and "k \<noteq> []"
  shows "create_inv k s'"
  using assms
proof (induction rule: cstep.induct)
  case (create i s t c u v r st')
  then have c: "c = JStr k" using create_of_nth [of k s i] by simp
  have upd: "sum_list (map (wins k) ((threads s)[i := TDone r])) =
      sum_list (map (wins k) (threads s)) + wins k (TDone r)"
    using sum_list_map_update [of i "threads s" "wins k" "TDone r"] create.hyps(1,2)
    by (simp add: wins_def)
  show ?case
  proof (cases "table s k")
    case None
    then have "r = Json 201 (BCreated c v)" and "st' = (table s)(k \<mapsto> new_item k u t)"
      using create.hyps(3) c \<open>k \<noteq> []\<close> by (simp_all add: createLink_fresh create_response_def)
    then show ?thesis using create.prems(1) None upd c
      by (auto simp: create_inv_def wins_def)
  next
    case (Some l)
    then have "r = Json 409 (BError ''Code exists'')" and "st' = table s"
      using create.hyps(3) c \<open>k \<noteq> []\<close> by (simp_all add: createLink_exists create_response_def)
    then show ?thesis using create.prems(1) Some upd
      by (auto simp: create_inv_def wins_def)
  qed
qed (use create_of_nth in fastforce)+

lemma create_inv_run: "cstep\<^sup>*\<^sup>* s s' \<Longrightarrow> create_inv k s \<Longrightarrow> k \<noteq> [] \<Longrightarrow> create_inv k s'"
  by (induction rule: rtranclp_induct) (auto intro: create_inv_step)

lemma ghost_item_simps:
  "ghost_item t k = \<lparr>code = k, url = None, clicks = 1, createdAt = None, lastClickedAt = Some t\<rparr>"
  by (simp add: ghost_item_def clicked_item_def)

subsection \<open>Concurrent redirects lose no click\<close>

text \<open>
  C9. Any number of concurrent redirects of an existing code, interleaved in any order
  with one another, each add exactly one click once all have finished: \<open>ADD clicks :inc\<close>
  is applied atomically by the table, so no update is lost.
\<close>

theorem redirects_lose_no_click:
  assumes "st k = Some l"
    and "cstep\<^sup>*\<^sup>* \<lparr>table = st, threads = map (\<lambda>t. TRedirect t k) ts\<rparr> s"
    and "list_all (\<lambda>th. work th = 0) (threads s)"
  shows "\<exists>l'. table s k = Some l' \<and> clicks l' = clicks l + length ts"
proof -
  have "sum_list (map owed (map (\<lambda>t. TRedirect t k) ts)) = length ts"
    by (induction ts) auto
  then have "clicks_inv k (clicks l + length ts) \<lparr>table = st, threads = map (\<lambda>t. TRedirect t k) ts\<rparr>"
    using assms(1) by (simp add: clicks_inv_def list_all_iff)
  then have "clicks_inv k (clicks l + length ts) s" by (rule clicks_inv_run [OF assms(2)])
  then show ?thesis using sum_owed_done [OF assms(3)] by (auto simp: clicks_inv_def)
qed

text \<open>Two redirects that both read the item before either update lands.\<close>

theorem redirects_lose_no_click_witness:
  "\<exists>l'. (incrementClick 5 ''abc123'' (incrementClick 6 ''abc123''
              [''abc123'' \<mapsto> new_item ''abc123'' (JStr ''https://example.com'') 1])) ''abc123'' = Some l' \<and>
        clicks l' = 2"
proof -
  let ?k = "''abc123''" and ?l = "new_item ''abc123'' (JStr ''https://example.com'') 1"
  let ?r = "location_response ?l"
  let ?s0 = "\<lparr>table = [?k \<mapsto> ?l], threads = map (\<lambda>t. TRedirect t ?k) [5, 6]\<rparr>"
  let ?s1 = "\<lparr>table = [?k \<mapsto> ?l], threads = [TIncrement 5 ?k ?r, TRedirect 6 ?k]\<rparr>"
  let ?s2 = "\<lparr>table = [?k \<mapsto> ?l], threads = [TIncrement 5 ?k ?r, TIncrement 6 ?k ?r]\<rparr>"
  let ?s3 = "\<lparr>table = incrementClick 6 ?k [?k \<mapsto> ?l], threads = [TIncrement 5 ?k ?r, TDone ?r]\<rparr>"
  let ?s4 = "\<lparr>table = incrementClick 5 ?k (incrementClick 6 ?k [?k \<mapsto> ?l]), threads = [TDone ?r, TDone ?r]\<rparr>"
  have "cstep ?s0 ?s1" using cstep.redirect_found [of 0 ?s0 5 ?k ?l] by (simp add: getLink_def)
  moreover have "cstep ?s1 ?s2" using cstep.redirect_found [of 1 ?s1 6 ?k ?l] by (simp add: getLink_def)
  moreover have "cstep ?s2 ?s3" using cstep.increment [of 1 ?s2 6 ?k ?r] by simp
  moreover have "cstep ?s3 ?s4" using cstep.increment [of 0 ?s3 5 ?k ?r] by simp
  ultimately have run: "cstep\<^sup>*\<^sup>* ?s0 ?s4"
    by (meson rtranclp.rtrancl_into_rtrancl rtranclp.rtrancl_refl)
  have "\<exists>l'. table ?s4 ?k = Some l' \<and> clicks l' = clicks ?l + length [5::nat, 6]"
    using redirects_lose_no_click [of "[?k \<mapsto> ?l]" ?k ?l "[5, 6]" ?s4] run by simp
  then show ?thesis by (simp add: new_item_def)
qed

subsection \<open>Concurrent creates of one code\<close>

text \<open>
  C10. Among any number of concurrent POSTs that create the same fresh code, interleaved
  in any order, at most one is answered 201 and every other finished one 409; once all
  have finished, exactly one was answered 201: the conditional put admits one winner.
\<close>

theorem concurrent_creates_one_winner:
  assumes "k \<noteq> []" and "st k = None"
    and "cstep\<^sup>*\<^sup>* \<lparr>table = st, threads = map (\<lambda>(t, u, v). TCreate t (JStr k) u v) reqs\<rparr> s"
  shows "list_all (create_of k) (threads s) \<and> sum_list (map (wins k) (threads s)) \<le> 1 \<and>
         (reqs \<noteq> [] \<and> list_all (\<lambda>th. work th = 0) (threads s) \<longrightarrow>
            sum_list (map (wins k) (threads s)) = 1)"
proof -
  have "sum_list (map (wins k) (map (\<lambda>(t, u, v). TCreate t (JStr k) u v) reqs)) = 0"
    by (induction reqs) (auto simp: wins_def)
  then have "create_inv k \<lparr>table = st, threads = map (\<lambda>(t, u, v). TCreate t (JStr k) u v) reqs\<rparr>"
    using assms(2) by (auto simp: create_inv_def list_all_iff)
  then have i: "create_inv k s" using create_inv_run [OF assms(3) _ assms(1)] by blast
  have "length (threads s) = length reqs"
    using cstep_run_length [OF assms(3)] by simp
  moreover have "sum_list (map (wins k) (threads s)) = (if table s k = None then 0 else 1)"
    using i by (simp add: create_inv_def)
  moreover have "table s k = None \<Longrightarrow> threads s = [] \<or> \<not> list_all (\<lambda>th. work th = 0) (threads s)"
    using i by (cases "threads s") (auto simp: create_inv_def)
  ultimately show ?thesis using i by (auto simp: create_inv_def split: if_splits)
qed

theorem concurrent_creates_one_winner_witness:
  "sum_list (map (wins ''abc123'')
     [TDone (Json 201 (BCreated (JStr ''abc123'') (JStr ''https://a.io''))),
      TDone (Json 409 (BError ''Code exists''))]) = 1"
proof -
  let ?k = "''abc123''"
  let ?reqs = "[(1::nat, JStr ''https://a.io'', JStr ''https://a.io''), (2, JStr ''https://b.io'', JStr ''https://b.io'')]"
  let ?s0 = "\<lparr>table = Map.empty, threads = map (\<lambda>(t, u, v). TCreate t (JStr ?k) u v) ?reqs\<rparr>"
  let ?st1 = "[?k \<mapsto> new_item ?k (JStr ''https://a.io'') 1]"
  let ?s1 = "\<lparr>table = ?st1, threads = [TDone (Json 201 (BCreated (JStr ?k) (JStr ''https://a.io''))),
                                     TCreate 2 (JStr ?k) (JStr ''https://b.io'') (JStr ''https://b.io'')]\<rparr>"
  let ?s2 = "\<lparr>table = ?st1, threads = [TDone (Json 201 (BCreated (JStr ?k) (JStr ''https://a.io''))),
                                     TDone (Json 409 (BError ''Code exists''))]\<rparr>"
  have "cstep ?s0 ?s1"
    using cstep.create [of 0 ?s0 1 "JStr ?k" "JStr ''https://a.io''" "JStr ''https://a.io''"]
    by (simp add: createLink_def create_response_def)
  moreover have "cstep ?s1 ?s2"
    using cstep.create [of 1 ?s1 2 "JStr ?k" "JStr ''https://b.io''" "JStr ''https://b.io''"]
    by (simp add: createLink_def create_response_def)
  ultimately have run: "cstep\<^sup>*\<^sup>* ?s0 ?s2"
    by (meson rtranclp.rtrancl_into_rtrancl rtranclp.rtrancl_refl)
  show ?thesis
    using concurrent_creates_one_winner [of ?k Map.empty ?reqs ?s2] run by simp
qed

subsection \<open>Interleavings the handlers do not guard against\<close>

text \<open>
  C11. A redirect and a DELETE of the same code can interleave so that the redirect reads
  the item, the DELETE removes it, and the redirect's \<open>UpdateItem\<close> then lands: both
  requests succeed, and the deleted code comes back as an item with no url and no
  creation time, which breaks the table invariant \<open>store_ok\<close>.
\<close>

theorem redirect_delete_race_ghost:
  assumes "st k = Some l"
  shows "cstep\<^sup>*\<^sup>* \<lparr>table = st, threads = [TRedirect t k, TDelete k]\<rparr>
           \<lparr>table = st(k \<mapsto> ghost_item t k),
            threads = [TDone (location_response l), TDone (Json 200 BSuccess)]\<rparr> \<and>
         \<not> store_ok (st(k \<mapsto> ghost_item t k))"
proof
  let ?s0 = "\<lparr>table = st, threads = [TRedirect t k, TDelete k]\<rparr>"
  let ?s1 = "\<lparr>table = st, threads = [TIncrement t k (location_response l), TDelete k]\<rparr>"
  let ?s2 = "\<lparr>table = st, threads = [TIncrement t k (location_response l), TDeleteItem k]\<rparr>"
  let ?s3 = "\<lparr>table = deleteLink k st,
              threads = [TIncrement t k (location_response l), TDone (Json 200 BSuccess)]\<rparr>"
  have "cstep ?s0 ?s1"
    using cstep.redirect_found [of 0 ?s0 t k l] assms by (simp add: getLink_def)
  moreover have "cstep ?s1 ?s2"
    using cstep.delete_found [of 1 ?s1 k] assms by (simp add: getLink_def)
  moreover have "cstep ?s2 ?s3"
    using cstep.delete_item [of 1 ?s2 k] by simp
  moreover have "cstep ?s3 \<lparr>table = st(k \<mapsto> ghost_item t k),
                   threads = [TDone (location_response l), TDone (Json 200 BSuccess)]\<rparr>"
    using cstep.increment [of 0 ?s3 t k "location_response l"]
    by (simp add: incrementClick_def deleteLink_def ghost_item_def)
  ultimately show "cstep\<^sup>*\<^sup>* ?s0 \<lparr>table = st(k \<mapsto> ghost_item t k),
                   threads = [TDone (location_response l), TDone (Json 200 BSuccess)]\<rparr>"
    by (meson rtranclp.rtrancl_into_rtrancl rtranclp.rtrancl_refl)
next
  show "\<not> store_ok (st(k \<mapsto> ghost_item t k))"
  proof
    assume "store_ok (st(k \<mapsto> ghost_item t k))"
    then have "item_ok k (ghost_item t k)" unfolding store_ok_def by simp
    then show False by (simp add: item_ok_def ghost_item_simps)
  qed
qed

theorem redirect_delete_race_ghost_witness:
  "cstep\<^sup>*\<^sup>* \<lparr>table = [''abc123'' \<mapsto> new_item ''abc123'' (JStr ''https://example.com'') 1],
            threads = [TRedirect 5 ''abc123'', TDelete ''abc123'']\<rparr>
     \<lparr>table = [''abc123'' \<mapsto> \<lparr>code = ''abc123'', url = None, clicks = 1, createdAt = None, lastClickedAt = Some 5\<rparr>],
      threads = [TDone (Redirect302 (JStr ''https://example.com'')), TDone (Json 200 BSuccess)]\<rparr>"
proof -
  have "location_response (new_item ''abc123'' (JStr ''https://example.com'') 1) = Redirect302 (JStr ''https://example.com'')"
    by (simp add: location_response_def location_ok_def new_item_def header_value_ok_def)
  then show ?thesis
    using redirect_delete_race_ghost [of "[''abc123'' \<mapsto> new_item ''abc123'' (JStr ''https://example.com'') 1]"
        "''abc123''" "new_item ''abc123'' (JStr ''https://example.com'') 1" 5]
    by (simp add: ghost_item_simps)
qed

text \<open>
  C12. Two DELETEs of the same code can both read the item before either deletes it:
  both are answered 200, although only one of them removed a link.
\<close>

theorem concurrent_deletes_both_succeed:
  assumes "st k = Some l"
  shows "cstep\<^sup>*\<^sup>* \<lparr>table = st, threads = [TDelete k, TDelete k]\<rparr>
           \<lparr>table = st(k := None), threads = [TDone (Json 200 BSuccess), TDone (Json 200 BSuccess)]\<rparr>"
proof -
  let ?s0 = "\<lparr>table = st, threads = [TDelete k, TDelete k]\<rparr>"
  let ?s1 = "\<lparr>table = st, threads = [TDeleteItem k, TDelete k]\<rparr>"
  let ?s2 = "\<lparr>table = st, threads = [TDeleteItem k, TDeleteItem k]\<rparr>"
  let ?s3 = "\<lparr>table = st(k := None), threads = [TDone (Json 200 BSuccess), TDeleteItem k]\<rparr>"
  have "cstep ?s0 ?s1"
    using cstep.delete_found [of 0 ?s0 k] assms by (simp add: getLink_def)
  moreover have "cstep ?s1 ?s2"
    using cstep.delete_found [of 1 ?s1 k] assms by (simp add: getLink_def)
  moreover have "cstep ?s2 ?s3"
    using cstep.delete_item [of 0 ?s2 k] by (simp add: deleteLink_def)
  moreover have "cstep ?s3 \<lparr>table = st(k := None),
                   threads = [TDone (Json 200 BSuccess), TDone (Json 200 BSuccess)]\<rparr>"
    using cstep.delete_item [of 1 ?s3 k] by (simp add: deleteLink_def)
  ultimately show ?thesis
    by (meson rtranclp.rtrancl_into_rtrancl rtranclp.rtrancl_refl)
qed

theorem concurrent_deletes_both_succeed_witness:
  "cstep\<^sup>*\<^sup>* \<lparr>table = [''abc123'' \<mapsto> new_item ''abc123'' (JStr ''https://example.com'') 1],
            threads = [TDelete ''abc123'', TDelete ''abc123'']\<rparr>
     \<lparr>table = Map.empty, threads = [TDone (Json 200 BSuccess), TDone (Json 200 BSuccess)]\<rparr>"
  using concurrent_deletes_both_succeed [of "[''abc123'' \<mapsto> new_item ''abc123'' (JStr ''https://example.com'') 1]"
      "''abc123''" "new_item ''abc123'' (JStr ''https://example.com'') 1"]
  by simp




subsection \<open>The sequential server is the solo run of the concurrent one\<close>

text \<open>
  A request served alone, with no other request interleaved, runs to completion and
  ends with exactly the response and the table of the sequential handler \<open>api_step\<close>:
  the concurrent model refines the sequential one on every route.
\<close>

theorem solo_run_refines:
  "cstep\<^sup>*\<^sup>* \<lparr>table = st, threads = [start_thread now rnd env rq]\<rparr>
     \<lparr>table = snd (api_step now rnd env rq st), threads = [TDone (fst (api_step now rnd env rq st))]\<rparr>"
proof (cases rq)
  case (LinksRequest m b)
  then show ?thesis using solo_post solo_list
    by (cases m) (simp_all add: start_thread_def api_step_def links_handler_def)
next
  case (LinkRequest m k)
  then show ?thesis using solo_delete solo_get_link
    by (cases m) (simp_all add: start_thread_def api_step_def link_handler_def)
next
  case (RedirectRequest k)
  then show ?thesis using solo_redirect by (simp add: start_thread_def api_step_def)
qed

theorem solo_run_refines_witness:
  "cstep\<^sup>*\<^sup>* \<lparr>table = Map.empty, threads = [start_thread 5 (sconst 0) \<lparr>scan_keys = [], page_items = 0\<rparr> (LinkRequest GET ''abc123'')]\<rparr>
     \<lparr>table = Map.empty, threads = [TDone (Json 404 (BError ''Not found''))]\<rparr>"
  using solo_run_refines [of Map.empty 5 "sconst 0" "\<lparr>scan_keys = [], page_items = 0\<rparr>" "LinkRequest GET ''abc123''"]
  by (simp add: api_step_def link_handler_def getLink_def)

subsection \<open>Termination and progress\<close>

text \<open>
  Every step of the system strictly lowers the number of store requests still to be
  issued, so every run is finite: every handler terminates under any interleaving.
\<close>

theorem cstep_work_decreases:
  assumes "cstep s s'"
  shows "total_work s' < total_work s"
  using assms
  by (induction rule: cstep.induct) (simp_all add: total_work_def sum_list_update_less)

theorem cstep_work_decreases_witness:
  "total_work \<lparr>table = Map.empty, threads = [TDone (Json 200 (BLinks []))]\<rparr>
     < total_work \<lparr>table = Map.empty, threads = [TList \<lparr>scan_keys = [], page_items = 0\<rparr>]\<rparr>"
proof -
  have "cstep \<lparr>table = Map.empty, threads = [TList \<lparr>scan_keys = [], page_items = 0\<rparr>]\<rparr>
              \<lparr>table = Map.empty, threads = [TDone (Json 200 (BLinks []))]\<rparr>"
    using cstep.list [of 0 "\<lparr>table = Map.empty, threads = [TList \<lparr>scan_keys = [], page_items = 0\<rparr>]\<rparr>"
        "\<lparr>scan_keys = [], page_items = 0\<rparr>"]
    by (simp add: listLinks_def)
  then show ?thesis by (rule cstep_work_decreases)
qed

text \<open>
  A thread that still has a store request to issue can always take a step, whatever
  the table holds: no handler blocks, so every request is eventually answered.
\<close>

theorem cstep_progress:
  assumes "i < length (threads s)" and "work (threads s ! i) \<noteq> 0"
  shows "\<exists>s'. cstep s s'"
proof (cases "threads s ! i")
  case (TRedirect t k)
  then show ?thesis using assms
    by (cases "getLink k (table s)") (blast intro: cstep.redirect_found cstep.redirect_missing)+
next
  case (TIncrement t k r)
  then show ?thesis using assms by (blast intro: cstep.increment)
next
  case (TDelete k)
  then show ?thesis using assms
    by (cases "getLink k (table s)") (blast intro: cstep.delete_found cstep.delete_missing)+
next
  case (TDeleteItem k)
  then show ?thesis using assms by (blast intro: cstep.delete_item)
next
  case (TGetLink k)
  then show ?thesis using assms by (blast intro: cstep.get_link)
next
  case (TList env)
  then show ?thesis using assms by (blast intro: cstep.list)
next
  case (TCreate t c u v)
  then show ?thesis using assms
    by (cases "create_response c v (createLink t c u (table s)) (table s)") (blast intro: cstep.create)
next
  case (TDone r)
  then show ?thesis using assms by simp
qed

theorem cstep_progress_witness:
  "\<exists>s'. cstep \<lparr>table = Map.empty, threads = [TDone NotFoundPage, TRedirect 5 ''abc123'']\<rparr> s'"
  using cstep_progress [of 1 "\<lparr>table = Map.empty, threads = [TDone NotFoundPage, TRedirect 5 ''abc123'']\<rparr>"]
  by simp

end
