(* ===== verification/Client.thy ===== *)
theory Client
  imports Api "HOL-Library.Char_ord" "HOL-Library.List_Lexorder" "HOL-Library.Sublist"
begin

text \<open>
  What the two browser pages \<open>src/pages/index.js\<close> (the dashboard) and
  \<open>src/pages/code/[code].js\<close> (the stats page) share: the row a page keeps for a
  link after normalising the JSON it fetched, the way \<open>fetch\<close> presents a response of
  the server of \<open>Api.thy\<close> (\<open>res.status\<close>, \<open>res.ok\<close>, \<open>res.json()\<close>), and the
  JavaScript string operations the pages apply (\<open>trim\<close>, \<open>toLowerCase\<close>,
  \<open>includes\<close>, \<open>join\<close>, string \<open><\<close>). A HOL \<open>char\<close> stands for one UTF-16 code unit
  below 256, so the operations are those of ECMA-262 on such code units.
\<close>

subsection \<open>Rows\<close>

text \<open>The object \<open>fetchLinks\<close> and \<open>fetchLink\<close> build from an item. \<open>url: l.url\<close>
  keeps the JSON value the server stored (a string, or an array the POST accepted); it is
  absent from an item that \<open>UpdateItem\<close> created (\<open>Store.incrementClick_upsert\<close>).\<close>

record row =
  row_code :: string
  row_url :: "jval option"
  row_clicks :: nat
  row_lastClickedAt :: "timestamp option"
  row_createdAt :: "timestamp option"

text \<open>\<open>clicks\<close> is a number in every item (\<open>unmarshall\<close> of \<open>N\<close>), so
  \<open>typeof l.clicks === "number" ? l.clicks : ...\<close> keeps it; \<open>x || null\<close> keeps a
  present timestamp and maps an absent one to \<open>null\<close>.\<close>

definition normalized_row :: "link \<Rightarrow> row" where
  "normalized_row l =
     \<lparr>row_code = code l, row_url = url l, row_clicks = clicks l,
      row_lastClickedAt = lastClickedAt l, row_createdAt = createdAt l\<rparr>"

subsection \<open>Responses as \<open>fetch\<close> presents them\<close>

text \<open>A request either fails at the network level (\<open>None\<close>: \<open>fetch\<close> rejects) or
  yields one of the server's responses.\<close>

type_synonym fetched = "response option"

primrec resp_status :: "response \<Rightarrow> nat" where
  "resp_status (Json n b) = n"
| "resp_status (EndStatus n) = n"
| "resp_status (Redirect302 u) = 302"
| "resp_status NotFoundPage = 404"
| "resp_status InternalError = 500"

definition resp_ok :: "response \<Rightarrow> bool" where
  "resp_ok r = (200 \<le> resp_status r \<and> resp_status r \<le> 299)"

text \<open>\<open>res.json()\<close>: the body of a JSON response; an empty body or an HTML page does not
  parse and the promise rejects (\<open>None\<close>).\<close>

primrec resp_json :: "response \<Rightarrow> resp_body option" where
  "resp_json (Json n b) = Some b"
| "resp_json (EndStatus n) = None"
| "resp_json (Redirect302 u) = None"
| "resp_json NotFoundPage = None"
| "resp_json InternalError = None"

text \<open>\<open>(await res.json().catch(() => ({}))).error || dflt\<close>.\<close>

definition err_field :: "response \<Rightarrow> string \<Rightarrow> string" where
  "err_field r dflt =
     (case resp_json r of Some (BError e) \<Rightarrow> if e \<noteq> [] then e else dflt | _ \<Rightarrow> dflt)"

text \<open>\<open>QRCode.toDataURL(t, opts)\<close> resolves to the PNG data URL of the QR code of
  \<open>t\<close> (with fixed options); the model keeps the encoded text, which determines it.\<close>

datatype qr_image = QrImage string

subsection \<open>JavaScript strings\<close>

text \<open>\<open>WhiteSpace\<close> and \<open>LineTerminator\<close> among the code units below 256: tab, line
  feed, vertical tab, form feed, carriage return, space and no-break space.\<close>

definition js_space :: "char \<Rightarrow> bool" where
  "js_space c = (of_char c \<in> {9, 10, 11, 12, 13, 32, (160::nat)})"

text \<open>\<open>String.prototype.trim\<close>.\<close>

definition js_trim :: "string \<Rightarrow> string" where
  "js_trim s = rev (dropWhile js_space (rev (dropWhile js_space s)))"

text \<open>\<open>String.prototype.toLowerCase\<close> on code units below 256: \<open>A\<close>-\<open>Z\<close> and the
  Latin-1 capitals \<open>0xC0\<close>-\<open>0xDE\<close> other than the multiplication sign \<open>0xD7\<close>
  move up by 32.\<close>

definition lower_unit :: "char \<Rightarrow> char" where
  "lower_unit c =
     (let n = of_char c :: nat in
      if (65 \<le> n \<and> n \<le> 90) \<or> (192 \<le> n \<and> n \<le> 222 \<and> n \<noteq> 215) then char_of (n + 32) else c)"

definition js_lower :: "string \<Rightarrow> string" where
  "js_lower s = map lower_unit s"

text \<open>\<open>s.includes(q)\<close>: \<open>q\<close> occurs in \<open>s\<close> at some position.\<close>

primrec js_includes :: "string \<Rightarrow> string \<Rightarrow> bool" where
  "js_includes [] q = (q = [])"
| "js_includes (c # cs) q = (take (length q) (c # cs) = q \<or> js_includes cs q)"

text \<open>\<open>a < b\<close> on two strings compares their code units lexicographically, a proper
  prefix being smaller: this is \<open>List_Lexorder\<close>'s order on \<open>char list\<close> over
  \<open>Char_ord\<close>'s order of code units.\<close>

definition js_str_less :: "string \<Rightarrow> string \<Rightarrow> bool" where
  "js_str_less a b = (a < b)"

subsection \<open>Lemmas\<close>

lemma take_length_eq_prefix: "take (length q) s = q \<longleftrightarrow> prefix q s"
proof
  assume "take (length q) s = q"
  then show "prefix q s" using append_take_drop_id [of "length q" s] by (metis prefix_def)
next
  assume "prefix q s"
  then show "take (length q) s = q" by (auto simp: prefix_def)
qed

lemma js_includes_iff_sublist: "js_includes s q \<longleftrightarrow> sublist q s"
  by (induction s) (auto simp: take_length_eq_prefix sublist_Cons_right)

lemma js_includes_Nil [simp]: "js_includes s []"
  by (cases s) simp_all

lemma dropWhile_none: "\<forall>c \<in> set s. \<not> P c \<Longrightarrow> dropWhile P s = s"
  by (induction s) simp_all

lemma js_space_not_alnum: "is_ascii_alnum c \<Longrightarrow> \<not> js_space c"
  by (simp add: js_space_def js_simps Let_def) linarith

lemma js_trim_alnum [simp]: "list_all is_ascii_alnum s \<Longrightarrow> js_trim s = s"
proof -
  assume "list_all is_ascii_alnum s"
  then have "\<forall>c \<in> set s. \<not> js_space c" by (auto simp: list_all_iff js_space_not_alnum)
  then show ?thesis by (simp add: js_trim_def dropWhile_none)
qed

end
