(* ===== verification/Dashboard.thy ===== *)
theory Dashboard
  imports Client "HOL-Library.Multiset"
begin

text \<open>
  The dashboard \<open>src/pages/index.js\<close>: the component state of \<open>Dashboard()\<close>, its
  form validation, the handlers that talk to the server (\<open>fetchLinks\<close>,
  \<open>handleAdd\<close>, \<open>handleDeleteConfirm\<close>), the local handlers (copy, sort, search,
  paging), and the values the render derives from the state (\<open>filtered\<close>,
  \<open>pageData\<close>, the statistics cards, the empty-table message). A handler that awaits
  a request is split at the \<open>await\<close> into the part before the request and the part
  that handles its outcome; composed with the server of \<open>Api.thy\<close> they give one
  round trip. The controls that call these handlers, the QR effect and the dialogs
  are modelled in \<open>DashEvents.thy\<close>.
\<close>

subsection \<open>State\<close>

datatype severity = Success | Error

datatype snack_msg = Snack severity string

datatype sort_key = SortCreatedAt | SortClicks | SortCode

datatype sort_dir = Asc | Desc

record dash =
  links :: "row list"
  loading :: bool
  dash_url :: string
  dash_code :: string
  formError :: string
  submitting :: bool
  search :: string
  debouncedSearch :: string
  orderBy :: sort_key
  orderDir :: sort_dir
  page :: nat
  rowsPerPage :: nat
  copyConfirm :: "string option"
  deleteTarget :: "string option"
  snack :: "snack_msg option"
  qrTarget :: "row option"
  qrDataUrl :: "qr_image option"
  qrLoading :: bool
  createDrawerOpen :: bool
  searchOpen :: bool
  qrRun :: nat

text \<open>\<open>qrRun\<close> is React's count of the runs of the QR effect after the one on mount:
  only the generation of the last run is not cancelled.\<close>

definition dash_init :: dash where
  "dash_init =
     \<lparr>links = [], loading = False, dash_url = [], dash_code = [], formError = [],
      submitting = False, search = [], debouncedSearch = [], orderBy = SortCreatedAt,
      orderDir = Desc, page = 0, rowsPerPage = 8, copyConfirm = None, deleteTarget = None,
      snack = None, qrTarget = None, qrDataUrl = None, qrLoading = False,
      createDrawerOpen = False, searchOpen = False, qrRun = 0\<rparr>"

subsection \<open>Form validation\<close>

text \<open>\<open>/^(https?:\/\/).+/i\<close>: the prefix \<open>http://\<close> or \<open>https://\<close> in any case,
  then one character that is not a line terminator (the pattern has no \<open>$\<close>). Under
  the \<open>i\<close> flag no code unit other than the two cases of a letter canonicalises to
  it, so the prefix is compared after \<open>ascii_lower\<close>.\<close>

definition url_regex_after :: "string \<Rightarrow> string \<Rightarrow> bool" where
  "url_regex_after p s =
     (length p < length s \<and> map ascii_lower (take (length p) s) = p \<and>
      s ! length p \<noteq> CHR 0x0A \<and> s ! length p \<noteq> CHR 0x0D)"

definition url_regex :: "string \<Rightarrow> bool" where
  "url_regex s = (url_regex_after ''http://'' s \<or> url_regex_after ''https://'' s)"

definition isUrlValid :: "dash \<Rightarrow> bool" where
  "isUrlValid d = url_regex (js_trim (dash_url d))"

definition isCodeValid :: "dash \<Rightarrow> bool" where
  "isCodeValid d = (dash_code d = [] \<or> code_regex (js_trim (dash_code d)))"

text \<open>The message of the effect on \<open>[url, code]\<close>; the en dash of the source is
  written as its UTF-8 bytes.\<close>

definition msg_code_format :: string where
  "msg_code_format = ''Code must be 6'' @ [CHR 0xE2, CHR 0x80, CHR 0x93] @ ''8 alphanumeric characters.''"

definition form_error_effect :: "dash \<Rightarrow> dash" where
  "form_error_effect d =
     (if dash_url d = [] then d\<lparr>formError := []\<rparr>
      else if \<not> isUrlValid d then d\<lparr>formError := ''URL must start with http:// or https://''\<rparr>
      else if dash_code d \<noteq> [] \<and> \<not> isCodeValid d then d\<lparr>formError := msg_code_format\<rparr>
      else d\<lparr>formError := []\<rparr>)"

subsection \<open>Loading the list\<close>

definition fetchLinks_start :: "dash \<Rightarrow> dash" where
  "fetchLinks_start d = d\<lparr>loading := True\<rparr>"

text \<open>The outcome of \<open>fetch("/api/links")\<close>: a 2xx answer whose body is the array
  replaces the rows; any other answer, a body that is not an array (\<open>.map\<close> throws)
  or a network failure keeps the rows and raises the error snack. \<open>finally\<close> clears
  \<open>loading\<close>.\<close>

definition fetchLinks_done :: "fetched \<Rightarrow> dash \<Rightarrow> dash" where
  "fetchLinks_done f d =
     (let failed = d\<lparr>snack := Some (Snack Error ''Failed to load links from backend'')\<rparr>;
          d' = (case f of
                  Some r \<Rightarrow>
                    if \<not> resp_ok r then failed
                    else (case resp_json r of
                            Some (BLinks ls) \<Rightarrow> d\<lparr>links := map normalized_row ls\<rparr>
                          | _ \<Rightarrow> failed)
                | None \<Rightarrow> failed)
      in d'\<lparr>loading := False\<rparr>)"

subsection \<open>Creating a link\<close>

text \<open>Up to the \<open>await fetch\<close>: the two guards, then the JSON payload; an empty
  trimmed code becomes \<open>undefined\<close>, which \<open>JSON.stringify\<close> drops.\<close>

definition add_start :: "dash \<Rightarrow> dash \<times> post_body option" where
  "add_start d =
     (if \<not> isUrlValid d then (d\<lparr>formError := ''Enter a valid URL (http/https).''\<rparr>, None)
      else if \<not> isCodeValid d then (d\<lparr>formError := ''Custom code invalid (6-8 alphanumeric).''\<rparr>, None)
      else
        (d\<lparr>submitting := True, formError := []\<rparr>,
         Some \<lparr>body_url = JStr (js_trim (dash_url d)),
               body_code = (let c = js_trim (dash_code d) in if c = [] then JUndefined else JStr c)\<rparr>))"

text \<open>After the answer: a 201 prepends the created row, with the client's clock
  \<open>cnow\<close> as \<open>createdAt\<close>, and clears the form; anything else sets the form error and
  asks for \<open>await fetchLinks()\<close> (the flag). The server's 201 body is
  \<open>{code, url}\<close> with the stored code, a string, which \<open>js_to_string\<close> leaves as it
  is, and the url as posted (\<open>Api.post_links\<close>), kept by \<open>url: created.url\<close>; a 201
  with another body does not occur.\<close>

definition add_finish :: "timestamp \<Rightarrow> fetched \<Rightarrow> dash \<Rightarrow> dash \<times> bool" where
  "add_finish cnow f d =
     (case f of
        Some r \<Rightarrow>
          (let failed = (d\<lparr>formError := err_field r ''Failed to create link (server)''\<rparr>, True)
           in if resp_status r = 201 then
                (case resp_json r of
                   Some (BCreated c u) \<Rightarrow>
                     (d\<lparr>links := \<lparr>row_code = js_to_string c, row_url = Some u,
                                   row_clicks = 0, row_lastClickedAt = None,
                                   row_createdAt = Some cnow\<rparr> # links d,
                        dash_url := [], dash_code := [], createDrawerOpen := False,
                        snack := Some (Snack Success (''Created '' @ js_to_string c))\<rparr>, False)
                 | _ \<Rightarrow> failed)
              else failed)
      | None \<Rightarrow> (d\<lparr>formError := ''Network error creating link''\<rparr>, True))"

subsection \<open>Deleting a link\<close>

text \<open>Up to the \<open>await fetch\<close>: take and clear \<open>deleteTarget\<close>; for a truthy code,
  keep the current rows as \<open>prev\<close> and remove the code's rows optimistically.\<close>

definition del_start :: "dash \<Rightarrow> dash \<times> (string \<times> row list) option" where
  "del_start d =
     (let d1 = d\<lparr>deleteTarget := None\<rparr> in
      case deleteTarget d of
        None \<Rightarrow> (d1, None)
      | Some c \<Rightarrow>
          if c = [] then (d1, None)
          else (d1\<lparr>links := filter (\<lambda>x. row_code x \<noteq> c) (links d1)\<rparr>, Some (c, links d)))"

text \<open>After the answer: a 2xx keeps the optimistic rows; anything else, and a network
  failure, puts \<open>prev\<close> back (\<open>setLinks(prev)\<close>, not a functional update).\<close>

definition del_finish :: "string \<Rightarrow> row list \<Rightarrow> fetched \<Rightarrow> dash \<Rightarrow> dash" where
  "del_finish c prev f d =
     (case f of
        Some r \<Rightarrow>
          if resp_ok r then d\<lparr>snack := Some (Snack Success (c @ '' deleted''))\<rparr>
          else d\<lparr>links := prev, snack := Some (Snack Error (err_field r ''Delete failed''))\<rparr>
      | None \<Rightarrow> d\<lparr>links := prev, snack := Some (Snack Error ''Network error deleting'')\<rparr>)"

subsection \<open>Round trips with the server\<close>

text \<open>The request the page sends reaches the route of \<open>Api.api_step\<close>; the server's
  clock \<open>now\<close>, random bytes \<open>rnd\<close> and scan environment \<open>env\<close> are the server's
  inputs, \<open>cnow\<close> the browser's clock. \<open>encodeURIComponent\<close> in the path is undone by
  the router, so the code arrives as sent. A GET carries no body.\<close>

definition no_body :: post_body where
  "no_body = \<lparr>body_url = JUndefined, body_code = JUndefined\<rparr>"

definition dash_fetch ::
  "timestamp \<Rightarrow> random_bytes \<Rightarrow> scan_env \<Rightarrow> dash \<Rightarrow> store \<Rightarrow> dash" where
  "dash_fetch now rnd env d st =
     fetchLinks_done (Some (fst (api_step now rnd env (LinksRequest GET no_body) st))) (fetchLinks_start d)"

definition dash_add ::
  "timestamp \<Rightarrow> timestamp \<Rightarrow> random_bytes \<Rightarrow> scan_env \<Rightarrow> dash \<Rightarrow> store \<Rightarrow> dash \<times> store" where
  "dash_add cnow now rnd env d st =
     (case add_start d of
        (d1, None) \<Rightarrow> (d1, st)
      | (d1, Some b) \<Rightarrow>
          (case api_step now rnd env (LinksRequest POST b) st of
             (r, st1) \<Rightarrow>
               (case add_finish cnow (Some r) d1 of
                  (d2, True) \<Rightarrow> ((dash_fetch now rnd env d2 st1)\<lparr>submitting := False\<rparr>, st1)
                | (d2, False) \<Rightarrow> (d2\<lparr>submitting := False\<rparr>, st1))))"

definition dash_delete ::
  "timestamp \<Rightarrow> random_bytes \<Rightarrow> scan_env \<Rightarrow> dash \<Rightarrow> store \<Rightarrow> dash \<times> store" where
  "dash_delete now rnd env d st =
     (case del_start d of
        (d1, None) \<Rightarrow> (d1, st)
      | (d1, Some (c, prev)) \<Rightarrow>
          (case api_step now rnd env (LinkRequest DELETE c) st of
             (r, st1) \<Rightarrow> (del_finish c prev (Some r) d1, st1)))"

subsection \<open>Local handlers\<close>

text \<open>\<open>handleCopy\<close>: the text written to the clipboard, and the outcome of
  \<open>writeText\<close>; the timer of 1600 ms clears the confirmation again.\<close>

definition copy_text :: "string \<Rightarrow> string \<Rightarrow> string \<Rightarrow> string" where
  "copy_text base origin c = (if base \<noteq> [] then base else origin) @ ''/'' @ c"

definition copy_done :: "bool \<Rightarrow> string \<Rightarrow> dash \<Rightarrow> dash" where
  "copy_done ok c d =
     (if ok then d\<lparr>copyConfirm := Some c, snack := Some (Snack Success ''Copied to clipboard'')\<rparr>
      else d\<lparr>snack := Some (Snack Error ''Copy failed'')\<rparr>)"

definition copy_timeout :: "dash \<Rightarrow> dash" where
  "copy_timeout d = d\<lparr>copyConfirm := None\<rparr>"

text \<open>The QR effect encodes this text; the dialog prints the one below it.\<close>

definition qr_text :: "string \<Rightarrow> string \<Rightarrow> row \<Rightarrow> string" where
  "qr_text base origin r = (if base \<noteq> [] then base @ ''/'' else origin @ ''/'') @ row_code r"

definition qr_caption :: "string \<Rightarrow> row \<Rightarrow> string" where
  "qr_caption origin r = (if origin \<noteq> [] then origin @ ''/'' @ row_code r else ''/'' @ row_code r)"

text \<open>\<open>handleRequestSort\<close>, the sort menu (\<open>"key:dir".split(":")\<close>), the search box,
  and the pagination controls.\<close>

definition handleRequestSort :: "sort_key \<Rightarrow> dash \<Rightarrow> dash" where
  "handleRequestSort p d =
     (let isAsc = (orderBy d = p \<and> orderDir d = Asc)
      in d\<lparr>orderDir := (if isAsc then Desc else Asc), orderBy := p\<rparr>)"

definition select_sort :: "sort_key \<Rightarrow> sort_dir \<Rightarrow> dash \<Rightarrow> dash" where
  "select_sort k dir d = d\<lparr>orderBy := k, orderDir := dir\<rparr>"

definition set_search :: "string \<Rightarrow> dash \<Rightarrow> dash" where
  "set_search v d = d\<lparr>search := v, page := 0\<rparr>"

definition set_page :: "nat \<Rightarrow> dash \<Rightarrow> dash" where
  "set_page p d = d\<lparr>page := p\<rparr>"

definition set_rows_per_page :: "nat \<Rightarrow> dash \<Rightarrow> dash" where
  "set_rows_per_page n d = d\<lparr>rowsPerPage := n, page := 0\<rparr>"

text \<open>The columns of the table head and the key each one sorts by.\<close>

datatype column = ColCode | ColClicks | ColLastClicked

primrec column_sort :: "column \<Rightarrow> sort_key" where
  "column_sort ColCode = SortCode"
| "column_sort ColClicks = SortClicks"
| "column_sort ColLastClicked = SortCreatedAt"

definition header_click :: "column \<Rightarrow> dash \<Rightarrow> dash" where
  "header_click col d = handleRequestSort (column_sort col) d"

subsection \<open>The derived view\<close>

text \<open>The search query and the row filter of \<open>filtered\<close>.\<close>

definition query :: "dash \<Rightarrow> string" where
  "query d = js_lower (js_trim (debouncedSearch d))"

text \<open>\<open>(l.url||"").toLowerCase()\<close>: a falsy url becomes \<open>""\<close>; a string is lowered;
  any other value has no \<open>toLowerCase\<close> method and the call throws a
  \<open>TypeError\<close> (\<open>None\<close>).\<close>

definition url_search_text :: "jval option \<Rightarrow> string option" where
  "url_search_text v =
     (case v of
        None \<Rightarrow> Some []
      | Some u \<Rightarrow> if \<not> js_truthy u then Some [] else (case u of JStr s \<Rightarrow> Some (js_lower s) | _ \<Rightarrow> None))"

text \<open>The callback of \<open>links.filter\<close>: true for an empty query, else the code is
  searched first and the url only when the code does not match (\<open>||\<close>); \<open>None\<close> when
  it throws.\<close>

definition row_match :: "string \<Rightarrow> row \<Rightarrow> bool option" where
  "row_match q r =
     (if q = [] then Some True
      else if js_includes (js_lower (row_code r)) q then Some True
      else map_option (\<lambda>u. js_includes u q) (url_search_text (row_url r)))"

definition row_matches :: "string \<Rightarrow> row \<Rightarrow> bool" where
  "row_matches q r = (row_match q r = Some True)"

text \<open>The filter throws when its callback throws for some row; the exception escapes
  \<open>useMemo\<close> during rendering, and React, with no error boundary above the page,
  unmounts it: the page shows nothing and handles no further event.\<close>

definition filter_throws :: "dash \<Rightarrow> bool" where
  "filter_throws d = list_ex (\<lambda>r. row_match (query d) r = None) (links d)"

text \<open>The sort key \<open>a[orderBy] ?? 0\<close>: for \<open>createdAt\<close> the time in milliseconds, 0
  for a missing one; the comparator answers \<open>-1\<close>, \<open>1\<close> or \<open>0\<close>.\<close>

definition created_ms :: "row \<Rightarrow> nat" where
  "created_ms r = (case row_createdAt r of None \<Rightarrow> 0 | Some t \<Rightarrow> t)"

primrec key_less :: "sort_key \<Rightarrow> row \<Rightarrow> row \<Rightarrow> bool" where
  "key_less SortCreatedAt a b = (created_ms a < created_ms b)"
| "key_less SortClicks a b = (row_clicks a < row_clicks b)"
| "key_less SortCode a b = js_str_less (row_code a) (row_code b)"

definition row_cmp :: "sort_key \<Rightarrow> sort_dir \<Rightarrow> row \<Rightarrow> row \<Rightarrow> int" where
  "row_cmp k dir a b =
     (if key_less k a b then (if dir = Asc then -1 else 1)
      else if key_less k b a then (if dir = Asc then 1 else -1)
      else 0)"

text \<open>\<open>Array.prototype.sort\<close> with a comparator is stable (ECMA-262 since 2019), so on a
  consistent comparator its result is the stable sort, computed here by insertion: each
  element goes before the first later element it is not greater than.\<close>

primrec insert_by :: "('a \<Rightarrow> 'a \<Rightarrow> int) \<Rightarrow> 'a \<Rightarrow> 'a list \<Rightarrow> 'a list" where
  "insert_by cmp x [] = [x]"
| "insert_by cmp x (y # ys) = (if cmp x y \<le> 0 then x # y # ys else y # insert_by cmp x ys)"

definition sort_by :: "('a \<Rightarrow> 'a \<Rightarrow> int) \<Rightarrow> 'a list \<Rightarrow> 'a list" where
  "sort_by cmp xs = foldr (insert_by cmp) xs []"

definition filtered :: "dash \<Rightarrow> row list" where
  "filtered d = sort_by (row_cmp (orderBy d) (orderDir d)) (filter (row_matches (query d)) (links d))"

definition totalRows :: "dash \<Rightarrow> nat" where
  "totalRows d = length (filtered d)"

text \<open>\<open>filtered.slice(page*rowsPerPage, page*rowsPerPage + rowsPerPage)\<close>.\<close>

definition pageData :: "dash \<Rightarrow> row list" where
  "pageData d = take (rowsPerPage d) (drop (page d * rowsPerPage d) (filtered d))"

definition totalClicks :: "dash \<Rightarrow> nat" where
  "totalClicks d = sum_list (map row_clicks (links d))"

text \<open>\<open>Math.round(x)\<close> is \<open>floor(x + 1/2)\<close>; for \<open>x = a/b\<close> with \<open>b > 0\<close> this is
  \<open>(2a + b) div 2b\<close>.\<close>

definition js_round_div :: "int \<Rightarrow> int \<Rightarrow> int" where
  "js_round_div a b = (2 * a + b) div (2 * b)"

definition avgClicks :: "dash \<Rightarrow> int" where
  "avgClicks d =
     (if 0 < length (links d) then js_round_div (int (totalClicks d)) (int (length (links d))) else 0)"

text \<open>The table shows "No links yet" when the page is empty, and the pagination bar
  when the filtered list is not.\<close>

definition shows_empty_message :: "dash \<Rightarrow> bool" where
  "shows_empty_message d = (pageData d = [])"

definition shows_pagination :: "dash \<Rightarrow> bool" where
  "shows_pagination d = (0 < totalRows d)"

subsection \<open>Agreement of the rows with the table\<close>

text \<open>A row agrees with the table when the table holds an item under its code with the
  same url, clicks and last click. The creation time is left out: the row
  \<open>handleAdd\<close> prepends carries the browser's clock, the item the server's.\<close>

definition row_agrees :: "store \<Rightarrow> row \<Rightarrow> bool" where
  "row_agrees st r =
     (case st (row_code r) of
        None \<Rightarrow> False
      | Some l \<Rightarrow> row_url r = url l \<and> row_clicks r = clicks l \<and> row_lastClickedAt r = lastClickedAt l)"

text \<open>The rows are the table's links, one per code, and the code awaiting deletion is
  one of them (\<open>setDeleteTarget(l.code)\<close> is called from a row).\<close>

definition dash_coherent :: "store \<Rightarrow> dash \<Rightarrow> bool" where
  "dash_coherent st d =
     (distinct (map row_code (links d)) \<and> set (map row_code (links d)) = dom st \<and>
      list_all (row_agrees st) (links d) \<and>
      (case deleteTarget d of None \<Rightarrow> True | Some c \<Rightarrow> c \<in> dom st))"

subsection \<open>Orders on comparators\<close>

text \<open>A comparator whose "not greater" relation \<open>cmp a b \<le> 0\<close> is total and
  transitive, and the elements it ranks equal to \<open>r\<close>.\<close>

definition cmp_preorder :: "('a \<Rightarrow> 'a \<Rightarrow> int) \<Rightarrow> bool" where
  "cmp_preorder cmp =
     ((\<forall>a b. cmp a b \<le> 0 \<or> cmp b a \<le> 0) \<and>
      (\<forall>a b c. cmp a b \<le> 0 \<longrightarrow> cmp b c \<le> 0 \<longrightarrow> cmp a c \<le> 0))"

definition cmp_equiv :: "('a \<Rightarrow> 'a \<Rightarrow> int) \<Rightarrow> 'a \<Rightarrow> 'a \<Rightarrow> bool" where
  "cmp_equiv cmp r x = (cmp x r \<le> 0 \<and> cmp r x \<le> 0)"

text \<open>A row of the examples below.\<close>

definition ex_row :: "string \<Rightarrow> nat \<Rightarrow> timestamp \<Rightarrow> timestamp \<Rightarrow> row" where
  "ex_row c n lc cr =
     \<lparr>row_code = c, row_url = Some (JStr (''https://example.com/'' @ c)), row_clicks = n,
      row_lastClickedAt = Some lc, row_createdAt = Some cr\<rparr>"

subsection \<open>Helper lemmas\<close>

lemma mset_insert_by [simp]: "mset (insert_by cmp x xs) = add_mset x (mset xs)"
  by (induction xs) auto

lemma mset_sort_by [simp]: "mset (sort_by cmp xs) = mset xs"
  by (induction xs) (simp_all add: sort_by_def)

lemma set_insert_by [simp]: "set (insert_by cmp x xs) = insert x (set xs)"
  using mset_insert_by [of cmp x xs] by (metis set_mset_add_mset_insert set_mset_mset)

lemma cmp_preorder_trans:
  "cmp_preorder cmp \<Longrightarrow> cmp a b \<le> 0 \<Longrightarrow> cmp b c \<le> 0 \<Longrightarrow> cmp a c \<le> 0"
  unfolding cmp_preorder_def by blast

lemma cmp_preorder_total: "cmp_preorder cmp \<Longrightarrow> \<not> cmp a b \<le> 0 \<Longrightarrow> cmp b a \<le> 0"
  unfolding cmp_preorder_def by blast

lemma sorted_insert_by:
  assumes p: "cmp_preorder cmp" and s: "sorted_wrt (\<lambda>a b. cmp a b \<le> 0) xs"
  shows "sorted_wrt (\<lambda>a b. cmp a b \<le> 0) (insert_by cmp x xs)"
  using s
proof (induction xs)
  case (Cons y ys)
  show ?case
  proof (cases "cmp x y \<le> 0")
    case True
    then have "\<forall>z \<in> set ys. cmp x z \<le> 0"
      using Cons.prems cmp_preorder_trans [OF p, of x y] by simp
    then show ?thesis using True Cons.prems by simp
  next
    case False
    then have "cmp y x \<le> 0" by (rule cmp_preorder_total [OF p])
    then show ?thesis using Cons False by simp
  qed
qed simp

lemma sorted_sort_by:
  "cmp_preorder cmp \<Longrightarrow> sorted_wrt (\<lambda>a b. cmp a b \<le> 0) (sort_by cmp xs)"
  by (induction xs) (simp_all add: sort_by_def sorted_insert_by)

lemma filter_insert_by:
  assumes p: "cmp_preorder cmp" and s: "sorted_wrt (\<lambda>a b. cmp a b \<le> 0) xs"
  shows "filter (cmp_equiv cmp r) (insert_by cmp x xs) =
         (if cmp_equiv cmp r x then x # filter (cmp_equiv cmp r) xs else filter (cmp_equiv cmp r) xs)"
  using s
proof (induction xs)
  case (Cons y ys)
  show ?case
  proof (cases "cmp x y \<le> 0")
    case True
    then show ?thesis by simp
  next
    case False
    have tr: "cmp x r \<le> 0 \<Longrightarrow> cmp r y \<le> 0 \<Longrightarrow> cmp x y \<le> 0"
      using cmp_preorder_trans [OF p] by blast
    have "\<not> (cmp_equiv cmp r x \<and> cmp_equiv cmp r y)"
      using False tr unfolding cmp_equiv_def by blast
    moreover have "sorted_wrt (\<lambda>a b. cmp a b \<le> 0) ys" using Cons.prems by simp
    ultimately show ?thesis using Cons.IH False by auto
  qed
qed simp

lemma filter_sort_by:
  "cmp_preorder cmp \<Longrightarrow> filter (cmp_equiv cmp r) (sort_by cmp xs) = filter (cmp_equiv cmp r) xs"
  by (induction xs) (simp_all add: sort_by_def filter_insert_by sorted_sort_by [unfolded sort_by_def])

lemma insert_by_insort_key:
  "(\<And>a b. cmp a b \<le> 0 \<longleftrightarrow> f a \<le> f b) \<Longrightarrow> insert_by cmp x xs = insort_key f x xs"
  by (induction xs) simp_all

lemma sort_by_sort_key:
  "(\<And>a b. cmp a b \<le> 0 \<longleftrightarrow> f a \<le> f b) \<Longrightarrow> sort_by cmp xs = sort_key f xs"
  by (induction xs) (simp_all add: sort_by_def insert_by_insort_key)

lemma key_less_asym: "key_less k a b \<Longrightarrow> \<not> key_less k b a"
  by (cases k) (simp_all add: js_str_less_def order.asym)

lemma key_less_trans_not:
  "\<not> key_less k a b \<Longrightarrow> \<not> key_less k b c \<Longrightarrow> \<not> key_less k a c"
  by (cases k) (simp_all add: js_str_less_def not_less)

lemma row_cmp_le:
  "row_cmp k dir a b \<le> 0 \<longleftrightarrow> (if dir = Asc then \<not> key_less k b a else \<not> key_less k a b)"
  using key_less_asym [of k a b] by (auto simp: row_cmp_def)

lemma row_cmp_preorder: "cmp_preorder (row_cmp k dir)"
  unfolding cmp_preorder_def row_cmp_le
proof (intro conjI allI impI)
  fix a b
  show "(if dir = Asc then \<not> key_less k b a else \<not> key_less k a b) \<or>
        (if dir = Asc then \<not> key_less k a b else \<not> key_less k b a)"
    using key_less_asym [of k a b] by auto
next
  fix a b c
  assume "if dir = Asc then \<not> key_less k b a else \<not> key_less k a b"
    and "if dir = Asc then \<not> key_less k c b else \<not> key_less k b c"
  then show "if dir = Asc then \<not> key_less k c a else \<not> key_less k a c"
    using key_less_trans_not [of k c b a] key_less_trans_not [of k a b c]
    by (cases "dir = Asc") simp_all
qed

lemma row_matches_spec:
  assumes "row_match q r \<noteq> None"
  shows "row_matches q r \<longleftrightarrow>
           q = [] \<or> js_includes (js_lower (row_code r)) q \<or>
           (\<exists>s. row_url r = Some (JStr s) \<and> js_includes (js_lower s) q)"
proof (cases "q = [] \<or> js_includes (js_lower (row_code r)) q")
  case True
  then show ?thesis by (auto simp: row_matches_def row_match_def)
next
  case False
  then have "js_includes [] q = False" by (cases q) simp_all
  with False assms show ?thesis
    by (auto simp: row_matches_def row_match_def url_search_text_def js_lower_def
             split: option.splits jval.splits if_splits)
qed

lemma set_filtered:
  "set (filtered d) = {r \<in> set (links d). row_matches (query d) r}"
proof -
  have "set (filtered d) = set_mset (mset (filtered d))" by simp
  also have "\<dots> = set (filter (row_matches (query d)) (links d))"
    by (simp only: filtered_def mset_sort_by set_mset_mset)
  finally show ?thesis by auto
qed

lemma sorted_filtered_clicks:
  assumes "orderBy d = SortClicks"
  shows "if orderDir d = Asc then sorted (map row_clicks (filtered d))
         else sorted (rev (map row_clicks (filtered d)))"
proof -
  have s: "sorted_wrt (\<lambda>a b. row_cmp SortClicks (orderDir d) a b \<le> 0) (filtered d)"
    using sorted_sort_by [OF row_cmp_preorder] assms by (simp add: filtered_def)
  show ?thesis
  proof (cases "orderDir d = Asc")
    case True
    then show ?thesis using s
      by (simp add: row_cmp_le sorted_map not_less)
  next
    case False
    then show ?thesis using s
      by (simp add: row_cmp_le sorted_wrt_rev sorted_wrt_map not_less rev_map [symmetric])
  qed
qed

lemma js_round_div_bounds:
  assumes "0 < b"
  shows "2 * a - b < 2 * b * js_round_div a b \<and> 2 * b * js_round_div a b \<le> 2 * a + b"
proof -
  let ?q = "(2 * a + b) div (2 * b)" and ?r = "(2 * a + b) mod (2 * b)"
  have e: "2 * b * ?q + ?r = 2 * a + b" by (rule mult_div_mod_eq)
  have "0 \<le> ?r" and "?r < 2 * b" using assms by simp_all
  then show ?thesis unfolding js_round_div_def using e by linarith
qed

lemma del_start_Some:
  assumes "del_start d = (d1, Some (c, prev))"
  shows "deleteTarget d = Some c \<and> c \<noteq> [] \<and> prev = links d \<and>
         d1 = d\<lparr>deleteTarget := None, links := filter (\<lambda>x. row_code x \<noteq> c) (links d)\<rparr>"
  using assms by (auto simp: del_start_def Let_def split: option.splits if_splits)

lemma add_start_Some:
  assumes "add_start d = (d1, Some b)"
  shows "isUrlValid d \<and> isCodeValid d \<and> d1 = d\<lparr>submitting := True, formError := []\<rparr> \<and>
         b = \<lparr>body_url = JStr (js_trim (dash_url d)),
              body_code = (if js_trim (dash_code d) = [] then JUndefined else JStr (js_trim (dash_code d)))\<rparr>"
  using assms by (auto simp: add_start_def Let_def split: if_splits)

lemma create_response_not_400: "fst (create_response c u r st) \<noteq> Json 400 e"
  by (simp add: create_response_def split: sum.splits store_error.splits)

lemma post_links_201:
  assumes "post_links now rnd b st = (Json 201 (BCreated c u), st1)"
  shows "\<exists>k. c = JStr k \<and> st k = None \<and> u = body_url b \<and>
             st1 = st(k \<mapsto> new_item k u now)"
  using assms
  by (auto simp: post_links_def create_response_def createLink_def Let_def
           split: if_splits sum.splits store_error.splits jval.splits)

lemma post_links_unchanged:
  assumes "\<forall>c u. fst (post_links now rnd b st) \<noteq> Json 201 (BCreated c u)"
  shows "snd (post_links now rnd b st) = st"
  using assms
  by (auto simp: post_links_def create_response_def Let_def split: sum.splits store_error.splits)

lemma dash_coherent_fields [simp]:
  "dash_coherent st (d\<lparr>formError := e\<rparr>) = dash_coherent st d"
  "dash_coherent st (d\<lparr>submitting := b\<rparr>) = dash_coherent st d"
  "dash_coherent st (d\<lparr>loading := b\<rparr>) = dash_coherent st d"
  "dash_coherent st (d\<lparr>snack := m\<rparr>) = dash_coherent st d"
  by (simp_all add: dash_coherent_def)

lemma complete_scan_codes:
  assumes "store_ok st" "scan_env_ok env st" "length (scan_keys env) \<le> page_items env"
  shows "map row_code (map normalized_row (listLinks env st)) = scan_keys env \<and>
         list_all (row_agrees st) (map normalized_row (listLinks env st))"
proof -
  have l: "listLinks env st = map (\<lambda>k. the (st k)) (scan_keys env)"
    using listLinks_eq [OF assms(2)] assms(3) by simp
  have dom: "\<forall>k \<in> set (scan_keys env). \<exists>l. st k = Some l \<and> code l = k"
    using assms(1,2) by (auto simp: scan_env_ok_def store_ok_def item_ok_def)
  then have "\<And>k. k \<in> set (scan_keys env) \<Longrightarrow> code (the (st k)) = k" by fastforce
  then have "map (\<lambda>k. code (the (st k))) (scan_keys env) = scan_keys env" by (rule map_idI)
  then show ?thesis using l dom
    by (auto simp: normalized_row_def row_agrees_def list_all_iff comp_def)
qed

lemma coherent_fetch:
  assumes "store_ok st" "scan_env_ok env st" "length (scan_keys env) \<le> page_items env"
    and "case deleteTarget d of None \<Rightarrow> True | Some c \<Rightarrow> c \<in> dom st"
  shows "dash_coherent st (dash_fetch now rnd env d st)"
  using complete_scan_codes [OF assms(1-3)] assms(2,4)
  by (simp add: dash_fetch_def fetchLinks_done_def fetchLinks_start_def api_step_def links_handler_def
                resp_ok_def dash_coherent_def scan_env_ok_def)

lemma dash_coherent_cong:
  "links d' = links d \<Longrightarrow> deleteTarget d' = deleteTarget d \<Longrightarrow> dash_coherent st d' = dash_coherent st d"
  by (simp add: dash_coherent_def)

lemma row_agrees_upd_other: "row_code r \<noteq> k \<Longrightarrow> row_agrees (st(k \<mapsto> l)) r = row_agrees st r"
  by (simp add: row_agrees_def)

lemma coherent_prepend:
  assumes c: "dash_coherent st d" and k: "st k = None"
    and r: "row_code r = k" "row_url r = url l" "row_clicks r = clicks l" "row_lastClickedAt r = lastClickedAt l"
    and d': "links d' = r # links d" "deleteTarget d' = deleteTarget d"
  shows "dash_coherent (st(k \<mapsto> l)) d'"
proof -
  have "k \<notin> set (map row_code (links d))" using c k by (auto simp: dash_coherent_def)
  then have "\<forall>x \<in> set (links d). row_code x \<noteq> k" by auto
  then have "list_all (row_agrees (st(k \<mapsto> l))) (links d)"
    using c by (simp add: dash_coherent_def list_all_iff row_agrees_upd_other)
  then show ?thesis using c k r d' \<open>k \<notin> set (map row_code (links d))\<close>
    by (auto simp: dash_coherent_def row_agrees_def split: option.splits)
qed

lemma add_finish_other:
  "(\<forall>c u. r \<noteq> Json 201 (BCreated c u)) \<Longrightarrow>
   add_finish cnow (Some r) d = (d\<lparr>formError := err_field r ''Failed to create link (server)''\<rparr>, True)"
proof (cases r)
  case (Json n b)
  then show "(\<forall>c u. r \<noteq> Json 201 (BCreated c u)) \<Longrightarrow> ?thesis"
    by (cases b) (auto simp: add_finish_def Let_def)
qed (simp_all add: add_finish_def Let_def)

lemma coherent_add:
  assumes c: "dash_coherent st d" and ok: "store_ok st" "scan_env_ok env st"
      "length (scan_keys env) \<le> page_items env"
  shows "dash_coherent (snd (dash_add cnow now rnd env d st)) (fst (dash_add cnow now rnd env d st))"
proof (cases "add_start d")
  case (Pair d1 ob)
  show ?thesis
  proof (cases ob)
    case None
    then have "dash_add cnow now rnd env d st = (d1, st)" using Pair by (simp add: dash_add_def)
    moreover have "dash_coherent st d1" using Pair None c by (auto simp: add_start_def split: if_splits)
    ultimately show ?thesis by simp
  next
    case (Some b)
    have d1: "d1 = d\<lparr>submitting := True, formError := []\<rparr>" using add_start_Some Pair Some by blast
    obtain r st1 where rs: "post_links now rnd b st = (r, st1)" by fastforce
    have step: "api_step now rnd env (LinksRequest POST b) st = (r, st1)"
      using rs by (simp add: api_step_def links_handler_def)
    show ?thesis
    proof (cases "\<exists>c u. r = Json 201 (BCreated c u)")
      case True
      then obtain c u where r: "r = Json 201 (BCreated c u)" by blast
      obtain k where k: "c = JStr k" "st k = None" "st1 = st(k \<mapsto> new_item k u now)"
        using post_links_201 rs r by blast
      have "dash_coherent st1 (fst (add_finish cnow (Some r) d1))"
        unfolding k(3) using r k(1) d1
        by (simp add: add_finish_def) (rule coherent_prepend [OF c k(2)], simp_all add: new_item_def)
      moreover have "snd (add_finish cnow (Some r) d1) = False" using r by (simp add: add_finish_def Let_def)
      ultimately show ?thesis using Pair Some step
        by (cases "add_finish cnow (Some r) d1") (simp add: dash_add_def)
    next
      case False
      then have st1: "st1 = st" using post_links_unchanged [of now rnd b st] rs by auto
      have af: "add_finish cnow (Some r) d1 = (d1\<lparr>formError := err_field r ''Failed to create link (server)''\<rparr>, True)"
        using False add_finish_other by blast
      have "deleteTarget d1 = deleteTarget d" using d1 by simp
      then have "dash_coherent st (dash_fetch now rnd env (d1\<lparr>formError := err_field r ''Failed to create link (server)''\<rparr>) st)"
        using coherent_fetch [OF ok] c by (simp add: dash_coherent_def)
      then show ?thesis using Pair Some step af st1 by (simp add: dash_add_def)
    qed
  qed
qed

lemma coherent_delete:
  assumes c: "dash_coherent st d"
  shows "dash_coherent (snd (dash_delete now rnd env d st)) (fst (dash_delete now rnd env d st))"
proof (cases "del_start d")
  case (Pair d1 oc)
  show ?thesis
  proof (cases oc)
    case None
    then have "dash_delete now rnd env d st = (d1, st)" using Pair by (simp add: dash_delete_def)
    moreover have "dash_coherent st d1"
      using Pair None c by (auto simp: del_start_def dash_coherent_def Let_def split: option.splits if_splits)
    ultimately show ?thesis by simp
  next
    case (Some cp)
    then obtain k prev where cp: "oc = Some (k, prev)" by (cases cp) blast
    have s: "deleteTarget d = Some k \<and> k \<noteq> [] \<and> prev = links d \<and>
         d1 = d\<lparr>deleteTarget := None, links := filter (\<lambda>x. row_code x \<noteq> k) (links d)\<rparr>"
      using del_start_Some Pair cp by blast
    then have "k \<in> dom st" using c by (simp add: dash_coherent_def)
    then have step: "api_step now rnd env (LinkRequest DELETE k) st = (Json 200 BSuccess, st(k := None))"
      by (auto simp: api_step_def link_handler_def getLink_def deleteLink_def)
    have "list_all (row_agrees (st(k := None))) (filter (\<lambda>x. row_code x \<noteq> k) (links d))"
      using c by (auto simp: dash_coherent_def list_all_iff row_agrees_def)
    then have "dash_coherent (st(k := None)) d1"
      using c s by (auto simp: dash_coherent_def distinct_map_filter)
    then show ?thesis using Pair cp step
      by (simp add: dash_delete_def del_finish_def resp_ok_def)
  qed
qed

subsection \<open>The dashboard and the table\<close>

text \<open>
  C26. For a single client, the dashboard refines the table: if its rows are the
  table's links, one per code, with the same url, clicks and last click, and the code
  awaiting deletion is one of them, then this still holds after a reload, after a
  round trip of \<open>handleAdd\<close> (whatever the server answers) and after a round trip of
  \<open>handleDeleteConfirm\<close>, provided the table is well formed and fits in one scan page.
\<close>

theorem dashboard_refines_table:
  assumes "dash_coherent st d" and "store_ok st" and "scan_env_ok env st"
    and "length (scan_keys env) \<le> page_items env"
  shows "dash_coherent st (dash_fetch now rnd env d st) \<and>
         dash_coherent (snd (dash_add cnow now rnd env d st)) (fst (dash_add cnow now rnd env d st)) \<and>
         dash_coherent (snd (dash_delete now rnd env d st)) (fst (dash_delete now rnd env d st))"
proof (intro conjI)
  show "dash_coherent st (dash_fetch now rnd env d st)"
    using coherent_fetch [OF assms(2-4)] assms(1) by (simp add: dash_coherent_def)
qed (use coherent_add [OF assms] coherent_delete [OF assms(1)] in blast)+

theorem dashboard_refines_table_witness:
  "dash_coherent
     (snd (dash_add 7 5 ([0, 1, 2, 3, 4, 5] @- sconst 0) \<lparr>scan_keys = [''abc123''], page_items = 1\<rparr>
        (dash_init\<lparr>links := [normalized_row (new_item ''abc123'' (JStr ''https://example.com'') 1)],
                   dash_url := ''https://example.org''\<rparr>)
        [''abc123'' \<mapsto> new_item ''abc123'' (JStr ''https://example.com'') 1]))
     (fst (dash_add 7 5 ([0, 1, 2, 3, 4, 5] @- sconst 0) \<lparr>scan_keys = [''abc123''], page_items = 1\<rparr>
        (dash_init\<lparr>links := [normalized_row (new_item ''abc123'' (JStr ''https://example.com'') 1)],
                   dash_url := ''https://example.org''\<rparr>)
        [''abc123'' \<mapsto> new_item ''abc123'' (JStr ''https://example.com'') 1]))"
proof -
  let ?st = "[''abc123'' \<mapsto> new_item ''abc123'' (JStr ''https://example.com'') 1]"
  let ?d = "dash_init\<lparr>links := [normalized_row (new_item ''abc123'' (JStr ''https://example.com'') 1)],
                      dash_url := ''https://example.org''\<rparr>"
  have "dash_coherent ?st ?d"
    by (simp add: dash_coherent_def dash_init_def normalized_row_def new_item_def row_agrees_def)
  moreover have "store_ok ?st" by (simp add: store_ok_def)
  moreover have "scan_env_ok \<lparr>scan_keys = [''abc123''], page_items = 1\<rparr> ?st"
    by (simp add: scan_env_ok_def)
  ultimately show ?thesis
    using dashboard_refines_table [of ?st ?d "\<lparr>scan_keys = [''abc123''], page_items = 1\<rparr>"] by simp
qed

subsection \<open>Sorting and filtering\<close>

text \<open>
  C27. Unless the search throws, the table the dashboard shows holds exactly the rows
  whose code, or whose string url, contains the trimmed and lowercased search (all rows
  for an empty search), and when sorting by clicks it is ordered ascending or descending
  as the direction says.
\<close>

theorem filtered_search_and_order:
  assumes "\<not> filter_throws d" and "orderBy d = SortClicks"
  shows "set (filtered d) =
           {r \<in> set (links d). query d = [] \<or> js_includes (js_lower (row_code r)) (query d) \<or>
                               (\<exists>s. row_url r = Some (JStr s) \<and> js_includes (js_lower s) (query d))} \<and>
         (if orderDir d = Asc then sorted (map row_clicks (filtered d))
          else sorted (rev (map row_clicks (filtered d))))"
proof -
  have "\<forall>r \<in> set (links d). row_match (query d) r \<noteq> None"
    using assms(1) by (auto simp: filter_throws_def list_ex_iff)
  then have "set (filtered d) =
           {r \<in> set (links d). query d = [] \<or> js_includes (js_lower (row_code r)) (query d) \<or>
                               (\<exists>s. row_url r = Some (JStr s) \<and> js_includes (js_lower s) (query d))}"
    by (auto simp: set_filtered row_matches_spec)
  then show ?thesis using sorted_filtered_clicks [OF assms(2)] by simp
qed

theorem filtered_search_and_order_witness:
  "\<not> filter_throws (dash_init\<lparr>links := [ex_row ''abc123'' 1 0 0, ex_row ''xyz789'' 5 0 0, ex_row ''abd000'' 3 0 0],
        debouncedSearch := '' ab '', orderBy := SortClicks\<rparr>) \<and>
   orderBy (dash_init\<lparr>links := [ex_row ''abc123'' 1 0 0, ex_row ''xyz789'' 5 0 0, ex_row ''abd000'' 3 0 0],
        debouncedSearch := '' ab '', orderBy := SortClicks\<rparr>) = SortClicks \<and>
   ex_row ''abd000'' 3 0 0 \<in> set (filtered (dash_init\<lparr>links := [ex_row ''abc123'' 1 0 0, ex_row ''xyz789'' 5 0 0,
        ex_row ''abd000'' 3 0 0], debouncedSearch := '' ab '', orderBy := SortClicks\<rparr>)) \<and>
   ex_row ''xyz789'' 5 0 0 \<notin> set (filtered (dash_init\<lparr>links := [ex_row ''abc123'' 1 0 0, ex_row ''xyz789'' 5 0 0,
        ex_row ''abd000'' 3 0 0], debouncedSearch := '' ab '', orderBy := SortClicks\<rparr>)) \<and>
   sorted (rev (map row_clicks (filtered (dash_init\<lparr>links := [ex_row ''abc123'' 1 0 0, ex_row ''xyz789'' 5 0 0,
        ex_row ''abd000'' 3 0 0], debouncedSearch := '' ab '', orderBy := SortClicks\<rparr>))))"
proof -
  let ?d = "dash_init\<lparr>links := [ex_row ''abc123'' 1 0 0, ex_row ''xyz789'' 5 0 0, ex_row ''abd000'' 3 0 0],
        debouncedSearch := '' ab '', orderBy := SortClicks\<rparr>"
  have q: "query ?d = ''ab''"
    by (simp add: query_def js_trim_def js_lower_def dash_init_def js_space_def lower_unit_def)
  have h1: "\<not> filter_throws ?d"
    unfolding filter_throws_def q
    by (simp add: row_match_def url_search_text_def ex_row_def js_lower_def lower_unit_def)
  have h2: "orderBy ?d = SortClicks" by simp
  have o: "orderDir ?d = Desc" by (simp add: dash_init_def)
  note f = filtered_search_and_order [OF h1 h2]
  have m1: "ex_row ''abd000'' 3 0 0 \<in> set (filtered ?d)"
    unfolding conjunct1 [OF f] q by (simp add: ex_row_def js_lower_def lower_unit_def)
  have m2: "ex_row ''xyz789'' 5 0 0 \<notin> set (filtered ?d)"
    unfolding conjunct1 [OF f] q by (simp add: ex_row_def js_lower_def lower_unit_def)
  have "sorted (rev (map row_clicks (filtered ?d)))" using conjunct2 [OF f] o by simp
  then show ?thesis using h1 h2 m1 m2 by blast
qed

text \<open>
  C28. Ascending, the dashboard's sort by clicks, by creation time and by code is the
  library's stable sort \<open>sort_key\<close> on that key; codes are compared as JavaScript
  compares strings, by code units.
\<close>

theorem sort_by_ascending_sort_key:
  "sort_by (row_cmp SortClicks Asc) xs = sort_key row_clicks xs \<and>
   sort_by (row_cmp SortCreatedAt Asc) xs = sort_key created_ms xs \<and>
   sort_by (row_cmp SortCode Asc) xs = sort_key row_code xs"
  by (intro conjI sort_by_sort_key) (simp_all add: row_cmp_le js_str_less_def not_less)

subsection \<open>Handlers against the server\<close>

text \<open>
  A form the dashboard submits is never refused by the server with "Invalid code":
  the page's trimmed code check implies the handler's \<open>validCode\<close>.
\<close>

theorem dashboard_submission_passes_code_check:
  assumes "add_start d = (d1, Some b)"
  shows "fst (api_step now rnd env (LinksRequest POST b) st) \<noteq> Json 400 (BError ''Invalid code'')"
proof -
  have a: "isCodeValid d" and b: "b = \<lparr>body_url = JStr (js_trim (dash_url d)),
      body_code = (if js_trim (dash_code d) = [] then JUndefined else JStr (js_trim (dash_code d)))\<rparr>"
    using add_start_Some [OF assms] by simp_all
  have "\<not> (js_truthy (body_code b) \<and> \<not> validCode (body_code b))"
  proof (cases "js_trim (dash_code d) = []")
    case False
    then have "dash_code d \<noteq> []" by (auto simp: js_trim_def)
    then show ?thesis using a b False by (simp add: isCodeValid_def validCode_def)
  qed (simp add: b)
  then show ?thesis
    by (auto simp: api_step_def links_handler_def post_links_def Let_def create_response_not_400)
qed

theorem dashboard_submission_passes_code_check_witness:
  "fst (api_step 5 (sconst 0) \<lparr>scan_keys = [], page_items = 0\<rparr>
     (LinksRequest POST \<lparr>body_url = JStr ''https://example.com'', body_code = JStr ''abc123''\<rparr>) Map.empty)
   = Json 201 (BCreated (JStr ''abc123'') (JStr ''https://example.com''))"
proof -
  let ?d = "dash_init\<lparr>dash_url := ''https://example.com'', dash_code := ''abc123''\<rparr>"
  have t1: "js_trim ''https://example.com'' = ''https://example.com''"
    by (simp add: js_trim_def js_space_def)
  have t2: "js_trim ''abc123'' = ''abc123''" by (simp add: js_trim_def js_space_def)
  have s: "add_start ?d = (?d\<lparr>submitting := True, formError := []\<rparr>,
      Some \<lparr>body_url = JStr ''https://example.com'', body_code = JStr ''abc123''\<rparr>)"
    by (simp add: add_start_def isUrlValid_def isCodeValid_def t1 t2 url_regex_def url_regex_after_def
        ascii_lower_def js_simps code_regex_def)
  have "fst (api_step 5 (sconst 0) \<lparr>scan_keys = [], page_items = 0\<rparr>
     (LinksRequest POST \<lparr>body_url = JStr ''https://example.com'', body_code = JStr ''abc123''\<rparr>) Map.empty)
     \<noteq> Json 400 (BError ''Invalid code'')"
    using dashboard_submission_passes_code_check [OF s] by blast
  then show ?thesis
    using valid_example_url valid_example_code
    by (simp add: api_step_def links_handler_def post_links_def create_response_def createLink_def Let_def)
qed

text \<open>
  C30. The rollback of a failed delete restores the snapshot taken when the delete
  started (\<open>setLinks(prev)\<close>), so a link created while the delete was in flight, and
  shown meanwhile, disappears from the dashboard although the table keeps it.
\<close>

theorem delete_rollback_drops_concurrent_add:
  assumes "del_start d = (d1, Some (c, prev))" and "\<not> resp_ok r"
    and "k \<notin> row_code ` set (links d)"
  shows "k \<in> row_code ` set (links (fst (add_finish cnow (Some (Json 201 (BCreated (JStr k) (JStr u)))) d1))) \<and>
         k \<notin> row_code ` set (links (del_finish c prev (Some r)
                 (fst (add_finish cnow (Some (Json 201 (BCreated (JStr k) (JStr u)))) d1))))"
  using del_start_Some [OF assms(1)] assms(2,3) by (simp add: add_finish_def del_finish_def)

theorem delete_rollback_drops_concurrent_add_witness:
  "''newone'' \<notin> row_code ` set (links
     (del_finish ''abc123'' [ex_row ''abc123'' 0 0 1] (Some (Json 404 (BError ''Not found'')))
        (fst (add_finish 7 (Some (Json 201 (BCreated (JStr ''newone'') (JStr ''https://n.io''))))
           (fst (del_start (dash_init\<lparr>links := [ex_row ''abc123'' 0 0 1], deleteTarget := Some ''abc123''\<rparr>)))))))"
proof -
  let ?d = "dash_init\<lparr>links := [ex_row ''abc123'' 0 0 1], deleteTarget := Some ''abc123''\<rparr>"
  have s: "del_start ?d = (fst (del_start ?d), Some (''abc123'', [ex_row ''abc123'' 0 0 1]))"
    by (simp add: del_start_def)
  have "\<not> resp_ok (Json 404 (BError ''Not found''))" by (simp add: resp_ok_def)
  moreover have "''newone'' \<notin> row_code ` set (links ?d)" by (simp add: ex_row_def)
  ultimately show ?thesis
    using delete_rollback_drops_concurrent_add [OF s, of "Json 404 (BError ''Not found'')" "''newone''"]
    by blast
qed

text \<open>
  Deleting from the dashboard a code that is no longer in the table (deleted from
  another page) answers 404, and the rollback puts the row back: the dashboard keeps
  showing a link that does not exist.
\<close>

theorem delete_of_vanished_link_restores_row:
  assumes "deleteTarget d = Some c" and "c \<noteq> []" and "st c = None"
  shows "dash_delete now rnd env d st =
           (d\<lparr>deleteTarget := None, snack := Some (Snack Error ''Not found'')\<rparr>, st)"
  using assms
  by (simp add: dash_delete_def del_start_def del_finish_def api_step_def link_handler_def getLink_def
                resp_ok_def err_field_def)

theorem delete_of_vanished_link_restores_row_witness:
  "links (fst (dash_delete 5 (sconst 0) \<lparr>scan_keys = [], page_items = 0\<rparr>
      (dash_init\<lparr>links := [ex_row ''abc123'' 0 0 1], deleteTarget := Some ''abc123''\<rparr>) Map.empty))
   = [ex_row ''abc123'' 0 0 1]"
  using delete_of_vanished_link_restores_row
    [of "dash_init\<lparr>links := [ex_row ''abc123'' 0 0 1], deleteTarget := Some ''abc123''\<rparr>" "''abc123''"
        Map.empty 5 "sconst 0" "\<lparr>scan_keys = [], page_items = 0\<rparr>"]
  by simp

subsection \<open>What the page shows\<close>

text \<open>
  The "Last clicked" column header sorts by creation time: after clicking it the
  rows are in ascending creation order and in neither order of their last click.
\<close>

theorem last_clicked_column_misorders:
  "pageData (header_click ColLastClicked
      (dash_init\<lparr>links := [ex_row ''aaaaaa'' 1 10 1, ex_row ''bbbbbb'' 1 5 2, ex_row ''cccccc'' 1 20 3]\<rparr>))
   = [ex_row ''aaaaaa'' 1 10 1, ex_row ''bbbbbb'' 1 5 2, ex_row ''cccccc'' 1 20 3] \<and>
   orderDir (header_click ColLastClicked
      (dash_init\<lparr>links := [ex_row ''aaaaaa'' 1 10 1, ex_row ''bbbbbb'' 1 5 2, ex_row ''cccccc'' 1 20 3]\<rparr>)) = Asc"
  by (simp add: pageData_def filtered_def header_click_def handleRequestSort_def dash_init_def
      query_def js_trim_def js_lower_def row_matches_def row_match_def url_search_text_def sort_by_def row_cmp_def created_ms_def ex_row_def)

text \<open>
  Deleting the only row of the last page leaves the page index unchanged, so the
  table says "No links yet" while the pagination bar counts the remaining links.
\<close>

theorem delete_last_row_leaves_empty_page:
  "let d = dash_init\<lparr>links := [ex_row ''aaaaaa'' 0 0 1, ex_row ''bbbbbb'' 0 0 2],
                     rowsPerPage := 1, page := 1, deleteTarget := Some ''aaaaaa''\<rparr>;
       st = [''aaaaaa'' \<mapsto> new_item ''aaaaaa'' (JStr ''https://a.io'') 1, ''bbbbbb'' \<mapsto> new_item ''bbbbbb'' (JStr ''https://b.io'') 2];
       d' = fst (dash_delete 5 (sconst 0) \<lparr>scan_keys = [], page_items = 0\<rparr> d st)
   in pageData d = [ex_row ''aaaaaa'' 0 0 1] \<and> shows_empty_message d' \<and> shows_pagination d' \<and> totalRows d' = 1"
  by (simp add: Let_def dash_delete_def del_start_def del_finish_def api_step_def link_handler_def
      getLink_def resp_ok_def shows_empty_message_def shows_pagination_def totalRows_def pageData_def
      filtered_def query_def js_trim_def js_lower_def row_matches_def row_match_def url_search_text_def sort_by_def row_cmp_def
      created_ms_def ex_row_def dash_init_def)

text \<open>
  The form's url check and the server's disagree in both directions: the form
  accepts \<open>http://a b\<close>, which the URL parser refuses, and refuses
  \<open>ftp://example.com\<close>, which the server accepts.
\<close>

theorem form_and_server_url_checks_disagree:
  "url_regex ''http://a b'' \<and> \<not> validUrl (JStr ''http://a b'') \<and>
   \<not> url_regex ''ftp://example.com'' \<and> validUrl (JStr ''ftp://example.com'')"
  by (simp add: url_regex_def url_regex_after_def ascii_lower_def url_parser_defs js_simps)

text \<open>
  The "Avg. Clicks" card shows the total clicks divided by the number of links,
  rounded as \<open>Math.round\<close> does: within half a click of the exact mean.
\<close>

theorem avgClicks_rounds:
  assumes "0 < length (links d)"
  shows "2 * int (totalClicks d) - int (length (links d)) < 2 * int (length (links d)) * avgClicks d \<and>
         2 * int (length (links d)) * avgClicks d \<le> 2 * int (totalClicks d) + int (length (links d))"
  using js_round_div_bounds [of "int (length (links d))" "int (totalClicks d)"] assms
  by (simp add: avgClicks_def)

theorem avgClicks_rounds_witness:
  "0 < length (links (dash_init\<lparr>links := [ex_row ''aaaaaa'' 1 10 1, ex_row ''bbbbbb'' 2 5 2]\<rparr>)) \<and>
   avgClicks (dash_init\<lparr>links := [ex_row ''aaaaaa'' 1 10 1, ex_row ''bbbbbb'' 2 5 2]\<rparr>) = 2"
proof -
  let ?d = "dash_init\<lparr>links := [ex_row ''aaaaaa'' 1 10 1, ex_row ''bbbbbb'' 2 5 2]\<rparr>"
  have "0 < length (links ?d)" by simp
  moreover have "totalClicks ?d = 3" by (simp add: totalClicks_def ex_row_def)
  ultimately show ?thesis
    using avgClicks_rounds [of ?d] by (simp add: avgClicks_def js_round_div_def)
qed

text \<open>
  The QR code encodes the same short link that the copy button writes, but when
  \<open>NEXT_PUBLIC_BASE_URL\<close> is set and differs from the page's origin, the caption under the
  QR code prints a different link.
\<close>

theorem qr_caption_differs:
  assumes "base \<noteq> []" and "base \<noteq> origin"
  shows "qr_text base origin r = copy_text base origin (row_code r) \<and> qr_caption origin r \<noteq> qr_text base origin r"
proof -
  have "origin @ ''/'' @ row_code r \<noteq> base @ ''/'' @ row_code r" using assms(2) by simp
  moreover have "''/'' @ row_code r \<noteq> base @ ''/'' @ row_code r"
    using assms(1) by (metis append_Nil append_same_eq neq_Nil_conv append_Cons)
  ultimately show ?thesis using assms by (simp add: qr_text_def qr_caption_def copy_text_def)
qed

theorem qr_caption_differs_witness:
  "qr_caption ''https://app.example'' (ex_row ''abc123'' 0 0 0) = ''https://app.example/abc123'' \<and>
   qr_text ''https://sho.rt'' ''https://app.example'' (ex_row ''abc123'' 0 0 0) = ''https://sho.rt/abc123''"
  using qr_caption_differs [of "''https://sho.rt''" "''https://app.example''" "ex_row ''abc123'' 0 0 0"]
  by (simp add: qr_text_def qr_caption_def ex_row_def)

end
