(* ===== verification/Format.thy ===== *)
theory Format
  imports Dashboard
begin

text \<open>
  The formatting helpers of \<open>src/pages/index.js\<close>: \<open>relativeTimeFrom\<close> (the
  "Last clicked" cells), \<open>downloadCsv\<close> with \<open>exportVisibleCsv\<close> (the Export
  button), and \<open>useDebounced\<close> (the search box). The CSV text is checked against a
  parser of the quoted format written here as the reference.
\<close>

subsection \<open>Relative times\<close>

text \<open>\<open>Date.now() - new Date(iso).getTime()\<close> in milliseconds, then seconds, minutes,
  hours and days, each \<open>Math.round\<close>ed from the previous one. A quotient \<open>k + 1/2\<close>
  is a double exactly, so \<open>Math.round\<close> of the floating quotient is
  \<open>js_round_div\<close> of the integers.\<close>

definition relativeTimeFrom :: "timestamp \<Rightarrow> timestamp option \<Rightarrow> string" where
  "relativeTimeFrom now ts =
     (case ts of
        None \<Rightarrow> ''-''
      | Some t \<Rightarrow>
          let s = js_round_div (int now - int t) 1000 in
          if s < 60 then int_to_decimal s @ ''s ago''
          else let m = js_round_div s 60 in
          if m < 60 then int_to_decimal m @ ''m ago''
          else let h = js_round_div m 60 in
          if h < 24 then int_to_decimal h @ ''h ago''
          else let d = js_round_div h 24 in int_to_decimal d @ ''d ago'')"

subsection \<open>CSV export\<close>

text \<open>\<open>escape = (v = "") => '"' + String(v).replace(/"/g, '""') + '"'\<close>; an
  \<open>undefined\<close> value takes the default \<open>""\<close>.\<close>

definition csv_quote :: "char \<Rightarrow> string" where
  "csv_quote c = (if c = CHR 0x22 then [c, c] else [c])"

definition csv_escape :: "string \<Rightarrow> string" where
  "csv_escape v = CHR 0x22 # concat (map csv_quote v) @ [CHR 0x22]"

text \<open>\<open>escape(v = "")\<close>: the default replaces \<open>undefined\<close>, \<open>String(v)\<close> prints any
  other value.\<close>

definition csv_escape_opt :: "jval \<Rightarrow> string" where
  "csv_escape_opt v = csv_escape (if v = JUndefined then [] else js_to_string v)"

text \<open>An object as its list of own properties in creation order; a property whose value
  is \<open>undefined\<close> is still a key, and a missing one reads as \<open>undefined\<close>.\<close>

type_synonym js_object = "(string \<times> jval) list"

definition js_prop :: "js_object \<Rightarrow> string \<Rightarrow> jval" where
  "js_prop r h = (case map_of r h of None \<Rightarrow> JUndefined | Some v \<Rightarrow> v)"

text \<open>\<open>downloadCsv\<close>: nothing for no rows; otherwise the header of the first row's keys
  and one line per row, joined by \<open>"\n"\<close>. The Blob, the object URL and the anchor
  click only deliver the text.\<close>

definition downloadCsv :: "js_object list \<Rightarrow> string option" where
  "downloadCsv rows =
     (if rows = [] then None
      else
        let headers = map fst (hd rows)
        in Some (js_join [CHR 0x0A]
                   (js_join '','' (map csv_escape headers) #
                    map (\<lambda>r. js_join '','' (map (\<lambda>h. csv_escape_opt (js_prop r h)) headers)) rows)))"

text \<open>\<open>exportVisibleCsv\<close>: the rows of the page; \<open>isostr\<close> gives the ISO string the row's
  timestamps were received as; \<open>url: r.url\<close> keeps the row's url value.\<close>

definition export_object :: "(timestamp \<Rightarrow> string) \<Rightarrow> row \<Rightarrow> js_object" where
  "export_object isostr r =
     [(''code'', JStr (row_code r)), (''url'', case row_url r of None \<Rightarrow> JUndefined | Some v \<Rightarrow> v),
      (''clicks'', JNum (int (row_clicks r))),
      (''lastClickedAt'', JStr (case row_lastClickedAt r of None \<Rightarrow> [] | Some t \<Rightarrow> isostr t)),
      (''createdAt'', JStr (case row_createdAt r of None \<Rightarrow> [] | Some t \<Rightarrow> isostr t))]"

definition exportVisibleCsv :: "(timestamp \<Rightarrow> string) \<Rightarrow> dash \<Rightarrow> string option" where
  "exportVisibleCsv isostr d = downloadCsv (map (export_object isostr) (pageData d))"

text \<open>The fields of a row as the file should hold them.\<close>

definition export_fields :: "(timestamp \<Rightarrow> string) \<Rightarrow> row \<Rightarrow> string list" where
  "export_fields isostr r = map (\<lambda>(h, v). if v = JUndefined then [] else js_to_string v) (export_object isostr r)"

subsection \<open>A parser of the quoted CSV format\<close>

text \<open>The body of a quoted field after its opening quote: a doubled quote is one
  quote, a single quote ends the field.\<close>

fun csv_field :: "string \<Rightarrow> string \<Rightarrow> (string \<times> string) option" where
  "csv_field acc [] = None"
| "csv_field acc (c # cs) =
     (if c = CHR 0x22 then
        (case cs of
           [] \<Rightarrow> Some (acc, [])
         | d # ds \<Rightarrow> if d = CHR 0x22 then csv_field (acc @ [d]) ds else Some (acc, cs))
      else csv_field (acc @ [c]) cs)"

text \<open>Fields separated by commas, rows by line feeds; \<open>row\<close> holds the fields of the
  current row read so far.\<close>

function csv_parse :: "string list \<Rightarrow> string \<Rightarrow> string list list option" where
  "csv_parse row s =
     (case s of
        [] \<Rightarrow> None
      | q # t \<Rightarrow>
          if q \<noteq> CHR 0x22 then None
          else (case csv_field [] t of
                  None \<Rightarrow> None
                | Some (f, rest) \<Rightarrow>
                    (case rest of
                       [] \<Rightarrow> Some [row @ [f]]
                     | c # rest' \<Rightarrow>
                         if c = CHR '','' then csv_parse (row @ [f]) rest'
                         else if c = CHR 0x0A then map_option ((#) (row @ [f])) (csv_parse [] rest')
                         else None)))"
  by pat_completeness auto
termination
proof -
  have shorter: "csv_field acc s = Some (f, rest) \<Longrightarrow> length rest < length s" for acc s f rest
    by (induction acc s rule: csv_field.induct) (auto split: if_splits list.splits)
  show ?thesis
    by (relation "measure (\<lambda>(row, s). length s)") (auto dest!: shorter)
qed

declare csv_parse.simps [simp del]

subsection \<open>The debounced search\<close>

text \<open>\<open>useDebounced(value, ms)\<close>: the returned value, and the pending timer with the
  value it will set and when it fires. Every change of \<open>value\<close> re-runs the effect,
  whose cleanup clears the pending timer before a new one is set.\<close>

record debounce =
  deb_value :: string
  deb_timer :: "(string \<times> nat) option"

definition deb_init :: "string \<Rightarrow> debounce" where
  "deb_init v = \<lparr>deb_value = v, deb_timer = None\<rparr>"

definition deb_change :: "nat \<Rightarrow> string \<Rightarrow> nat \<Rightarrow> debounce \<Rightarrow> debounce" where
  "deb_change ms v t s = s\<lparr>deb_timer := Some (v, t + ms)\<rparr>"

definition deb_tick :: "nat \<Rightarrow> debounce \<Rightarrow> debounce" where
  "deb_tick t s =
     (case deb_timer s of
        None \<Rightarrow> s
      | Some (v, due) \<Rightarrow> if due \<le> t then \<lparr>deb_value = v, deb_timer = None\<rparr> else s)"

subsection \<open>Helper lemmas\<close>

lemma csv_field_escaped:
  assumes "rest = [] \<or> hd rest \<noteq> CHR 0x22"
  shows "csv_field acc (concat (map csv_quote v) @ CHR 0x22 # rest) = Some (acc @ v, rest)"
proof (induction v arbitrary: acc)
  case Nil
  then show ?case using assms by (cases rest) auto
next
  case (Cons c v)
  then show ?case by (simp add: csv_quote_def)
qed

lemma csv_parse_field:
  assumes "rest = [] \<or> hd rest \<noteq> CHR 0x22"
  shows "csv_parse row (csv_escape f @ rest) =
           (case rest of
              [] \<Rightarrow> Some [row @ [f]]
            | c # rest' \<Rightarrow>
                if c = CHR '','' then csv_parse (row @ [f]) rest'
                else if c = CHR 0x0A then map_option ((#) (row @ [f])) (csv_parse [] rest')
                else None)"
  by (subst csv_parse.simps) (simp add: csv_escape_def csv_field_escaped [OF assms])

lemma csv_parse_line:
  "fs \<noteq> [] \<Longrightarrow> csv_parse row (js_join '','' (map csv_escape fs)) = Some [row @ fs]"
proof (induction fs arbitrary: row)
  case (Cons f fs)
  show ?case
  proof (cases fs)
    case Nil
    then show ?thesis using csv_parse_field [of "[]" row f] by simp
  next
    case (Cons g gs)
    then show ?thesis using Cons.IH csv_parse_field [of "CHR '','' # js_join '','' (map csv_escape fs)" row f]
      by simp
  qed
qed simp

lemma csv_parse_line_nl:
  "fs \<noteq> [] \<Longrightarrow> csv_parse row (js_join '','' (map csv_escape fs) @ CHR 0x0A # rest2) =
     map_option ((#) (row @ fs)) (csv_parse [] rest2)"
proof (induction fs arbitrary: row)
  case (Cons f fs)
  show ?case
  proof (cases fs)
    case Nil
    then show ?thesis using csv_parse_field [of "CHR 0x0A # rest2" row f] by simp
  next
    case (Cons g gs)
    then show ?thesis
      using Cons.IH csv_parse_field [of "CHR '','' # js_join '','' (map csv_escape fs) @ CHR 0x0A # rest2" row f]
      by simp
  qed
qed simp

lemma csv_parse_lines:
  "rows \<noteq> [] \<Longrightarrow> (\<forall>fs \<in> set rows. fs \<noteq> []) \<Longrightarrow>
   csv_parse [] (js_join [CHR 0x0A] (map (\<lambda>fs. js_join '','' (map csv_escape fs)) rows)) = Some rows"
proof (induction rows)
  case (Cons fs rows)
  show ?case
  proof (cases rows)
    case Nil
    then show ?thesis using Cons.prems csv_parse_line [of fs "[]"] by simp
  next
    case (Cons g gs)
    then show ?thesis using Cons.IH Cons.prems
        csv_parse_line_nl [of fs "[]" "js_join [CHR 0x0A] (map (\<lambda>fs. js_join '','' (map csv_escape fs)) rows)"]
      by simp
  qed
qed simp

lemma js_round_div_nonneg: "0 < b \<Longrightarrow> 0 \<le> a \<Longrightarrow> 0 \<le> js_round_div a b"
  by (simp add: js_round_div_def pos_imp_zdiv_nonneg_iff)

lemma js_round_div_ge1: "0 < b \<Longrightarrow> b \<le> 2 * a \<Longrightarrow> 1 \<le> js_round_div a b"
proof -
  assume b: "0 < b" and a: "b \<le> 2 * a"
  have "(2 * b) div (2 * b) \<le> (2 * a + b) div (2 * b)" using a b by (intro zdiv_mono1) simp_all
  then show ?thesis using b by (simp add: js_round_div_def)
qed

subsection \<open>Properties of the export and of relative times\<close>

text \<open>
  C36. The file the Export button downloads parses back, as quoted CSV, to the header
  and the fields of exactly the rows of the visible page, whatever quotes, commas or line
  breaks the urls hold.
\<close>

theorem export_csv_roundtrip:
  assumes "pageData d \<noteq> []"
  shows "\<exists>txt. exportVisibleCsv isostr d = Some txt \<and>
           csv_parse [] txt = Some ([''code'', ''url'', ''clicks'', ''lastClickedAt'', ''createdAt''] #
                                    map (export_fields isostr) (pageData d))"
proof -
  let ?hdr = "[''code'', ''url'', ''clicks'', ''lastClickedAt'', ''createdAt'']"
  let ?line = "\<lambda>fs. js_join '','' (map csv_escape fs)"
  have h: "map fst (export_object isostr r) = ?hdr" for r by (simp add: export_object_def)
  have l: "map (\<lambda>h. csv_escape_opt (js_prop (export_object isostr r) h)) ?hdr =
           map csv_escape (export_fields isostr r)" for r
    by (simp add: export_object_def js_prop_def csv_escape_opt_def export_fields_def)
  have ne: "map (export_object isostr) (pageData d) \<noteq> []" using assms by simp
  have hd: "map fst (hd (map (export_object isostr) (pageData d))) = ?hdr"
    using assms by (simp add: hd_map h)
  have rows: "map (\<lambda>r. js_join '','' (map (\<lambda>h. csv_escape_opt (js_prop r h)) ?hdr))
                (map (export_object isostr) (pageData d)) =
              map ?line (map (export_fields isostr) (pageData d))"
    by (simp only: map_map comp_def l)
  have "exportVisibleCsv isostr d =
          Some (js_join [CHR 0x0A] (js_join '','' (map csv_escape ?hdr) #
            map (\<lambda>r. js_join '','' (map (\<lambda>h. csv_escape_opt (js_prop r h)) ?hdr))
              (map (export_object isostr) (pageData d))))"
    unfolding exportVisibleCsv_def downloadCsv_def Let_def hd using ne by (simp only: if_False)
  then have "exportVisibleCsv isostr d =
          Some (js_join [CHR 0x0A] (map ?line (?hdr # map (export_fields isostr) (pageData d))))"
    by (simp only: rows) (simp only: list.map(2))
  moreover have "\<forall>fs \<in> set (?hdr # map (export_fields isostr) (pageData d)). fs \<noteq> []"
    by (auto simp: export_fields_def export_object_def)
  ultimately show ?thesis using csv_parse_lines by blast
qed

theorem export_csv_roundtrip_witness:
  "\<exists>txt. exportVisibleCsv (\<lambda>t. ''2025-01-01T00:00:00.000Z'')
           (dash_init\<lparr>links := [ex_row ''abc123'' 3 4 5\<lparr>row_url := Some (JStr (''https://e.com/?q='' @ [CHR 0x22] @ ''a,b'' @ [CHR 0x22])) \<rparr>]\<rparr>) = Some txt \<and>
         csv_parse [] txt = Some [[''code'', ''url'', ''clicks'', ''lastClickedAt'', ''createdAt''],
           [''abc123'', (''https://e.com/?q='' @ [CHR 0x22] @ ''a,b'' @ [CHR 0x22]), nat_to_decimal 3, ''2025-01-01T00:00:00.000Z'', ''2025-01-01T00:00:00.000Z'']]"
proof -
  let ?d = "dash_init\<lparr>links := [ex_row ''abc123'' 3 4 5\<lparr>row_url := Some (JStr (''https://e.com/?q='' @ [CHR 0x22] @ ''a,b'' @ [CHR 0x22])) \<rparr>]\<rparr>"
  have p: "pageData ?d = [ex_row ''abc123'' 3 4 5\<lparr>row_url := Some (JStr (''https://e.com/?q='' @ [CHR 0x22] @ ''a,b'' @ [CHR 0x22])) \<rparr>]"
    by (simp add: pageData_def filtered_def dash_init_def query_def js_trim_def js_lower_def
                  row_matches_def row_match_def url_search_text_def sort_by_def)
  show ?thesis
    using export_csv_roundtrip [of ?d "\<lambda>t. ''2025-01-01T00:00:00.000Z''"] p
    by (simp add: export_fields_def export_object_def ex_row_def int_to_decimal_nonneg)
qed

text \<open>
  For a time not after the browser's clock, the "Last clicked" cell reads
  \<open>n s ago\<close> with \<open>0 \<le> n < 60\<close>, \<open>n m ago\<close> with \<open>1 \<le> n < 60\<close>,
  \<open>n h ago\<close> with \<open>1 \<le> n < 24\<close> or \<open>n d ago\<close> with \<open>1 \<le> n\<close>.
\<close>

theorem relativeTimeFrom_bounds:
  assumes "t \<le> now"
  shows "\<exists>n u. relativeTimeFrom now (Some t) = int_to_decimal n @ u \<and>
           ((u = ''s ago'' \<and> 0 \<le> n \<and> n < 60) \<or> (u = ''m ago'' \<and> 1 \<le> n \<and> n < 60) \<or>
            (u = ''h ago'' \<and> 1 \<le> n \<and> n < 24) \<or> (u = ''d ago'' \<and> 1 \<le> n))"
proof -
  define s where "s = js_round_div (int now - int t) 1000"
  define m where "m = js_round_div s 60"
  define h where "h = js_round_div m 60"
  have s0: "0 \<le> s" using assms by (simp add: s_def js_round_div_nonneg)
  have m1: "\<not> s < 60 \<Longrightarrow> 1 \<le> m" by (simp add: m_def js_round_div_ge1)
  have h1: "\<not> m < 60 \<Longrightarrow> 1 \<le> h" by (simp add: h_def js_round_div_ge1)
  have d1: "\<not> h < 24 \<Longrightarrow> 1 \<le> js_round_div h 24" by (simp add: js_round_div_ge1)
  show ?thesis
    unfolding relativeTimeFrom_def option.case Let_def s_def [symmetric] m_def [symmetric]
      h_def [symmetric]
    using s0 m1 h1 d1 by auto
qed

theorem relativeTimeFrom_bounds_witness:
  "relativeTimeFrom 90000 (Some 0) = int_to_decimal 2 @ ''m ago'' \<and>
   (\<exists>n u. relativeTimeFrom 90000 (Some 0) = int_to_decimal n @ u \<and>
           ((u = ''s ago'' \<and> 0 \<le> n \<and> n < 60) \<or> (u = ''m ago'' \<and> 1 \<le> n \<and> n < 60) \<or>
            (u = ''h ago'' \<and> 1 \<le> n \<and> n < 24) \<or> (u = ''d ago'' \<and> 1 \<le> n)))"
proof
  show "relativeTimeFrom 90000 (Some 0) = int_to_decimal 2 @ ''m ago''"
    by (simp add: relativeTimeFrom_def js_round_div_def)
  show "\<exists>n u. relativeTimeFrom 90000 (Some 0) = int_to_decimal n @ u \<and>
           ((u = ''s ago'' \<and> 0 \<le> n \<and> n < 60) \<or> (u = ''m ago'' \<and> 1 \<le> n \<and> n < 60) \<or>
            (u = ''h ago'' \<and> 1 \<le> n \<and> n < 24) \<or> (u = ''d ago'' \<and> 1 \<le> n))"
    using relativeTimeFrom_bounds [of 0 90000] by simp
qed

text \<open>A time after the browser's clock, such as a server timestamp when the browser's
  clock is behind, reads as negative seconds.\<close>

lemma relativeTimeFrom_future: "relativeTimeFrom 1000 (Some 6000) = CHR ''-'' # nat_to_decimal 5 @ ''s ago''"
  by (simp add: relativeTimeFrom_def js_round_div_def int_to_decimal_def)

end
