(* ===== verification/StatsPage.thy ===== *)
theory StatsPage
  imports Dashboard
begin

text \<open>
  The stats page \<open>src/pages/code/[code].js\<close> (\<open>StatsPage()\<close>) and the health page
  \<open>src/pages/healthz.js\<close>. The stats page loads one link through
  \<open>GET /api/links/[code]\<close>, shows it, copies its short link and deletes it through
  \<open>DELETE /api/links/[code]\<close>; its handlers are split at the \<open>await\<close> as on the
  dashboard and composed with the server of \<open>Api.thy\<close>. The header search box of the
  page drives nothing and the QR image is a library call; neither is modelled.
\<close>

subsection \<open>State\<close>

record spage =
  sp_link :: "row option"
  sp_loading :: bool
  sp_fetchError :: "string option"
  sp_qrOpen :: bool
  sp_qrDataUrl :: "qr_image option"
  sp_qrLoading :: bool
  sp_deleteConfirmOpen :: bool
  sp_deleting :: bool
  sp_snack :: "snack_msg option"
  sp_search :: string
  sp_searchOpen :: bool
  sp_code :: string
  sp_leaving :: bool
  sp_qrRun :: nat
  sp_qrDue :: bool

text \<open>\<open>sp_code\<close> is \<open>router.query.code\<close>, empty until the router is ready;
  \<open>sp_leaving\<close> records the scheduled \<open>router.push("/")\<close>. The last two fields
  are React's bookkeeping of the QR effect: \<open>sp_qrRun\<close> counts its runs (the run
  whose number it is has not been cleaned up, every earlier one has, so its
  \<open>cancelled\<close> is set), and \<open>sp_qrDue\<close> says that a commit changed \<open>link\<close> and
  the effect has not run since. The effect is due after the first render.\<close>

definition sp_init :: spage where
  "sp_init =
     \<lparr>sp_link = None, sp_loading = True, sp_fetchError = None, sp_qrOpen = False,
      sp_qrDataUrl = None, sp_qrLoading = False, sp_deleteConfirmOpen = False,
      sp_deleting = False, sp_snack = None, sp_search = [], sp_searchOpen = False,
      sp_code = [], sp_leaving = False, sp_qrRun = 0, sp_qrDue = True\<rparr>"

subsection \<open>Loading the link\<close>

text \<open>\<open>fetchLink(c)\<close> up to the \<open>await\<close>: nothing for a falsy code, otherwise
  \<open>loading\<close> on and the previous error cleared.\<close>

definition fetchLink_start :: "string \<Rightarrow> spage \<Rightarrow> spage option" where
  "fetchLink_start c d =
     (if c = [] then None else Some (d\<lparr>sp_loading := True, sp_fetchError := None\<rparr>))"

text \<open>The outcome: a 404 throws \<open>"Not found"\<close>; another answer that is not ok throws the
  body's \<open>error\<close> or \<open>Failed to load (status)\<close>; an ok answer is the item. A thrown
  error becomes \<open>fetchError\<close> (its message, or \<open>Failed to load\<close> when empty) and
  clears the link; \<open>netmsg\<close> is the message of the browser's \<open>TypeError\<close> when
  \<open>fetch\<close> itself rejects. The route answers 200 only with an item
  (\<open>Api.link_handler\<close>), so the remaining case is not reached.\<close>

definition fetchLink_done :: "string \<Rightarrow> fetched \<Rightarrow> spage \<Rightarrow> spage" where
  "fetchLink_done netmsg f d =
     (let fail = (\<lambda>m. d\<lparr>sp_fetchError := Some (if m \<noteq> [] then m else ''Failed to load''), sp_link := None\<rparr>);
          d' = (case f of
                  None \<Rightarrow> fail netmsg
                | Some r \<Rightarrow>
                    if resp_status r = 404 then fail ''Not found''
                    else if \<not> resp_ok r then
                      fail (err_field r (''Failed to load ('' @ nat_to_decimal (resp_status r) @ '')''))
                    else (case resp_json r of
                            Some (BLink l) \<Rightarrow> d\<lparr>sp_link := Some (normalized_row l)\<rparr>
                          | _ \<Rightarrow> fail []))
      in d'\<lparr>sp_loading := False\<rparr>)"

text \<open>What the card shows: the skeleton while loading, else the error, else the link,
  else "No data".\<close>

datatype sp_view = ViewLoading | ViewError string | ViewLink row | ViewNoData

definition sp_render :: "spage \<Rightarrow> sp_view" where
  "sp_render d =
     (if sp_loading d then ViewLoading
      else case sp_fetchError d of
             Some e \<Rightarrow> ViewError e
           | None \<Rightarrow> (case sp_link d of Some r \<Rightarrow> ViewLink r | None \<Rightarrow> ViewNoData))"

subsection \<open>Handlers\<close>

text \<open>The short link the page prints, encodes in the QR code and shares.\<close>

definition sp_short_link :: "string \<Rightarrow> string \<Rightarrow> row \<Rightarrow> string" where
  "sp_short_link base origin r = (if base \<noteq> [] then base @ ''/'' else origin @ ''/'') @ row_code r"

text \<open>\<open>handleCopy\<close>: nothing without a link; the text written, and the snack for the
  outcome of \<open>writeText\<close>.\<close>

definition sp_copy_text :: "string \<Rightarrow> string \<Rightarrow> spage \<Rightarrow> string option" where
  "sp_copy_text base origin d =
     (case sp_link d of
        None \<Rightarrow> None
      | Some r \<Rightarrow> Some (if base \<noteq> [] then base @ ''/'' @ row_code r else origin @ ''/'' @ row_code r))"

definition sp_copy_done :: "bool \<Rightarrow> spage \<Rightarrow> spage" where
  "sp_copy_done ok d =
     d\<lparr>sp_snack := Some (if ok then Snack Success ''Copied short link'' else Snack Error ''Copy failed'')\<rparr>"

text \<open>\<open>handleOpenTarget\<close>: the url handed to \<open>window.open\<close>, which converts it
  with \<open>ToString\<close> (\<open>None\<close> inside: the link has no url, \<open>window.open(undefined)\<close>).\<close>

definition sp_open_target :: "spage \<Rightarrow> string option option" where
  "sp_open_target d = map_option (\<lambda>r. map_option js_to_string (row_url r)) (sp_link d)"

text \<open>\<open>handleDelete\<close> up to the \<open>await\<close>, and the outcome: a 2xx shows "Deleted"
  and schedules \<open>router.push("/")\<close>; \<open>finally\<close> closes the dialog.\<close>

definition sp_delete_start :: "spage \<Rightarrow> (string \<times> spage) option" where
  "sp_delete_start d =
     (case sp_link d of None \<Rightarrow> None | Some r \<Rightarrow> Some (row_code r, d\<lparr>sp_deleting := True\<rparr>))"

definition sp_delete_finish :: "fetched \<Rightarrow> spage \<Rightarrow> spage" where
  "sp_delete_finish f d =
     (let d' = (case f of
                  Some r \<Rightarrow>
                    if resp_ok r then d\<lparr>sp_snack := Some (Snack Success ''Deleted''), sp_leaving := True\<rparr>
                    else d\<lparr>sp_snack := Some (Snack Error (err_field r ''Delete failed''))\<rparr>
                | None \<Rightarrow> d\<lparr>sp_snack := Some (Snack Error ''Network error deleting'')\<rparr>)
      in d'\<lparr>sp_deleting := False, sp_deleteConfirmOpen := False\<rparr>)"

subsection \<open>Round trips with the server\<close>

text \<open>The effect on \<open>[code]\<close> and \<open>handleRefresh\<close> both call \<open>fetchLink(code)\<close>
  with the code of the route.\<close>

definition sp_load ::
  "timestamp \<Rightarrow> random_bytes \<Rightarrow> scan_env \<Rightarrow> string \<Rightarrow> string \<Rightarrow> spage \<Rightarrow> store \<Rightarrow> spage" where
  "sp_load now rnd env netmsg c d st =
     (case fetchLink_start c d of
        None \<Rightarrow> d
      | Some d1 \<Rightarrow> fetchLink_done netmsg (Some (fst (api_step now rnd env (LinkRequest GET c) st))) d1)"

definition sp_delete ::
  "timestamp \<Rightarrow> random_bytes \<Rightarrow> scan_env \<Rightarrow> spage \<Rightarrow> store \<Rightarrow> spage \<times> store" where
  "sp_delete now rnd env d st =
     (case sp_delete_start d of
        None \<Rightarrow> (d, st)
      | Some (c, d1) \<Rightarrow>
          (case api_step now rnd env (LinkRequest DELETE c) st of
             (r, st1) \<Rightarrow> (sp_delete_finish (Some r) d1, st1)))"

subsection \<open>The health page\<close>

text \<open>\<open>HealthPage()\<close> fetches \<open>/api/healthz\<close> and shows the parsed body, or
  \<open>{ok: false, error}\<close> when the request or the parse fails. The status is \<open>null\<close>
  until then.\<close>

datatype health_status = HealthBody resp_body | HealthFailed string

definition health_done :: "string \<Rightarrow> string \<Rightarrow> fetched \<Rightarrow> health_status" where
  "health_done netmsg parsemsg f =
     (case f of
        None \<Rightarrow> HealthFailed netmsg
      | Some r \<Rightarrow> (case resp_json r of Some b \<Rightarrow> HealthBody b | None \<Rightarrow> HealthFailed parsemsg))"

text \<open>\<open>status.ok\<close> of a parsed body: none of the API's bodies has an \<open>ok\<close>
  member (an array, an item, \<open>{code, url}\<close>, \<open>{error}\<close>, \<open>{success}\<close>).\<close>

primrec body_ok :: "resp_body \<Rightarrow> bool" where
  "body_ok (BLinks ls) = False"
| "body_ok (BLink l) = False"
| "body_ok (BCreated c u) = False"
| "body_ok (BError e) = False"
| "body_ok (BSuccess) = False"

text \<open>The line under the status, once there is one.\<close>

definition health_ok_line :: "health_status \<Rightarrow> string" where
  "health_ok_line s =
     (case s of HealthBody b \<Rightarrow> if body_ok b then ''ok: true'' else ''ok: false''
              | HealthFailed m \<Rightarrow> ''ok: false'')"

subsection \<open>Helper lemmas\<close>

lemma sp_load_link:
  "c \<noteq> [] \<Longrightarrow> st c = Some l \<Longrightarrow> sp_link (sp_load now rnd env netmsg c d st) = Some (normalized_row l)"
  by (simp add: sp_load_def fetchLink_start_def fetchLink_done_def api_step_def link_handler_def
                getLink_def resp_ok_def)

lemma sp_load_missing:
  "c \<noteq> [] \<Longrightarrow> st c = None \<Longrightarrow> sp_render (sp_load now rnd env netmsg c d st) = ViewError ''Not found''"
  by (simp add: sp_load_def fetchLink_start_def fetchLink_done_def api_step_def link_handler_def
                getLink_def sp_render_def resp_ok_def)

subsection \<open>The page against the server\<close>

text \<open>
  C34. Loading the stats page of a code shows exactly the table's item for that code,
  normalised as the page does it, and "Not found" when the table has none; loading does
  not touch the table.
\<close>

theorem stats_page_shows_item:
  assumes "c \<noteq> []"
  shows "sp_render (sp_load now rnd env netmsg c d st) =
           (case st c of Some l \<Rightarrow> ViewLink (normalized_row l) | None \<Rightarrow> ViewError ''Not found'')"
  using assms
  by (cases "st c")
     (simp_all add: sp_load_def fetchLink_start_def fetchLink_done_def api_step_def link_handler_def
                    getLink_def sp_render_def resp_ok_def)

theorem stats_page_shows_item_witness:
  "sp_render (sp_load 5 (sconst 0) \<lparr>scan_keys = [], page_items = 0\<rparr> ''Failed to fetch'' ''abc123'' sp_init
      [''abc123'' \<mapsto> new_item ''abc123'' (JStr ''https://example.com'') 1])
   = ViewLink (normalized_row (new_item ''abc123'' (JStr ''https://example.com'') 1))"
  using stats_page_shows_item [of "''abc123''" 5 "sconst 0" "\<lparr>scan_keys = [], page_items = 0\<rparr>"
      "''Failed to fetch''" sp_init "[''abc123'' \<mapsto> new_item ''abc123'' (JStr ''https://example.com'') 1]"]
  by simp

text \<open>
  Deleting from the stats page removes the code it shows from the table, reports
  "Deleted" and schedules the return to the dashboard; reloading the page then shows
  "Not found".
\<close>

theorem stats_delete_then_reload:
  assumes "c \<noteq> []" and "st c = Some l" and "store_ok st"
  shows "let d1 = sp_load now rnd env netmsg c d st;
             (d2, st2) = sp_delete now rnd env d1 st
         in st2 = st(c := None) \<and> sp_snack d2 = Some (Snack Success ''Deleted'') \<and> sp_leaving d2 \<and>
            sp_render (sp_load now rnd env netmsg c d2 st2) = ViewError ''Not found''"
proof -
  let ?d1 = "sp_load now rnd env netmsg c d st"
  have "code l = c" using assms(2,3) by (simp add: store_ok_def item_ok_def)
  then have "sp_delete_start ?d1 = Some (c, ?d1\<lparr>sp_deleting := True\<rparr>)"
    using sp_load_link [where c = c and st = st, OF assms(1,2)] by (simp add: sp_delete_start_def normalized_row_def)
  moreover have "api_step now rnd env (LinkRequest DELETE c) st = (Json 200 BSuccess, st(c := None))"
    using assms(2) by (simp add: api_step_def link_handler_def getLink_def deleteLink_def)
  ultimately show ?thesis
    using sp_load_missing [OF assms(1), of "st(c := None)"]
    by (simp add: sp_delete_def sp_delete_finish_def resp_ok_def)
qed

theorem stats_delete_then_reload_witness:
  "let d1 = sp_load 5 (sconst 0) \<lparr>scan_keys = [], page_items = 0\<rparr> [] ''abc123'' sp_init
              [''abc123'' \<mapsto> new_item ''abc123'' (JStr ''https://example.com'') 1];
       (d2, st2) = sp_delete 5 (sconst 0) \<lparr>scan_keys = [], page_items = 0\<rparr> d1
              [''abc123'' \<mapsto> new_item ''abc123'' (JStr ''https://example.com'') 1]
   in st2 = Map.empty \<and> sp_render (sp_load 5 (sconst 0) \<lparr>scan_keys = [], page_items = 0\<rparr> [] ''abc123'' d2 st2)
        = ViewError ''Not found''"
proof -
  have "store_ok [''abc123'' \<mapsto> new_item ''abc123'' (JStr ''https://example.com'') 1]"
    by (simp add: store_ok_def)
  then show ?thesis
    using stats_delete_then_reload [of "''abc123''" "[''abc123'' \<mapsto> new_item ''abc123'' (JStr ''https://example.com'') 1]"
        "new_item ''abc123'' (JStr ''https://example.com'') 1" 5 "sconst 0" "\<lparr>scan_keys = [], page_items = 0\<rparr>" "[]" sp_init]
    by (simp add: Let_def split: prod.splits)
qed

end
