(* ===== verification/StatsEvents.thy ===== *)
theory StatsEvents
  imports StatsPage
begin

text \<open>
  The stats page \<open>src/pages/code/[code].js\<close> as an event machine: every control the
  returned tree renders, each with the handler its \<open>onClick\<close> or \<open>onChange\<close> names,
  the continuations of the requests the handlers start, the effect on \<open>[code]\<close>, and
  the QR preview effect with its \<open>cancelled\<close> flag. \<open>sp_step\<close> answers \<open>None\<close> for
  a control that is not on the screen or is disabled. \<open>sp_run\<close> is the set of states
  the page reaches together with the outputs still awaiting an answer: a user event
  can happen whenever its control is enabled, an answer whenever its request is
  pending, in any order.
\<close>

subsection \<open>Dates and the statistics block\<close>

text \<open>\<open>formatDate(iso)\<close>: \<open>"-"\<close> for a falsy value, else the browser's
  \<open>toLocaleString\<close>, the parameter \<open>loc\<close>. \<open>toLocaleString\<close> of a date does not
  throw (an invalid date prints \<open>"Invalid Date"\<close>), so the \<open>catch\<close> is not
  reached.\<close>

definition formatDate :: "(timestamp \<Rightarrow> string) \<Rightarrow> timestamp option \<Rightarrow> string" where
  "formatDate loc v = (case v of None \<Rightarrow> ''-'' | Some t \<Rightarrow> loc t)"

text \<open>The three figures of the statistics block: \<open>link.clicks ?? 0\<close>, and each date
  through \<open>formatDate\<close> when present (\<open>None\<close>: the em dash placeholder).\<close>

definition sp_stats_view ::
  "(timestamp \<Rightarrow> string) \<Rightarrow> row \<Rightarrow> string \<times> string option \<times> string option" where
  "sp_stats_view loc r =
     (nat_to_decimal (row_clicks r),
      map_option (\<lambda>t. formatDate loc (Some t)) (row_lastClickedAt r),
      map_option (\<lambda>t. formatDate loc (Some t)) (row_createdAt r))"

subsection \<open>Events and outputs\<close>

text \<open>What the page does to the world: requests whose answer comes back as an event
  (the two \<open>fetch\<close>es, \<open>writeText\<close>, \<open>QRCode.toDataURL\<close> of run \<open>n\<close>,
  \<open>navigator.share\<close>) and actions without one (\<open>window.open\<close>, the download of the
  anchor, \<open>router.push\<close>).\<close>

datatype sp_out =
    OutGet string
  | OutDelete string
  | OutClipboard string
  | OutQrJob nat string
  | OutShare string string string
  | OutOpen "string option"
  | OutDownload string qr_image
  | OutNavigate string

primrec sp_awaits :: "sp_out \<Rightarrow> bool" where
  "sp_awaits (OutGet c) = True"
| "sp_awaits (OutDelete c) = True"
| "sp_awaits (OutClipboard t) = True"
| "sp_awaits (OutQrJob n t) = True"
| "sp_awaits (OutShare a b c) = True"
| "sp_awaits (OutOpen u) = False"
| "sp_awaits (OutDownload f i) = False"
| "sp_awaits (OutNavigate p) = False"

datatype sp_event =
    SpRoute string
  | SpRefresh
  | SpLoaded fetched
  | SpQrEffect
  | SpQrSettled nat string bool
  | SpCopy
  | SpCopied bool
  | SpOpenTarget
  | SpOpenQr
  | SpCloseQr
  | SpAskDelete
  | SpCloseDelete
  | SpConfirmDelete
  | SpDeleted fetched
  | SpDownloadQr
  | SpShare
  | SpShared bool
  | SpCloseSnack
  | SpSearch string
  | SpToggleSearch
  | SpCloseSearch
  | SpBack

text \<open>Which event answers which output.\<close>

primrec sp_answers :: "sp_out \<Rightarrow> sp_event \<Rightarrow> bool" where
  "sp_answers (OutGet c) e = (case e of SpLoaded f \<Rightarrow> True | _ \<Rightarrow> False)"
| "sp_answers (OutDelete c) e = (case e of SpDeleted f \<Rightarrow> True | _ \<Rightarrow> False)"
| "sp_answers (OutClipboard t) e = (case e of SpCopied b \<Rightarrow> True | _ \<Rightarrow> False)"
| "sp_answers (OutQrJob n t) e = (case e of SpQrSettled m u b \<Rightarrow> n = m \<and> t = u | _ \<Rightarrow> False)"
| "sp_answers (OutShare a b c) e = (case e of SpShared ok \<Rightarrow> True | _ \<Rightarrow> False)"
| "sp_answers (OutOpen u) e = False"
| "sp_answers (OutDownload f i) e = False"
| "sp_answers (OutNavigate p) e = False"

primrec sp_is_answer :: "sp_event \<Rightarrow> bool" where
  "sp_is_answer (SpRoute c) = False"
| "sp_is_answer SpRefresh = False"
| "sp_is_answer (SpLoaded f) = True"
| "sp_is_answer SpQrEffect = False"
| "sp_is_answer (SpQrSettled n t b) = True"
| "sp_is_answer SpCopy = False"
| "sp_is_answer (SpCopied b) = True"
| "sp_is_answer SpOpenTarget = False"
| "sp_is_answer SpOpenQr = False"
| "sp_is_answer SpCloseQr = False"
| "sp_is_answer SpAskDelete = False"
| "sp_is_answer SpCloseDelete = False"
| "sp_is_answer SpConfirmDelete = False"
| "sp_is_answer (SpDeleted f) = True"
| "sp_is_answer SpDownloadQr = False"
| "sp_is_answer SpShare = False"
| "sp_is_answer (SpShared b) = True"
| "sp_is_answer SpCloseSnack = False"
| "sp_is_answer (SpSearch v) = False"
| "sp_is_answer SpToggleSearch = False"
| "sp_is_answer SpCloseSearch = False"
| "sp_is_answer SpBack = False"

text \<open>The browser side: \<open>NEXT_PUBLIC_BASE_URL\<close>, \<open>window.location.origin\<close>, the
  message of \<open>fetch\<close>'s \<open>TypeError\<close>, whether \<open>navigator.share\<close> exists, and
  \<open>isMobile\<close>.\<close>

record sp_env =
  env_base :: string
  env_origin :: string
  env_netmsg :: string
  env_canShare :: bool
  env_isMobile :: bool

subsection \<open>Handlers\<close>

text \<open>\<open>fetchLink(c)\<close> up to its request.\<close>

definition sp_fetch :: "string \<Rightarrow> spage \<Rightarrow> spage \<times> sp_out list" where
  "sp_fetch c d = (case fetchLink_start c d of None \<Rightarrow> (d, []) | Some d1 \<Rightarrow> (d1, [OutGet c]))"

text \<open>A new \<open>router.query.code\<close> re-runs the effect on \<open>[code]\<close>, which fetches a
  truthy code; \<open>handleRefresh\<close> fetches the current one.\<close>

definition sp_route :: "string \<Rightarrow> spage \<Rightarrow> spage \<times> sp_out list" where
  "sp_route c d = (if c = sp_code d then (d, []) else sp_fetch c (d\<lparr>sp_code := c\<rparr>))"

definition sp_refresh :: "spage \<Rightarrow> spage \<times> sp_out list" where
  "sp_refresh d = (if sp_code d = [] then (d, []) else sp_fetch (sp_code d) d)"

text \<open>The rest of \<open>fetchLink\<close>: every branch calls \<open>setLink\<close>, with a fresh object
  or with \<open>null\<close>; React compares the dependency \<open>link\<close> of the QR effect with
  \<open>Object.is\<close>, so the commit makes the effect due unless \<open>link\<close> was and stays
  \<open>null\<close>.\<close>

definition sp_loaded :: "string \<Rightarrow> fetched \<Rightarrow> spage \<Rightarrow> spage" where
  "sp_loaded netmsg f d =
     (let d' = fetchLink_done netmsg f d
      in d'\<lparr>sp_qrDue := (sp_qrDue d \<or> sp_link d \<noteq> None \<or> sp_link d' \<noteq> None)\<rparr>)"

text \<open>The QR preview effect: the cleanup of the previous run sets its \<open>cancelled\<close>;
  without a link the preview is cleared, with one \<open>qrLoading\<close> is set and the short
  link is encoded.\<close>

definition sp_qr_effect :: "string \<Rightarrow> string \<Rightarrow> spage \<Rightarrow> spage \<times> sp_out list" where
  "sp_qr_effect base origin d =
     (let n = Suc (sp_qrRun d); d1 = d\<lparr>sp_qrRun := n, sp_qrDue := False\<rparr>
      in case sp_link d of
           None \<Rightarrow> (d1\<lparr>sp_qrDataUrl := None, sp_qrLoading := False\<rparr>, [])
         | Some r \<Rightarrow> (d1\<lparr>sp_qrLoading := True\<rparr>, [OutQrJob n (sp_short_link base origin r)]))"

text \<open>The end of run \<open>n\<close>: each of its three state updates is guarded by
  \<open>!cancelled\<close>.\<close>

definition sp_qr_settled :: "nat \<Rightarrow> string \<Rightarrow> bool \<Rightarrow> spage \<Rightarrow> spage" where
  "sp_qr_settled n t ok d =
     (if n \<noteq> sp_qrRun d then d
      else if ok then d\<lparr>sp_qrDataUrl := Some (QrImage t), sp_qrLoading := False\<rparr>
      else d\<lparr>sp_snack := Some (Snack Error ''Failed to generate QR''), sp_qrDataUrl := None,
             sp_qrLoading := False\<rparr>)"

definition sp_copy :: "string \<Rightarrow> string \<Rightarrow> spage \<Rightarrow> sp_out list" where
  "sp_copy base origin d = (case sp_copy_text base origin d of None \<Rightarrow> [] | Some t \<Rightarrow> [OutClipboard t])"

definition sp_open :: "spage \<Rightarrow> sp_out list" where
  "sp_open d = (case sp_open_target d of None \<Rightarrow> [] | Some u \<Rightarrow> [OutOpen u])"

definition sp_confirm_delete :: "spage \<Rightarrow> spage \<times> sp_out list" where
  "sp_confirm_delete d = (case sp_delete_start d of None \<Rightarrow> (d, []) | Some (c, d1) \<Rightarrow> (d1, [OutDelete c]))"

text \<open>The two download buttons: without a data URL the snack says so; otherwise
  \<open>link.code\<close> names the file, and with no link it throws a \<open>TypeError\<close> before any
  state update.\<close>

definition sp_download_qr :: "spage \<Rightarrow> spage \<times> sp_out list" where
  "sp_download_qr d =
     (case sp_qrDataUrl d of
        None \<Rightarrow> (d\<lparr>sp_snack := Some (Snack Error ''QR not ready'')\<rparr>, [])
      | Some img \<Rightarrow>
          (case sp_link d of
             None \<Rightarrow> (d, [])
           | Some r \<Rightarrow> (d\<lparr>sp_snack := Some (Snack Success ''QR downloaded'')\<rparr>,
                        [OutDownload (''tinylink-'' @ row_code r @ ''.png'') img])))"

text \<open>The Share button: the object literal reads \<open>link.code\<close> first (a
  \<open>TypeError\<close> without a link); a rejected share raises the snack.\<close>

definition sp_share :: "string \<Rightarrow> string \<Rightarrow> spage \<Rightarrow> sp_out list" where
  "sp_share base origin d =
     (case sp_link d of
        None \<Rightarrow> []
      | Some r \<Rightarrow> [OutShare (''TinyLink: '' @ row_code r) (row_code r) (sp_short_link base origin r)])"

definition sp_shared :: "bool \<Rightarrow> spage \<Rightarrow> spage" where
  "sp_shared ok d = (if ok then d else d\<lparr>sp_snack := Some (Snack Error ''Share failed or cancelled'')\<rparr>)"

subsection \<open>The rendered controls\<close>

text \<open>A dialog is modal: while one is open the page behind it takes no clicks. The
  buttons of the card exist when the card shows a link.\<close>

definition sp_modal :: "spage \<Rightarrow> bool" where
  "sp_modal d = (sp_qrOpen d \<or> sp_deleteConfirmOpen d)"

definition sp_card :: "spage \<Rightarrow> bool" where
  "sp_card d = (\<not> sp_modal d \<and> (case sp_render d of ViewLink r \<Rightarrow> True | _ \<Rightarrow> False))"

text \<open>Whether the control of a user event is on the screen and enabled: the toolbar
  (the desktop search field, or the mobile toggle and its drawer), the card, the delete
  dialog (Cancel and Delete are \<open>disabled={deleting}\<close>, the backdrop closes it
  always), the QR dialog and the snackbar. The route, the due effect and the answers are
  not controls.\<close>

fun sp_enabled :: "sp_env \<Rightarrow> sp_event \<Rightarrow> spage \<Rightarrow> bool" where
  "sp_enabled env (SpRoute c) d = True"
| "sp_enabled env SpRefresh d = (\<not> sp_modal d)"
| "sp_enabled env (SpLoaded f) d = True"
| "sp_enabled env SpQrEffect d = sp_qrDue d"
| "sp_enabled env (SpQrSettled n t b) d = True"
| "sp_enabled env SpCopy d = (sp_card d \<or> sp_qrOpen d)"
| "sp_enabled env (SpCopied b) d = True"
| "sp_enabled env SpOpenTarget d = sp_card d"
| "sp_enabled env SpOpenQr d = sp_card d"
| "sp_enabled env SpCloseQr d = sp_qrOpen d"
| "sp_enabled env SpAskDelete d = sp_card d"
| "sp_enabled env SpCloseDelete d = sp_deleteConfirmOpen d"
| "sp_enabled env SpConfirmDelete d = (sp_deleteConfirmOpen d \<and> \<not> sp_deleting d)"
| "sp_enabled env (SpDeleted f) d = True"
| "sp_enabled env SpDownloadQr d = (sp_card d \<or> sp_qrOpen d)"
| "sp_enabled env SpShare d = (sp_qrOpen d \<and> env_canShare env)"
| "sp_enabled env (SpShared b) d = True"
| "sp_enabled env SpCloseSnack d = (sp_snack d \<noteq> None)"
| "sp_enabled env (SpSearch v) d = (\<not> sp_modal d \<and> (\<not> env_isMobile env \<or> sp_searchOpen d))"
| "sp_enabled env SpToggleSearch d = (\<not> sp_modal d \<and> env_isMobile env)"
| "sp_enabled env SpCloseSearch d = (\<not> sp_modal d \<and> env_isMobile env \<and> sp_searchOpen d)"
| "sp_enabled env SpBack d = (\<not> sp_modal d)"

text \<open>The handler each control calls, and the continuations.\<close>

fun sp_handle :: "sp_env \<Rightarrow> sp_event \<Rightarrow> spage \<Rightarrow> spage \<times> sp_out list" where
  "sp_handle env (SpRoute c) d = sp_route c d"
| "sp_handle env SpRefresh d = sp_refresh d"
| "sp_handle env (SpLoaded f) d = (sp_loaded (env_netmsg env) f d, [])"
| "sp_handle env SpQrEffect d = sp_qr_effect (env_base env) (env_origin env) d"
| "sp_handle env (SpQrSettled n t b) d = (sp_qr_settled n t b d, [])"
| "sp_handle env SpCopy d = (d, sp_copy (env_base env) (env_origin env) d)"
| "sp_handle env (SpCopied b) d = (sp_copy_done b d, [])"
| "sp_handle env SpOpenTarget d = (d, sp_open d)"
| "sp_handle env SpOpenQr d = (d\<lparr>sp_qrOpen := True\<rparr>, [])"
| "sp_handle env SpCloseQr d = (d\<lparr>sp_qrOpen := False\<rparr>, [])"
| "sp_handle env SpAskDelete d = (d\<lparr>sp_deleteConfirmOpen := True\<rparr>, [])"
| "sp_handle env SpCloseDelete d = (d\<lparr>sp_deleteConfirmOpen := False\<rparr>, [])"
| "sp_handle env SpConfirmDelete d = sp_confirm_delete d"
| "sp_handle env (SpDeleted f) d = (sp_delete_finish f d, [])"
| "sp_handle env SpDownloadQr d = sp_download_qr d"
| "sp_handle env SpShare d = (d, sp_share (env_base env) (env_origin env) d)"
| "sp_handle env (SpShared b) d = (sp_shared b d, [])"
| "sp_handle env SpCloseSnack d = (d\<lparr>sp_snack := None\<rparr>, [])"
| "sp_handle env (SpSearch v) d = (d\<lparr>sp_search := v\<rparr>, [])"
| "sp_handle env SpToggleSearch d = (d\<lparr>sp_searchOpen := \<not> sp_searchOpen d\<rparr>, [])"
| "sp_handle env SpCloseSearch d = (d\<lparr>sp_searchOpen := False\<rparr>, [])"
| "sp_handle env SpBack d = (d, [OutNavigate ''/''])"

definition sp_step :: "sp_env \<Rightarrow> sp_event \<Rightarrow> spage \<Rightarrow> (spage \<times> sp_out list) option" where
  "sp_step env e d = (if sp_enabled env e d then Some (sp_handle env e d) else None)"

text \<open>The delete dialog names the route's \<open>code\<close>, not \<open>link.code\<close>.\<close>

definition sp_delete_prompt :: "spage \<Rightarrow> string" where
  "sp_delete_prompt d = ''Are you sure you want to delete '' @ sp_code d @ ''? This will disable the redirect and remove stats.''"

subsection \<open>What the card and the QR dialog show\<close>

text \<open>The QR image of the card's preview and of the dialog: a skeleton while
  \<open>qrLoading\<close>, else the image of \<open>qrDataUrl\<close>, else a placeholder ("QR preview",
  "No QR available").\<close>

datatype qr_view = QrSkeleton | QrShown qr_image | QrEmpty

definition sp_qr_view :: "spage \<Rightarrow> qr_view" where
  "sp_qr_view d =
     (if sp_qrLoading d then QrSkeleton
      else case sp_qrDataUrl d of Some img \<Rightarrow> QrShown img | None \<Rightarrow> QrEmpty)"

text \<open>The line under the dialog's QR: the short link of \<open>link?.code || ""\<close>.\<close>

definition sp_qr_caption :: "string \<Rightarrow> string \<Rightarrow> spage \<Rightarrow> string" where
  "sp_qr_caption base origin d =
     (if base \<noteq> [] then base @ ''/'' else origin @ ''/'') @
     (case sp_link d of Some r \<Rightarrow> row_code r | None \<Rightarrow> [])"

text \<open>The card of a link: the code, the short link, the target URL as the anchor's
  \<open>href\<close> and text, and the statistics block.\<close>

definition sp_card_view ::
  "string \<Rightarrow> string \<Rightarrow> (timestamp \<Rightarrow> string) \<Rightarrow> row \<Rightarrow>
   string \<times> string \<times> jval option \<times> (string \<times> string option \<times> string option)" where
  "sp_card_view base origin loc r =
     (row_code r, sp_short_link base origin r, row_url r, sp_stats_view loc r)"

subsection \<open>Runs\<close>

text \<open>The reachable states of one page with the outputs awaiting an answer.\<close>

inductive sp_run :: "sp_env \<Rightarrow> spage \<Rightarrow> sp_out multiset \<Rightarrow> bool" where
  sp_run_init: "sp_run env sp_init {#}"
| sp_run_event:
    "sp_run env d P \<Longrightarrow> \<not> sp_is_answer e \<Longrightarrow> sp_step env e d = Some (d', outs) \<Longrightarrow>
     sp_run env d' (P + mset (filter sp_awaits outs))"
| sp_run_answer:
    "sp_run env d P \<Longrightarrow> out \<in># P \<Longrightarrow> sp_answers out e \<Longrightarrow> sp_step env e d = Some (d', outs) \<Longrightarrow>
     sp_run env d' (P - {#out#} + mset (filter sp_awaits outs))"


subsection \<open>Invariants and runs of given events\<close>

text \<open>The pending DELETEs and QR generations, and the image the preview should show.\<close>

definition sp_is_delete :: "sp_out \<Rightarrow> bool" where
  "sp_is_delete out = (case out of OutDelete c \<Rightarrow> True | _ \<Rightarrow> False)"

definition sp_is_qr_job :: "sp_out \<Rightarrow> bool" where
  "sp_is_qr_job out = (case out of OutQrJob n t \<Rightarrow> True | _ \<Rightarrow> False)"

definition sp_qr_for :: "sp_env \<Rightarrow> spage \<Rightarrow> qr_image option" where
  "sp_qr_for env d = map_option (\<lambda>r. QrImage (sp_short_link (env_base env) (env_origin env) r)) (sp_link d)"

text \<open>The invariant of the QR effect: no pending generation belongs to a run after
  the current one; once the effect has run, the current run's generation encodes the
  current link, and when nothing is loading the preview is empty or that image.\<close>

definition sp_qr_inv :: "sp_env \<Rightarrow> spage \<Rightarrow> sp_out multiset \<Rightarrow> bool" where
  "sp_qr_inv env d P =
     ((\<forall>out \<in># P. case out of
          OutQrJob n t \<Rightarrow> n \<le> sp_qrRun d \<and>
                          (n = sp_qrRun d \<and> \<not> sp_qrDue d \<longrightarrow> sp_qr_for env d = Some (QrImage t))
        | _ \<Rightarrow> True) \<and>
      (\<not> sp_qrDue d \<and> \<not> sp_qrLoading d \<longrightarrow> sp_qrDataUrl d = None \<or> sp_qrDataUrl d = sp_qr_for env d))"

text \<open>A run of given events from a state: a user event needs its control, an answer
  the first pending output it answers.\<close>

fun sp_exec :: "sp_env \<Rightarrow> sp_event list \<Rightarrow> spage \<times> sp_out list \<Rightarrow> (spage \<times> sp_out list) option" where
  "sp_exec env [] s = Some s"
| "sp_exec env (e # es) (d, P) =
     (case sp_step env e d of
        None \<Rightarrow> None
      | Some (d', outs) \<Rightarrow>
          if sp_is_answer e then
            (case find (\<lambda>out. sp_answers out e) P of
               None \<Rightarrow> None
             | Some out \<Rightarrow> sp_exec env es (d', remove1 out P @ filter sp_awaits outs))
          else sp_exec env es (d', P @ filter sp_awaits outs))"

text \<open>Example data: a browser with no base URL, and a table of two links.\<close>

definition wenv :: sp_env where
  "wenv = \<lparr>env_base = [], env_origin = ''https://t.ly'', env_netmsg = ''Failed to fetch'',
           env_canShare = True, env_isMobile = False\<rparr>"

definition wstore :: store where
  "wstore = [''aaaaaa'' \<mapsto> new_item ''aaaaaa'' (JStr ''https://a.example'') 1,
             ''bbbbbb'' \<mapsto> new_item ''bbbbbb'' (JStr ''https://b.example'') 2]"

definition wget :: "string \<Rightarrow> sp_event" where
  "wget c = SpLoaded (Some (fst (api_step 5 (sconst 0) \<lparr>scan_keys = [], page_items = 0\<rparr> (LinkRequest GET c) wstore)))"

subsection \<open>Helper lemmas\<close>

lemma fetchLink_done_fields [simp]:
  "sp_qrOpen (fetchLink_done m f d) = sp_qrOpen d \<and> sp_qrDataUrl (fetchLink_done m f d) = sp_qrDataUrl d \<and>
   sp_qrLoading (fetchLink_done m f d) = sp_qrLoading d \<and>
   sp_deleteConfirmOpen (fetchLink_done m f d) = sp_deleteConfirmOpen d \<and>
   sp_deleting (fetchLink_done m f d) = sp_deleting d \<and> sp_snack (fetchLink_done m f d) = sp_snack d \<and>
   sp_search (fetchLink_done m f d) = sp_search d \<and> sp_searchOpen (fetchLink_done m f d) = sp_searchOpen d \<and>
   sp_code (fetchLink_done m f d) = sp_code d \<and> sp_leaving (fetchLink_done m f d) = sp_leaving d \<and>
   sp_qrRun (fetchLink_done m f d) = sp_qrRun d \<and> sp_qrDue (fetchLink_done m f d) = sp_qrDue d \<and>
   sp_loading (fetchLink_done m f d) = False"
  by (simp add: fetchLink_done_def Let_def split: option.splits resp_body.splits)

lemmas sp_handler_defs =
  sp_route_def sp_fetch_def fetchLink_start_def sp_refresh_def sp_loaded_def
  sp_qr_effect_def sp_qr_settled_def sp_copy_def sp_copy_done_def sp_open_def
  sp_confirm_delete_def sp_delete_start_def sp_delete_finish_def sp_download_qr_def sp_share_def
  sp_shared_def

lemma sp_handle_keeps_deleting:
  assumes "sp_handle env e d = (d', outs)" and "e \<noteq> SpConfirmDelete" and "\<And>f. e \<noteq> SpDeleted f"
  shows "sp_deleting d' = sp_deleting d \<and> filter sp_is_delete outs = []"
  using assms
  by (cases e) (auto simp: sp_handler_defs sp_is_delete_def Let_def split: option.splits if_splits)

lemma sp_confirm_delete_deletes:
  "sp_confirm_delete d = (d', outs) \<Longrightarrow> \<not> sp_deleting d \<Longrightarrow>
     length (filter sp_is_delete (filter sp_awaits outs)) = (if sp_deleting d' then 1 else 0)"
  by (auto simp: sp_confirm_delete_def sp_delete_start_def sp_is_delete_def split: option.splits)

lemma size_filter_filter_mset [simp]:
  "size (filter_mset p (filter_mset q (mset xs))) = length (filter (\<lambda>x. q x \<and> p x) xs)"
  by (induction xs) auto

lemma sp_answers_delete: "sp_answers out e \<Longrightarrow> sp_is_delete out \<longleftrightarrow> (\<exists>f. e = SpDeleted f)"
  by (cases out; cases e) (simp_all add: sp_is_delete_def)

lemma sp_answers_is_answer: "sp_answers out e \<Longrightarrow> sp_is_answer e"
  by (cases out; cases e) simp_all

lemma sp_step_Some: "sp_step env e d = Some (d', outs) \<longleftrightarrow> sp_enabled env e d \<and> sp_handle env e d = (d', outs)"
  by (auto simp: sp_step_def)

lemma sp_handle_keeps_qr:
  assumes "sp_handle env e d = (d', outs)" and "e \<noteq> SpQrEffect"
    and "\<And>f. e \<noteq> SpLoaded f" and "\<And>n t b. e \<noteq> SpQrSettled n t b"
  shows "sp_link d' = sp_link d \<and> sp_qrDataUrl d' = sp_qrDataUrl d \<and> sp_qrLoading d' = sp_qrLoading d \<and>
         sp_qrRun d' = sp_qrRun d \<and> sp_qrDue d' = sp_qrDue d \<and> (\<forall>x \<in> set outs. \<not> sp_is_qr_job x)"
  using assms
  by (cases e) (auto simp: sp_handler_defs sp_is_qr_job_def Let_def split: option.splits if_splits)

lemma sp_qr_inv_frame:
  assumes "sp_qr_inv env d P"
    and "sp_link d' = sp_link d" "sp_qrDataUrl d' = sp_qrDataUrl d" "sp_qrLoading d' = sp_qrLoading d"
        "sp_qrRun d' = sp_qrRun d" "sp_qrDue d' = sp_qrDue d"
    and "\<forall>x \<in># Q. \<not> sp_is_qr_job x" and "P' \<subseteq># P + Q"
  shows "sp_qr_inv env d' P'"
proof -
  have "\<forall>x \<in># P'. x \<in># P \<or> \<not> sp_is_qr_job x" using assms(7,8) by (auto dest: mset_subset_eqD)
  then show ?thesis using assms(1-6)
    by (fastforce simp: sp_qr_inv_def sp_qr_for_def sp_is_qr_job_def split: sp_out.splits)
qed

lemma sp_answers_qr: "sp_answers out e \<Longrightarrow> (\<exists>n t b. e = SpQrSettled n t b) \<longleftrightarrow> sp_is_qr_job out"
  by (cases out; cases e) (simp_all add: sp_is_qr_job_def)

lemma sp_qr_inv_sub: "sp_qr_inv env d P \<Longrightarrow> P' \<subseteq># P \<Longrightarrow> sp_qr_inv env d P'"
  by (auto simp: sp_qr_inv_def dest: mset_subset_eqD)

lemma sp_qr_inv_loaded:
  assumes "sp_qr_inv env d P" and "P' \<subseteq># P"
  shows "sp_qr_inv env (sp_loaded m f d) P'"
proof -
  let ?d' = "sp_loaded m f d"
  have "sp_qr_for env ?d' = sp_qr_for env d" if "\<not> sp_qrDue ?d'"
    using that by (simp add: sp_loaded_def sp_qr_for_def Let_def)
  then show ?thesis using sp_qr_inv_sub [OF assms]
    by (auto simp: sp_qr_inv_def sp_loaded_def Let_def split: sp_out.splits)
qed

lemma sp_qr_inv_effect:
  assumes "sp_qr_inv env d P" and "sp_qr_effect (env_base env) (env_origin env) d = (d', outs)"
  shows "sp_qr_inv env d' (P + mset (filter sp_awaits outs))"
  using assms
  by (fastforce simp: sp_qr_inv_def sp_qr_effect_def sp_qr_for_def Let_def split: option.splits sp_out.splits)

lemma sp_qr_inv_settled:
  assumes "sp_qr_inv env d P" and "OutQrJob n t \<in># P"
  shows "sp_qr_inv env (sp_qr_settled n t b d) (P - {#OutQrJob n t#})"
proof -
  have "sp_qr_inv env d (P - {#OutQrJob n t#})" using assms(1) by (rule sp_qr_inv_sub) simp
  moreover have "n = sp_qrRun d \<and> \<not> sp_qrDue d \<longrightarrow> sp_qr_for env d = Some (QrImage t)"
    using assms by (auto simp: sp_qr_inv_def)
  ultimately show ?thesis
    by (auto simp: sp_qr_inv_def sp_qr_settled_def sp_qr_for_def split: sp_out.splits)
qed

lemma sp_qr_inv_run: "sp_run env d P \<Longrightarrow> sp_qr_inv env d P"
proof (induction rule: sp_run.induct)
  case (sp_run_init env)
  then show ?case by (simp add: sp_qr_inv_def sp_init_def)
next
  case (sp_run_event env d P e d' outs)
  then have h: "sp_handle env e d = (d', outs)" by (simp add: sp_step_Some)
  show ?case
  proof (cases "e = SpQrEffect")
    case True
    then show ?thesis using h sp_run_event.IH sp_qr_inv_effect by simp
  next
    case False
    moreover have "\<And>f. e \<noteq> SpLoaded f" "\<And>n t b. e \<noteq> SpQrSettled n t b"
      using sp_run_event.hyps(2) by auto
    ultimately have fr: "sp_link d' = sp_link d \<and> sp_qrDataUrl d' = sp_qrDataUrl d \<and>
        sp_qrLoading d' = sp_qrLoading d \<and> sp_qrRun d' = sp_qrRun d \<and> sp_qrDue d' = sp_qrDue d \<and>
        (\<forall>x \<in> set outs. \<not> sp_is_qr_job x)"
      using sp_handle_keeps_qr [OF h] by blast
    show ?thesis
      using sp_qr_inv_frame [OF sp_run_event.IH, where Q = "mset (filter sp_awaits outs)" and P' = "P + mset (filter sp_awaits outs)"] fr
      by simp
  qed
next
  case (sp_run_answer env d P out e d' outs)
  then have h: "sp_handle env e d = (d', outs)" by (simp add: sp_step_Some)
  have sub: "P - {#out#} \<subseteq># P" by simp
  show ?case
  proof (cases "\<exists>f. e = SpLoaded f")
    case True
    then obtain f where "e = SpLoaded f" by blast
    then show ?thesis using h sp_qr_inv_loaded [OF sp_run_answer.IH sub] by auto
  next
    case notL: False
    show ?thesis
    proof (cases "sp_is_qr_job out")
      case True
      then obtain n t where o: "out = OutQrJob n t" by (cases out) (simp_all add: sp_is_qr_job_def)
      with sp_run_answer.hyps(3) obtain b where "e = SpQrSettled n t b" by (cases e) simp_all
      then show ?thesis using h o sp_qr_inv_settled [OF sp_run_answer.IH, of n t b] sp_run_answer.hyps(2) by auto
    next
      case False
      then have "\<And>n t b. e \<noteq> SpQrSettled n t b" using sp_answers_qr [OF sp_run_answer.hyps(3)] by blast
      moreover have "e \<noteq> SpQrEffect" using sp_answers_is_answer [OF sp_run_answer.hyps(3)] by auto
      ultimately have fr: "sp_link d' = sp_link d \<and> sp_qrDataUrl d' = sp_qrDataUrl d \<and>
          sp_qrLoading d' = sp_qrLoading d \<and> sp_qrRun d' = sp_qrRun d \<and> sp_qrDue d' = sp_qrDue d \<and>
          (\<forall>x \<in> set outs. \<not> sp_is_qr_job x)"
        using sp_handle_keeps_qr [OF h] notL by blast
      have "P - {#out#} + mset (filter sp_awaits outs) \<subseteq># P + mset (filter sp_awaits outs)"
        using sub by (rule subset_mset.add_right_mono)
      then show ?thesis
        using sp_qr_inv_frame [OF sp_run_answer.IH, where Q = "mset (filter sp_awaits outs)"] fr
        by simp
    qed
  qed
qed

lemma sp_exec_run:
  "sp_run env d (mset P) \<Longrightarrow> sp_exec env es (d, P) = Some (d', P') \<Longrightarrow> sp_run env d' (mset P')"
proof (induction es arbitrary: d P)
  case Nil
  then show ?case by simp
next
  case (Cons e es)
  show ?case
  proof (cases "sp_step env e d")
    case None
    then show ?thesis using Cons.prems by simp
  next
    case (Some r)
    obtain d1 outs where r: "r = (d1, outs)" by fastforce
    show ?thesis
    proof (cases "sp_is_answer e")
      case True
      then obtain out where f: "find (\<lambda>out. sp_answers out e) P = Some out"
        and ex: "sp_exec env es (d1, remove1 out P @ filter sp_awaits outs) = Some (d', P')"
        using Cons.prems(2) Some r by (auto split: option.splits)
      from f have "out \<in># mset P" "sp_answers out e" by (auto simp: find_Some_iff)
      then have "sp_run env d1 (mset P - {#out#} + mset (filter sp_awaits outs))"
        using sp_run_answer [OF Cons.prems(1)] Some r by blast
      then show ?thesis using Cons.IH [OF _ ex] by (simp add: mset_remove1)
    next
      case False
      then have ex: "sp_exec env es (d1, P @ filter sp_awaits outs) = Some (d', P')"
        using Cons.prems(2) Some r by simp
      have "sp_run env d1 (mset P + mset (filter sp_awaits outs))"
        using sp_run_event [OF Cons.prems(1) False] Some r by blast
      then show ?thesis using Cons.IH [OF _ ex] by simp
    qed
  qed
qed

lemma sp_exec_init:
  "sp_exec env es (sp_init, []) = Some (d, P) \<Longrightarrow> sp_run env d (mset P)"
  using sp_exec_run [of env sp_init "[]"] sp_run_init by simp

lemmas sp_eval_defs =
  wget_def wstore_def wenv_def sp_step_def sp_init_def sp_handler_defs api_step_def link_handler_def
  getLink_def resp_ok_def fetchLink_done_def Let_def sp_card_def sp_modal_def sp_render_def
  normalized_row_def new_item_def sp_short_link_def

subsection \<open>The stats page as a machine\<close>

text \<open>
  C5. On the stats page the QR preview never shows the code of another link: in every
  reachable state in which the QR effect has run since the last change of the link and
  no generation is loading, the data URL is absent or the image of the current link's
  short link. A generation that finishes after a later run started is ignored
  (\<open>!cancelled\<close> guards all its updates).
\<close>

theorem sp_qr_preview_current:
  "sp_run env d P \<Longrightarrow> \<not> sp_qrDue d \<Longrightarrow> \<not> sp_qrLoading d \<Longrightarrow>
   sp_qrDataUrl d = None \<or> sp_qrDataUrl d = sp_qr_for env d"
  using sp_qr_inv_run by (auto simp: sp_qr_inv_def)

theorem sp_qr_preview_current_witness:
  "case sp_exec wenv [SpRoute ''aaaaaa'', wget ''aaaaaa'', SpQrEffect,
                      SpQrSettled 1 ''https://t.ly/aaaaaa'' True] (sp_init, []) of
     None \<Rightarrow> False
   | Some (d, P) \<Rightarrow> \<not> sp_qrDue d \<and> \<not> sp_qrLoading d \<and>
                   sp_qrDataUrl d = Some (QrImage ''https://t.ly/aaaaaa'') \<and>
                   (sp_qrDataUrl d = None \<or> sp_qrDataUrl d = sp_qr_for wenv d)"
proof -
  obtain d P where ex: "sp_exec wenv [SpRoute ''aaaaaa'', wget ''aaaaaa'', SpQrEffect,
                      SpQrSettled 1 ''https://t.ly/aaaaaa'' True] (sp_init, []) = Some (d, P)"
    by (simp add: sp_eval_defs)
  have h: "\<not> sp_qrDue d \<and> \<not> sp_qrLoading d \<and> sp_qrDataUrl d = Some (QrImage ''https://t.ly/aaaaaa'')"
    using ex by (auto simp: sp_eval_defs)
  have "sp_qrDataUrl d = None \<or> sp_qrDataUrl d = sp_qr_for wenv d"
    using sp_qr_preview_current [OF sp_exec_init [OF ex]] h by blast
  then show ?thesis using ex h by simp
qed

text \<open>
  C6. The stats page never has two DELETE requests in flight: the number of pending
  DELETEs is one while \<open>deleting\<close> is set and zero otherwise, in every reachable
  state, because the dialog's Delete button is disabled while deleting.
\<close>

theorem sp_one_delete_in_flight:
  "sp_run env d P \<Longrightarrow> size (filter_mset sp_is_delete P) = (if sp_deleting d then 1 else 0)"
proof (induction rule: sp_run.induct)
  case (sp_run_init env)
  then show ?case by (simp add: sp_init_def)
next
  case (sp_run_event env d P e d' outs)
  then have en: "sp_enabled env e d" and h: "sp_handle env e d = (d', outs)" by (simp_all add: sp_step_Some)
  show ?case
  proof (cases "e = SpConfirmDelete")
    case True
    with en h have "\<not> sp_deleting d" "sp_confirm_delete d = (d', outs)" by simp_all
    with sp_run_event.IH show ?thesis using sp_confirm_delete_deletes by simp
  next
    case False
    moreover have "\<And>f. e \<noteq> SpDeleted f" using sp_run_event.hyps(2) by auto
    ultimately have "sp_deleting d' = sp_deleting d \<and> filter sp_is_delete outs = []"
      using h sp_handle_keeps_deleting by blast
    with sp_run_event.IH show ?thesis by (auto simp: filter_empty_conv)
  qed
next
  case (sp_run_answer env d P out e d' outs)
  then have h: "sp_handle env e d = (d', outs)" by (simp add: sp_step_Some)
  show ?case
  proof (cases "sp_is_delete out")
    case True
    then obtain f where e: "e = SpDeleted f" using sp_answers_delete sp_run_answer.hyps(3) by blast
    have "out \<in># filter_mset sp_is_delete P" using True sp_run_answer.hyps(2) by simp
    then have "0 < size (filter_mset sp_is_delete P)" by (metis gr0I size_eq_0_iff_empty empty_iff set_mset_empty)
    with sp_run_answer.IH have "sp_deleting d" by (simp split: if_splits)
    moreover from h e have "d' = sp_delete_finish f d" "outs = []" by simp_all
    ultimately show ?thesis using sp_run_answer.IH True sp_run_answer.hyps(2)
      by (simp add: filter_diff_mset sp_delete_finish_def Let_def size_Diff_singleton split: option.splits)
  next
    case False
    then have "\<And>f. e \<noteq> SpDeleted f" using sp_answers_delete sp_run_answer.hyps(3) by blast
    then have "sp_deleting d' = sp_deleting d \<and> filter sp_is_delete outs = []"
      using h sp_handle_keeps_deleting sp_answers_is_answer [OF sp_run_answer.hyps(3)] by fastforce
    with sp_run_answer.IH False show ?thesis by (auto simp: filter_diff_mset filter_empty_conv)
  qed
qed

theorem sp_one_delete_in_flight_witness:
  "case sp_exec wenv [SpRoute ''aaaaaa'', wget ''aaaaaa'', SpQrEffect, SpAskDelete, SpConfirmDelete]
          (sp_init, []) of
     None \<Rightarrow> False
   | Some (d, P) \<Rightarrow> sp_deleting d \<and> size (filter_mset sp_is_delete (mset P)) = 1"
proof -
  obtain d P where ex: "sp_exec wenv [SpRoute ''aaaaaa'', wget ''aaaaaa'', SpQrEffect, SpAskDelete,
      SpConfirmDelete] (sp_init, []) = Some (d, P)"
    by (simp add: sp_eval_defs)
  have h: "sp_deleting d" using ex by (auto simp: sp_eval_defs)
  then have "size (filter_mset sp_is_delete (mset P)) = 1"
    using sp_one_delete_in_flight [OF sp_exec_init [OF ex]] by simp
  then show ?thesis using ex h by simp
qed

text \<open>
  C17. \<open>fetchLink\<close> does not discard the answer of an earlier route: after a client-side
  change of the route from \<open>aaaaaa\<close> to \<open>bbbbbb\<close>, an answer for \<open>aaaaaa\<close> arriving
  last makes the page show link \<open>aaaaaa\<close> under route \<open>bbbbbb\<close>; the delete dialog then
  asks to delete \<open>bbbbbb\<close> while its button sends DELETE for \<open>aaaaaa\<close>.
\<close>

theorem stats_stale_route_deletes_other:
  "\<exists>d P. sp_run wenv d P \<and> sp_code d = ''bbbbbb'' \<and>
     sp_delete_prompt d = ''Are you sure you want to delete bbbbbb? This will disable the redirect and remove stats.'' \<and>
     sp_render d = ViewLink (normalized_row (new_item ''aaaaaa'' (JStr ''https://a.example'') 1)) \<and>
     sp_step wenv SpConfirmDelete d = Some (d\<lparr>sp_deleting := True\<rparr>, [OutDelete ''aaaaaa''])"
proof -
  obtain d P where ex: "sp_exec wenv [SpRoute ''aaaaaa'', SpRoute ''bbbbbb'', wget ''bbbbbb'', wget ''aaaaaa'',
      SpQrEffect, SpAskDelete] (sp_init, []) = Some (d, P)"
    by (simp add: sp_eval_defs)
  moreover have "sp_code d = ''bbbbbb'' \<and>
     sp_delete_prompt d = ''Are you sure you want to delete bbbbbb? This will disable the redirect and remove stats.'' \<and>
     sp_render d = ViewLink (normalized_row (new_item ''aaaaaa'' (JStr ''https://a.example'') 1)) \<and>
     sp_step wenv SpConfirmDelete d = Some (d\<lparr>sp_deleting := True\<rparr>, [OutDelete ''aaaaaa''])"
    using ex by (auto simp: sp_eval_defs sp_delete_prompt_def)
  ultimately show ?thesis using sp_exec_init by blast
qed

text \<open>
  The event machine refines the round trip of \<open>StatsPage.thy\<close>: the Refresh
  button followed by the server's answer to its GET yields the state of
  \<open>sp_load\<close>, up to the QR effect's bookkeeping.
\<close>

theorem sp_refresh_refines_load:
  assumes "sp_code d = c" and "c \<noteq> []" and "\<not> sp_modal d"
  shows "\<exists>d1 d2 due. sp_step env SpRefresh d = Some (d1, [OutGet c]) \<and>
           sp_step env (SpLoaded (Some (fst (api_step now rnd senv (LinkRequest GET c) st)))) d1 = Some (d2, []) \<and>
           d2 = (sp_load now rnd senv (env_netmsg env) c d st)\<lparr>sp_qrDue := due\<rparr>"
  using assms by (simp add: sp_step_def sp_refresh_def sp_fetch_def sp_loaded_def sp_load_def fetchLink_start_def Let_def) blast

theorem sp_refresh_refines_load_witness:
  "\<exists>d1 d2 due. sp_step wenv SpRefresh (sp_init\<lparr>sp_code := ''aaaaaa''\<rparr>) = Some (d1, [OutGet ''aaaaaa'']) \<and>
     sp_step wenv (SpLoaded (Some (fst (api_step 5 (sconst 0) \<lparr>scan_keys = [], page_items = 0\<rparr>
        (LinkRequest GET ''aaaaaa'') wstore)))) d1 = Some (d2, []) \<and>
     d2 = (sp_load 5 (sconst 0) \<lparr>scan_keys = [], page_items = 0\<rparr> (env_netmsg wenv) ''aaaaaa''
             (sp_init\<lparr>sp_code := ''aaaaaa''\<rparr>) wstore)\<lparr>sp_qrDue := due\<rparr>"
  using sp_refresh_refines_load [of "sp_init\<lparr>sp_code := ''aaaaaa''\<rparr>" "''aaaaaa''" wenv 5 "sconst 0"
      "\<lparr>scan_keys = [], page_items = 0\<rparr>" wstore]
  by (simp add: sp_init_def sp_modal_def)

end
