(* ===== verification/DashEvents.thy ===== *)
theory DashEvents
  imports Format StatsEvents
begin

text \<open>
  The dashboard \<open>src/pages/index.js\<close> as an event machine, as \<open>StatsEvents.thy\<close> does
  for the stats page: each control of the returned tree with the condition under which
  it is rendered and enabled and the handler it calls, the continuations of the
  requests, the QR effect on \<open>[qrTarget]\<close> and the debounce timer. The handlers of
  \<open>Dashboard.thy\<close> are reused; \<open>dash_run\<close> is the set of states with the outputs
  still awaiting an answer, reached by user events and answers in any order.
\<close>

subsection \<open>Events and outputs\<close>

text \<open>The requests of the page and the actions without answer: the list fetch (on its
  own, or the one \<open>handleAdd\<close> awaits after a failed POST), the POST, the DELETE with
  the code and the snapshot its continuation closes over, \<open>writeText\<close> and the timer
  of the copy confirmation, a QR generation of run \<open>n\<close>, the QR and CSV downloads and
  the Stats link.\<close>

datatype dash_out =
    DOutList
  | DOutListForAdd
  | DOutPost post_body
  | DOutDelete string "row list"
  | DOutClipboard string string
  | DOutCopyTimer
  | DOutQrJob nat string
  | DOutDownload string qr_image
  | DOutCsv string
  | DOutNavigate string

primrec dash_awaits :: "dash_out \<Rightarrow> bool" where
  "dash_awaits DOutList = True"
| "dash_awaits DOutListForAdd = True"
| "dash_awaits (DOutPost b) = True"
| "dash_awaits (DOutDelete c prev) = True"
| "dash_awaits (DOutClipboard c t) = True"
| "dash_awaits DOutCopyTimer = True"
| "dash_awaits (DOutQrJob n t) = True"
| "dash_awaits (DOutDownload f i) = False"
| "dash_awaits (DOutCsv s) = False"
| "dash_awaits (DOutNavigate p) = False"

datatype dash_event =
    DRefresh
  | DListed fetched
  | DSetUrl string
  | DSetCode string
  | DSubmit
  | DPosted timestamp fetched
  | DListedForAdd fetched
  | DReset
  | DSearch string
  | DDebounced
  | DToggleSearch
  | DCloseSearch
  | DSort sort_key sort_dir
  | DHeader column
  | DPage nat
  | DRowsPerPage nat
  | DCopy string
  | DCopied string bool
  | DCopyTimeout
  | DQr row
  | DQrClose
  | DQrSettled nat string bool
  | DQrDownload
  | DAskDelete string
  | DCloseDelete
  | DConfirmDelete
  | DDeleted string "row list" fetched
  | DExport
  | DStats string
  | DOpenDrawer
  | DCloseDrawer
  | DCloseSnack

primrec dash_answers :: "dash_out \<Rightarrow> dash_event \<Rightarrow> bool" where
  "dash_answers DOutList e = (case e of DListed f \<Rightarrow> True | _ \<Rightarrow> False)"
| "dash_answers DOutListForAdd e = (case e of DListedForAdd f \<Rightarrow> True | _ \<Rightarrow> False)"
| "dash_answers (DOutPost b) e = (case e of DPosted t f \<Rightarrow> True | _ \<Rightarrow> False)"
| "dash_answers (DOutDelete c prev) e =
     (case e of DDeleted c' prev' f \<Rightarrow> c = c' \<and> prev = prev' | _ \<Rightarrow> False)"
| "dash_answers (DOutClipboard c t) e = (case e of DCopied c' ok \<Rightarrow> c = c' | _ \<Rightarrow> False)"
| "dash_answers DOutCopyTimer e = (case e of DCopyTimeout \<Rightarrow> True | _ \<Rightarrow> False)"
| "dash_answers (DOutQrJob n t) e = (case e of DQrSettled m u ok \<Rightarrow> n = m \<and> t = u | _ \<Rightarrow> False)"
| "dash_answers (DOutDownload f i) e = False"
| "dash_answers (DOutCsv s) e = False"
| "dash_answers (DOutNavigate p) e = False"

primrec dash_is_answer :: "dash_event \<Rightarrow> bool" where
  "dash_is_answer DRefresh = False"
| "dash_is_answer (DListed f) = True"
| "dash_is_answer (DSetUrl v) = False"
| "dash_is_answer (DSetCode v) = False"
| "dash_is_answer DSubmit = False"
| "dash_is_answer (DPosted t f) = True"
| "dash_is_answer (DListedForAdd f) = True"
| "dash_is_answer DReset = False"
| "dash_is_answer (DSearch v) = False"
| "dash_is_answer DDebounced = False"
| "dash_is_answer DToggleSearch = False"
| "dash_is_answer DCloseSearch = False"
| "dash_is_answer (DSort k dir) = False"
| "dash_is_answer (DHeader col) = False"
| "dash_is_answer (DPage p) = False"
| "dash_is_answer (DRowsPerPage n) = False"
| "dash_is_answer (DCopy c) = False"
| "dash_is_answer (DCopied c ok) = True"
| "dash_is_answer DCopyTimeout = True"
| "dash_is_answer (DQr r) = False"
| "dash_is_answer DQrClose = False"
| "dash_is_answer (DQrSettled n t ok) = True"
| "dash_is_answer DQrDownload = False"
| "dash_is_answer (DAskDelete c) = False"
| "dash_is_answer DCloseDelete = False"
| "dash_is_answer DConfirmDelete = False"
| "dash_is_answer (DDeleted c prev f) = True"
| "dash_is_answer DExport = False"
| "dash_is_answer (DStats c) = False"
| "dash_is_answer DOpenDrawer = False"
| "dash_is_answer DCloseDrawer = False"
| "dash_is_answer DCloseSnack = False"

text \<open>The browser side: \<open>NEXT_PUBLIC_BASE_URL\<close>, \<open>window.location.origin\<close>,
  \<open>isMobile\<close>, and the ISO strings the rows' timestamps were received as.\<close>

record dash_env =
  denv_base :: string
  denv_origin :: string
  denv_isMobile :: bool
  denv_isostr :: "timestamp \<Rightarrow> string"

subsection \<open>Handlers\<close>

text \<open>The Refresh button calls \<open>fetchLinks\<close>.\<close>

definition dash_refresh :: "dash \<Rightarrow> dash \<times> dash_out list" where
  "dash_refresh d = (fetchLinks_start d, [DOutList])"

text \<open>The two fields of the form; the effect on \<open>[url, code]\<close> runs after the commit
  of the input event.\<close>

definition dash_set_url :: "string \<Rightarrow> dash \<Rightarrow> dash" where
  "dash_set_url v d = form_error_effect (d\<lparr>dash_url := v\<rparr>)"

definition dash_set_code :: "string \<Rightarrow> dash \<Rightarrow> dash" where
  "dash_set_code v d = form_error_effect (d\<lparr>dash_code := v\<rparr>)"

definition dash_reset :: "dash \<Rightarrow> dash" where
  "dash_reset d = form_error_effect (d\<lparr>dash_url := [], dash_code := [], formError := []\<rparr>)"

text \<open>\<open>handleAdd\<close>: up to the POST; after the answer either the created row (and the
  effect of the cleared fields) or the awaited \<open>fetchLinks()\<close>; \<open>finally\<close> clears
  \<open>submitting\<close> once that fetch is done.\<close>

definition dash_submit :: "dash \<Rightarrow> dash \<times> dash_out list" where
  "dash_submit d = (case add_start d of (d1, None) \<Rightarrow> (d1, []) | (d1, Some b) \<Rightarrow> (d1, [DOutPost b]))"

definition dash_posted :: "timestamp \<Rightarrow> fetched \<Rightarrow> dash \<Rightarrow> dash \<times> dash_out list" where
  "dash_posted cnow f d =
     (case add_finish cnow f d of
        (d1, True) \<Rightarrow> (fetchLinks_start d1, [DOutListForAdd])
      | (d1, False) \<Rightarrow> (form_error_effect (d1\<lparr>submitting := False\<rparr>), []))"

definition dash_listed_for_add :: "fetched \<Rightarrow> dash \<Rightarrow> dash" where
  "dash_listed_for_add f d = (fetchLinks_done f d)\<lparr>submitting := False\<rparr>"

text \<open>\<open>handleCopy(c)\<close>: the text, then on success the confirmation, the snack and the
  timer that clears the confirmation.\<close>

definition dash_copied :: "string \<Rightarrow> bool \<Rightarrow> dash \<Rightarrow> dash \<times> dash_out list" where
  "dash_copied c ok d = (copy_done ok c d, if ok then [DOutCopyTimer] else [])"

text \<open>The QR effect on \<open>[qrTarget]\<close>: the cleanup of the previous run sets its
  \<open>cancelled\<close>; without a target the image is cleared, with one \<open>qrLoading\<close> is set
  and the short link is encoded. The target changes only in click handlers, whose
  effects React runs before any other event.\<close>

definition dash_qr_effect :: "string \<Rightarrow> string \<Rightarrow> dash \<Rightarrow> dash \<times> dash_out list" where
  "dash_qr_effect base origin d =
     (let n = Suc (qrRun d); d1 = d\<lparr>qrRun := n\<rparr>
      in case qrTarget d of
           None \<Rightarrow> (d1\<lparr>qrDataUrl := None, qrLoading := False\<rparr>, [])
         | Some r \<Rightarrow> (d1\<lparr>qrLoading := True\<rparr>, [DOutQrJob n (qr_text base origin r)]))"

text \<open>The end of run \<open>n\<close>: the image and \<open>finally\<close> are guarded by \<open>!cancelled\<close>,
  the \<open>catch\<close> branch is not.\<close>

definition dash_qr_settled :: "nat \<Rightarrow> string \<Rightarrow> bool \<Rightarrow> dash \<Rightarrow> dash" where
  "dash_qr_settled n t ok d =
     (let live = (n = qrRun d) in
      if ok then (if live then d\<lparr>qrDataUrl := Some (QrImage t), qrLoading := False\<rparr> else d)
      else d\<lparr>snack := Some (Snack Error ''Failed to generate QR''), qrDataUrl := None,
             qrLoading := (if live then False else qrLoading d)\<rparr>)"

text \<open>The Download button of the QR dialog.\<close>

definition dash_qr_download :: "dash \<Rightarrow> dash \<times> dash_out list" where
  "dash_qr_download d =
     (case qrDataUrl d of
        None \<Rightarrow> (d\<lparr>snack := Some (Snack Error ''QR not ready'')\<rparr>, [])
      | Some img \<Rightarrow>
          (case qrTarget d of
             None \<Rightarrow> (d, [])
           | Some r \<Rightarrow> (d\<lparr>snack := Some (Snack Success ''QR downloaded'')\<rparr>,
                        [DOutDownload (''tinylink-'' @ row_code r @ ''.png'') img])))"

definition dash_confirm_delete :: "dash \<Rightarrow> dash \<times> dash_out list" where
  "dash_confirm_delete d =
     (case del_start d of (d1, None) \<Rightarrow> (d1, []) | (d1, Some (c, prev)) \<Rightarrow> (d1, [DOutDelete c prev]))"

text \<open>The Export button: \<open>downloadCsv\<close> delivers nothing for an empty page.\<close>

definition dash_export :: "(timestamp \<Rightarrow> string) \<Rightarrow> dash \<Rightarrow> dash_out list" where
  "dash_export isostr d = (case exportVisibleCsv isostr d of None \<Rightarrow> [] | Some s \<Rightarrow> [DOutCsv s])"

subsection \<open>The rendered controls\<close>

text \<open>The two dialogs and the create drawer are modal. The form is the desktop panel,
  or on a phone the drawer's.\<close>

definition dash_modal :: "dash \<Rightarrow> bool" where
  "dash_modal d = (qrTarget d \<noteq> None \<or> deleteTarget d \<noteq> None \<or> createDrawerOpen d)"

definition dash_form_open :: "bool \<Rightarrow> dash \<Rightarrow> bool" where
  "dash_form_open mobile d =
     (if mobile then createDrawerOpen d \<and> qrTarget d = None \<and> deleteTarget d = None
      else \<not> dash_modal d)"

text \<open>Whether the control of a user event is rendered and enabled: the submit button is
  \<open>disabled={submitting || !isUrlValid || !isCodeValid}\<close>, the row buttons exist for
  the rows of the page, the pagination offers its pages and sizes when there are rows,
  the sort menu, the column heads, Export and the Stats links are desktop only, the
  drawer and the search toggle mobile only. The debounce timer fires with the value of
  the last change.\<close>

fun dash_enabled :: "dash_env \<Rightarrow> dash_event \<Rightarrow> dash \<Rightarrow> bool" where
  "dash_enabled env DRefresh d = (\<not> dash_modal d)"
| "dash_enabled env (DListed f) d = True"
| "dash_enabled env (DSetUrl v) d = dash_form_open (denv_isMobile env) d"
| "dash_enabled env (DSetCode v) d = dash_form_open (denv_isMobile env) d"
| "dash_enabled env DSubmit d =
     (dash_form_open (denv_isMobile env) d \<and> \<not> (submitting d \<or> \<not> isUrlValid d \<or> \<not> isCodeValid d))"
| "dash_enabled env (DPosted t f) d = True"
| "dash_enabled env (DListedForAdd f) d = True"
| "dash_enabled env DReset d = dash_form_open (denv_isMobile env) d"
| "dash_enabled env (DSearch v) d = (\<not> dash_modal d \<and> (\<not> denv_isMobile env \<or> searchOpen d))"
| "dash_enabled env DDebounced d = True"
| "dash_enabled env DToggleSearch d = (\<not> dash_modal d \<and> denv_isMobile env)"
| "dash_enabled env DCloseSearch d = (\<not> dash_modal d \<and> denv_isMobile env \<and> searchOpen d)"
| "dash_enabled env (DSort k dir) d = (\<not> dash_modal d \<and> \<not> denv_isMobile env)"
| "dash_enabled env (DHeader col) d = (\<not> dash_modal d \<and> \<not> denv_isMobile env)"
| "dash_enabled env (DPage p) d = (\<not> dash_modal d \<and> p * rowsPerPage d < totalRows d)"
| "dash_enabled env (DRowsPerPage n) d =
     (\<not> dash_modal d \<and> 0 < totalRows d \<and> n \<in> set (if denv_isMobile env then [5, 10] else [5, 8, 12, 20]))"
| "dash_enabled env (DCopy c) d = (\<not> dash_modal d \<and> c \<in> set (map row_code (pageData d)))"
| "dash_enabled env (DCopied c ok) d = True"
| "dash_enabled env DCopyTimeout d = True"
| "dash_enabled env (DQr r) d = (\<not> dash_modal d \<and> r \<in> set (pageData d))"
| "dash_enabled env DQrClose d = (qrTarget d \<noteq> None)"
| "dash_enabled env (DQrSettled n t ok) d = True"
| "dash_enabled env DQrDownload d = (qrTarget d \<noteq> None)"
| "dash_enabled env (DAskDelete c) d = (\<not> dash_modal d \<and> c \<in> set (map row_code (pageData d)))"
| "dash_enabled env DCloseDelete d = (deleteTarget d \<noteq> None)"
| "dash_enabled env DConfirmDelete d = (deleteTarget d \<noteq> None)"
| "dash_enabled env (DDeleted c prev f) d = True"
| "dash_enabled env DExport d = (\<not> dash_modal d \<and> \<not> denv_isMobile env)"
| "dash_enabled env (DStats c) d =
     (\<not> dash_modal d \<and> \<not> denv_isMobile env \<and> c \<in> set (map row_code (pageData d)))"
| "dash_enabled env DOpenDrawer d = (\<not> dash_modal d \<and> denv_isMobile env)"
| "dash_enabled env DCloseDrawer d = createDrawerOpen d"
| "dash_enabled env DCloseSnack d = (snack d \<noteq> None)"

fun dash_handle :: "dash_env \<Rightarrow> dash_event \<Rightarrow> dash \<Rightarrow> dash \<times> dash_out list" where
  "dash_handle env DRefresh d = dash_refresh d"
| "dash_handle env (DListed f) d = (fetchLinks_done f d, [])"
| "dash_handle env (DSetUrl v) d = (dash_set_url v d, [])"
| "dash_handle env (DSetCode v) d = (dash_set_code v d, [])"
| "dash_handle env DSubmit d = dash_submit d"
| "dash_handle env (DPosted t f) d = dash_posted t f d"
| "dash_handle env (DListedForAdd f) d = (dash_listed_for_add f d, [])"
| "dash_handle env DReset d = (dash_reset d, [])"
| "dash_handle env (DSearch v) d = (set_search v d, [])"
| "dash_handle env DDebounced d = (d\<lparr>debouncedSearch := search d\<rparr>, [])"
| "dash_handle env DToggleSearch d = (d\<lparr>searchOpen := \<not> searchOpen d\<rparr>, [])"
| "dash_handle env DCloseSearch d = (d\<lparr>searchOpen := False\<rparr>, [])"
| "dash_handle env (DSort k dir) d = (select_sort k dir d, [])"
| "dash_handle env (DHeader col) d = (header_click col d, [])"
| "dash_handle env (DPage p) d = (set_page p d, [])"
| "dash_handle env (DRowsPerPage n) d = (set_rows_per_page n d, [])"
| "dash_handle env (DCopy c) d = (d, [DOutClipboard c (copy_text (denv_base env) (denv_origin env) c)])"
| "dash_handle env (DCopied c ok) d = dash_copied c ok d"
| "dash_handle env DCopyTimeout d = (copy_timeout d, [])"
| "dash_handle env (DQr r) d = dash_qr_effect (denv_base env) (denv_origin env) (d\<lparr>qrTarget := Some r\<rparr>)"
| "dash_handle env DQrClose d = dash_qr_effect (denv_base env) (denv_origin env) (d\<lparr>qrTarget := None\<rparr>)"
| "dash_handle env (DQrSettled n t ok) d = (dash_qr_settled n t ok d, [])"
| "dash_handle env DQrDownload d = dash_qr_download d"
| "dash_handle env (DAskDelete c) d = (d\<lparr>deleteTarget := Some c\<rparr>, [])"
| "dash_handle env DCloseDelete d = (d\<lparr>deleteTarget := None\<rparr>, [])"
| "dash_handle env DConfirmDelete d = dash_confirm_delete d"
| "dash_handle env (DDeleted c prev f) d = (del_finish c prev f d, [])"
| "dash_handle env DExport d = (d, dash_export (denv_isostr env) d)"
| "dash_handle env (DStats c) d = (d, [DOutNavigate (''/code/'' @ c)])"
| "dash_handle env DOpenDrawer d = (d\<lparr>createDrawerOpen := True\<rparr>, [])"
| "dash_handle env DCloseDrawer d = (d\<lparr>createDrawerOpen := False\<rparr>, [])"
| "dash_handle env DCloseSnack d = (d\<lparr>snack := None\<rparr>, [])"

text \<open>A step: none once the page's render has thrown (\<open>Dashboard.filter_throws\<close>:
  React has unmounted it, so no control is left and late answers update nothing), else
  the handler of an enabled event.\<close>

definition dash_step :: "dash_env \<Rightarrow> dash_event \<Rightarrow> dash \<Rightarrow> (dash \<times> dash_out list) option" where
  "dash_step env e d =
     (if filter_throws d then None
      else if dash_enabled env e d then Some (dash_handle env e d) else None)"

text \<open>The QR dialog: its title, and the image as on the stats page ("No QR" as the
  placeholder). The delete dialog names \<open>deleteTarget\<close>, the code it deletes.\<close>

definition dash_qr_title :: "dash \<Rightarrow> string" where
  "dash_qr_title d = ''QR Code for '' @ (case qrTarget d of Some r \<Rightarrow> row_code r | None \<Rightarrow> [])"

definition dash_qr_view :: "dash \<Rightarrow> qr_view" where
  "dash_qr_view d =
     (if qrLoading d then QrSkeleton else case qrDataUrl d of Some img \<Rightarrow> QrShown img | None \<Rightarrow> QrEmpty)"

definition dash_delete_prompt :: "dash \<Rightarrow> string" where
  "dash_delete_prompt d =
     ''Are you sure you want to delete '' @ (case deleteTarget d of Some c \<Rightarrow> c | None \<Rightarrow> []) @
     ''? This action cannot be undone.''"

subsection \<open>Runs\<close>

text \<open>After mounting, the effect on \<open>[fetchLinks]\<close> has started the first fetch.\<close>

inductive dash_run :: "dash_env \<Rightarrow> dash \<Rightarrow> dash_out multiset \<Rightarrow> bool" where
  dash_run_init: "dash_run env (fetchLinks_start dash_init) {#DOutList#}"
| dash_run_event:
    "dash_run env d P \<Longrightarrow> \<not> dash_is_answer e \<Longrightarrow> dash_step env e d = Some (d', outs) \<Longrightarrow>
     dash_run env d' (P + mset (filter dash_awaits outs))"
| dash_run_answer:
    "dash_run env d P \<Longrightarrow> out \<in># P \<Longrightarrow> dash_answers out e \<Longrightarrow> dash_step env e d = Some (d', outs) \<Longrightarrow>
     dash_run env d' (P - {#out#} + mset (filter dash_awaits outs))"


subsection \<open>Invariants and runs of given events\<close>

text \<open>The outputs of a creation: its POST and the reload it awaits.\<close>

definition dash_is_add :: "dash_out \<Rightarrow> bool" where
  "dash_is_add out = (case out of DOutPost b \<Rightarrow> True | DOutListForAdd \<Rightarrow> True | _ \<Rightarrow> False)"

text \<open>The image the QR dialog should show, and the invariant of the QR effect: no
  pending generation belongs to a later run than the current one, the current run's
  generation encodes the current target, and when nothing is loading the image is
  absent or that one.\<close>

definition dash_qr_for :: "dash_env \<Rightarrow> dash \<Rightarrow> qr_image option" where
  "dash_qr_for env d = map_option (\<lambda>r. QrImage (qr_text (denv_base env) (denv_origin env) r)) (qrTarget d)"

definition dash_is_qr_job :: "dash_out \<Rightarrow> bool" where
  "dash_is_qr_job out = (case out of DOutQrJob n t \<Rightarrow> True | _ \<Rightarrow> False)"

definition dash_qr_inv :: "dash_env \<Rightarrow> dash \<Rightarrow> dash_out multiset \<Rightarrow> bool" where
  "dash_qr_inv env d P =
     ((\<forall>out \<in># P. case out of
          DOutQrJob n t \<Rightarrow> n \<le> qrRun d \<and> (n = qrRun d \<longrightarrow> dash_qr_for env d = Some (QrImage t))
        | _ \<Rightarrow> True) \<and>
      (\<not> qrLoading d \<longrightarrow> qrDataUrl d = None \<or> qrDataUrl d = dash_qr_for env d))"

text \<open>A run of given events, as \<open>sp_exec\<close>.\<close>

fun dash_exec :: "dash_env \<Rightarrow> dash_event list \<Rightarrow> dash \<times> dash_out list \<Rightarrow> (dash \<times> dash_out list) option" where
  "dash_exec env [] s = Some s"
| "dash_exec env (e # es) (d, P) =
     (case dash_step env e d of
        None \<Rightarrow> None
      | Some (d', outs) \<Rightarrow>
          if dash_is_answer e then
            (case find (\<lambda>out. dash_answers out e) P of
               None \<Rightarrow> None
             | Some out \<Rightarrow> dash_exec env es (d', remove1 out P @ filter dash_awaits outs))
          else dash_exec env es (d', P @ filter dash_awaits outs))"

text \<open>Example data: a desktop browser with no base URL, and two links.\<close>

definition wdenv :: dash_env where
  "wdenv = \<lparr>denv_base = [], denv_origin = ''https://t.ly'', denv_isMobile = False, denv_isostr = (\<lambda>t. [])\<rparr>"

definition wlinks :: "link list" where
  "wlinks = [new_item ''aaaaaa'' (JStr ''https://a.example'') 1, new_item ''bbbbbb'' (JStr ''https://b.example'') 2]"

subsection \<open>Helper lemmas\<close>

lemma fetchLinks_done_fields [simp]:
  "submitting (fetchLinks_done f d) = submitting d \<and> qrTarget (fetchLinks_done f d) = qrTarget d \<and>
   qrDataUrl (fetchLinks_done f d) = qrDataUrl d \<and> qrLoading (fetchLinks_done f d) = qrLoading d \<and>
   qrRun (fetchLinks_done f d) = qrRun d"
  by (simp add: fetchLinks_done_def Let_def split: option.splits resp_body.splits)

lemma form_error_effect_fields [simp]:
  "submitting (form_error_effect d) = submitting d \<and> qrTarget (form_error_effect d) = qrTarget d \<and>
   qrDataUrl (form_error_effect d) = qrDataUrl d \<and> qrLoading (form_error_effect d) = qrLoading d \<and>
   qrRun (form_error_effect d) = qrRun d"
  by (simp add: form_error_effect_def)

lemmas dash_handler_defs =
  dash_refresh_def fetchLinks_start_def dash_set_url_def dash_set_code_def dash_reset_def dash_submit_def
  dash_posted_def dash_listed_for_add_def dash_copied_def copy_done_def copy_timeout_def dash_qr_effect_def
  dash_qr_settled_def dash_qr_download_def dash_confirm_delete_def del_start_def del_finish_def
  dash_export_def set_search_def select_sort_def header_click_def handleRequestSort_def set_page_def
  set_rows_per_page_def

lemma dash_step_Some:
  "dash_step env e d = Some (d', outs) \<longleftrightarrow>
     \<not> filter_throws d \<and> dash_enabled env e d \<and> dash_handle env e d = (d', outs)"
  by (auto simp: dash_step_def)

lemma dash_answers_is_answer: "dash_answers out e \<Longrightarrow> dash_is_answer e"
  by (cases out; cases e) simp_all

lemma dash_handle_keeps_submitting:
  assumes "dash_handle env e d = (d', outs)" and "e \<noteq> DSubmit"
    and "\<And>t f. e \<noteq> DPosted t f" and "\<And>f. e \<noteq> DListedForAdd f"
  shows "submitting d' = submitting d \<and> (\<forall>x \<in> set outs. \<not> dash_is_add x)"
  using assms
  by (cases e) (auto simp: dash_handler_defs dash_is_add_def Let_def split: option.splits if_splits prod.splits)

lemma dash_answers_add:
  "dash_answers out e \<Longrightarrow> dash_is_add out \<longleftrightarrow> (\<exists>t f. e = DPosted t f) \<or> (\<exists>f. e = DListedForAdd f)"
  by (cases out; cases e) (simp_all add: dash_is_add_def)

lemma add_finish_submitting: "add_finish t f d = (d1, b) \<Longrightarrow> submitting d1 = submitting d"
  by (auto simp: add_finish_def Let_def split: option.splits resp_body.splits if_splits)

lemma dash_submit_valid:
  "isUrlValid d \<Longrightarrow> isCodeValid d \<Longrightarrow> dash_submit d = (d', outs) \<Longrightarrow>
   submitting d' \<and> length (filter (\<lambda>x. dash_awaits x \<and> dash_is_add x) outs) = 1"
  by (auto simp: dash_submit_def add_start_def dash_is_add_def)

lemma dash_posted_add:
  "submitting d \<Longrightarrow> dash_posted t f d = (d', outs) \<Longrightarrow>
   length (filter (\<lambda>x. dash_awaits x \<and> dash_is_add x) outs) = (if submitting d' then 1 else 0)"
  by (auto simp: dash_posted_def dash_is_add_def fetchLinks_start_def dest: add_finish_submitting
           split: prod.splits bool.splits)

lemma dash_exec_run:
  "dash_run env d (mset P) \<Longrightarrow> dash_exec env es (d, P) = Some (d', P') \<Longrightarrow> dash_run env d' (mset P')"
proof (induction es arbitrary: d P)
  case Nil
  then show ?case by simp
next
  case (Cons e es)
  show ?case
  proof (cases "dash_step env e d")
    case None
    then show ?thesis using Cons.prems by simp
  next
    case (Some r)
    obtain d1 outs where r: "r = (d1, outs)" by fastforce
    show ?thesis
    proof (cases "dash_is_answer e")
      case True
      then obtain out where f: "find (\<lambda>out. dash_answers out e) P = Some out"
        and ex: "dash_exec env es (d1, remove1 out P @ filter dash_awaits outs) = Some (d', P')"
        using Cons.prems(2) Some r by (auto split: option.splits)
      from f have "out \<in># mset P" "dash_answers out e" by (auto simp: find_Some_iff)
      then have "dash_run env d1 (mset P - {#out#} + mset (filter dash_awaits outs))"
        using dash_run_answer [OF Cons.prems(1)] Some r by blast
      then show ?thesis using Cons.IH [OF _ ex] by (simp add: mset_remove1)
    next
      case False
      then have ex: "dash_exec env es (d1, P @ filter dash_awaits outs) = Some (d', P')"
        using Cons.prems(2) Some r by simp
      have "dash_run env d1 (mset P + mset (filter dash_awaits outs))"
        using dash_run_event [OF Cons.prems(1) False] Some r by blast
      then show ?thesis using Cons.IH [OF _ ex] by simp
    qed
  qed
qed

lemma dash_exec_init:
  "dash_exec env es (fetchLinks_start dash_init, [DOutList]) = Some (d, P) \<Longrightarrow> dash_run env d (mset P)"
  using dash_exec_run [of env "fetchLinks_start dash_init" "[DOutList]"] dash_run_init by simp

lemmas dash_eval_defs =
  wdenv_def wlinks_def dash_step_def dash_init_def dash_handler_defs fetchLinks_done_def resp_ok_def
  Let_def dash_modal_def normalized_row_def new_item_def qr_text_def pageData_def filtered_def
  query_def js_trim_def js_lower_def row_matches_def row_match_def url_search_text_def row_cmp_def sort_by_def created_ms_def
  filter_throws_def
  dash_form_open_def isUrlValid_def isCodeValid_def url_regex_def url_regex_after_def js_space_def
  ascii_lower_def js_simps form_error_effect_def add_start_def

lemma add_finish_no_reload:
  "add_finish t f d = (d2, False) \<Longrightarrow> dash_url d2 = [] \<and> formError d2 = formError d"
  by (auto simp: add_finish_def Let_def split: option.splits resp_body.splits if_splits)

lemma add_start_qr:
  "add_start d = (d1, b) \<Longrightarrow> qrTarget d1 = qrTarget d \<and> qrDataUrl d1 = qrDataUrl d \<and>
     qrLoading d1 = qrLoading d \<and> qrRun d1 = qrRun d"
  by (auto simp: add_start_def split: if_splits)

lemma add_finish_qr:
  "add_finish t f d = (d1, b) \<Longrightarrow> qrTarget d1 = qrTarget d \<and> qrDataUrl d1 = qrDataUrl d \<and>
     qrLoading d1 = qrLoading d \<and> qrRun d1 = qrRun d"
  by (auto simp: add_finish_def Let_def split: option.splits resp_body.splits if_splits)

lemma dash_handle_keeps_qr:
  assumes "dash_handle env e d = (d', outs)" and "\<And>r. e \<noteq> DQr r" and "e \<noteq> DQrClose"
    and "\<And>n t ok. e \<noteq> DQrSettled n t ok"
  shows "qrTarget d' = qrTarget d \<and> qrDataUrl d' = qrDataUrl d \<and> qrLoading d' = qrLoading d \<and>
         qrRun d' = qrRun d \<and> (\<forall>x \<in> set outs. \<not> dash_is_qr_job x)"
  using assms
  by (cases e) (auto simp: dash_handler_defs dash_is_qr_job_def Let_def dest: add_start_qr add_finish_qr
                     split: option.splits if_splits prod.splits bool.splits)

lemma dash_qr_inv_frame:
  assumes "dash_qr_inv env d P"
    and "qrTarget d' = qrTarget d" "qrDataUrl d' = qrDataUrl d" "qrLoading d' = qrLoading d"
        "qrRun d' = qrRun d"
    and "\<forall>x \<in># Q. \<not> dash_is_qr_job x" and "P' \<subseteq># P + Q"
  shows "dash_qr_inv env d' P'"
proof -
  have "\<forall>x \<in># P'. x \<in># P \<or> \<not> dash_is_qr_job x" using assms(6,7) by (auto dest: mset_subset_eqD)
  then show ?thesis using assms(1-5)
    by (fastforce simp: dash_qr_inv_def dash_qr_for_def dash_is_qr_job_def split: dash_out.splits)
qed

lemma dash_qr_inv_jobs_le:
  "dash_qr_inv env d P \<Longrightarrow> DOutQrJob n t \<in># P \<Longrightarrow> n \<le> qrRun d"
  by (fastforce simp: dash_qr_inv_def)

lemma dash_qr_inv_effect:
  assumes inv: "dash_qr_inv env d P"
    and eff: "dash_qr_effect (denv_base env) (denv_origin env) (d\<lparr>qrTarget := tg\<rparr>) = (d', outs)"
  shows "dash_qr_inv env d' (P + mset (filter dash_awaits outs))"
proof (cases tg)
  case None
  with eff have d': "d' = d\<lparr>qrTarget := None, qrRun := Suc (qrRun d), qrDataUrl := None, qrLoading := False\<rparr>"
    and o: "outs = []" by (auto simp: dash_qr_effect_def Let_def)
  show ?thesis
    unfolding dash_qr_inv_def
  proof (intro conjI ballI impI)
    fix x assume "x \<in># P + mset (filter dash_awaits outs)"
    then have "x \<in># P" by (simp add: o)
    then show "case x of DOutQrJob n t \<Rightarrow> n \<le> qrRun d' \<and> (n = qrRun d' \<longrightarrow> dash_qr_for env d' = Some (QrImage t))
               | _ \<Rightarrow> True"
      by (cases x) (auto simp: d' dest!: dash_qr_inv_jobs_le [OF inv])
  qed (simp add: d')
next
  case (Some r)
  with eff have d': "d' = d\<lparr>qrTarget := Some r, qrRun := Suc (qrRun d), qrLoading := True\<rparr>"
    and o: "outs = [DOutQrJob (Suc (qrRun d)) (qr_text (denv_base env) (denv_origin env) r)]"
    by (auto simp: dash_qr_effect_def Let_def)
  show ?thesis
    unfolding dash_qr_inv_def
  proof (intro conjI ballI impI)
    fix x assume x: "x \<in># P + mset (filter dash_awaits outs)"
    show "case x of DOutQrJob n t \<Rightarrow> n \<le> qrRun d' \<and> (n = qrRun d' \<longrightarrow> dash_qr_for env d' = Some (QrImage t))
               | _ \<Rightarrow> True"
    proof (cases "x \<in># P")
      case True
      then show ?thesis by (cases x) (auto simp: d' dest!: dash_qr_inv_jobs_le [OF inv])
    next
      case False
      with x show ?thesis by (simp add: o d' dash_qr_for_def)
    qed
  qed (simp add: d')
qed

lemma dash_qr_inv_settled:
  assumes inv: "dash_qr_inv env d P" and j: "DOutQrJob n t \<in># P"
  shows "dash_qr_inv env (dash_qr_settled n t ok d) (P - {#DOutQrJob n t#})"
proof -
  have cur: "n = qrRun d \<longrightarrow> dash_qr_for env d = Some (QrImage t)"
    using inv j by (fastforce simp: dash_qr_inv_def)
  let ?d' = "dash_qr_settled n t ok d"
  have fields: "qrTarget ?d' = qrTarget d \<and> qrRun ?d' = qrRun d"
    by (simp add: dash_qr_settled_def Let_def)
  have view: "\<not> qrLoading ?d' \<longrightarrow> qrDataUrl ?d' = None \<or> qrDataUrl ?d' = dash_qr_for env ?d'"
    using inv cur fields by (auto simp: dash_qr_settled_def Let_def dash_qr_inv_def dash_qr_for_def)
  have "\<forall>x \<in># P - {#DOutQrJob n t#}. case x of
       DOutQrJob n t \<Rightarrow> n \<le> qrRun ?d' \<and> (n = qrRun ?d' \<longrightarrow> dash_qr_for env ?d' = Some (QrImage t))
     | _ \<Rightarrow> True"
  proof
    fix x assume "x \<in># P - {#DOutQrJob n t#}"
    then have "x \<in># P" by (rule in_diffD)
    with inv have "case x of
       DOutQrJob n t \<Rightarrow> n \<le> qrRun d \<and> (n = qrRun d \<longrightarrow> dash_qr_for env d = Some (QrImage t))
     | _ \<Rightarrow> True" by (auto simp: dash_qr_inv_def)
    then show "case x of
       DOutQrJob n t \<Rightarrow> n \<le> qrRun ?d' \<and> (n = qrRun ?d' \<longrightarrow> dash_qr_for env ?d' = Some (QrImage t))
     | _ \<Rightarrow> True" using fields by (cases x) (simp_all add: dash_qr_for_def)
  qed
  with view show ?thesis by (simp add: dash_qr_inv_def)
qed

lemma dash_answers_qr: "dash_answers out e \<Longrightarrow> (\<exists>n t ok. e = DQrSettled n t ok) \<longleftrightarrow> dash_is_qr_job out"
  by (cases out; cases e) (simp_all add: dash_is_qr_job_def)

lemma dash_qr_inv_run: "dash_run env d P \<Longrightarrow> dash_qr_inv env d P"
proof (induction rule: dash_run.induct)
  case (dash_run_init env)
  then show ?case by (simp add: dash_qr_inv_def dash_init_def fetchLinks_start_def)
next
  case (dash_run_event env d P e d' outs)
  then have h: "dash_handle env e d = (d', outs)" by (simp add: dash_step_Some)
  show ?case
  proof (cases "(\<exists>r. e = DQr r) \<or> e = DQrClose")
    case True
    then obtain tg where "dash_qr_effect (denv_base env) (denv_origin env) (d\<lparr>qrTarget := tg\<rparr>) = (d', outs)"
      using h by auto
    then show ?thesis using dash_run_event.IH dash_qr_inv_effect by blast
  next
    case False
    moreover have "\<And>n t ok. e \<noteq> DQrSettled n t ok" using dash_run_event.hyps(2) by auto
    ultimately have fr: "qrTarget d' = qrTarget d \<and> qrDataUrl d' = qrDataUrl d \<and> qrLoading d' = qrLoading d \<and>
        qrRun d' = qrRun d \<and> (\<forall>x \<in> set outs. \<not> dash_is_qr_job x)"
      using dash_handle_keeps_qr [OF h] by blast
    show ?thesis
      using dash_qr_inv_frame [OF dash_run_event.IH, where Q = "mset (filter dash_awaits outs)"
          and P' = "P + mset (filter dash_awaits outs)"] fr
      by simp
  qed
next
  case (dash_run_answer env d P out e d' outs)
  then have h: "dash_handle env e d = (d', outs)" by (simp add: dash_step_Some)
  show ?case
  proof (cases "dash_is_qr_job out")
    case True
    then obtain n t where o: "out = DOutQrJob n t" by (cases out) (simp_all add: dash_is_qr_job_def)
    with dash_run_answer.hyps(3) obtain ok where "e = DQrSettled n t ok" by (cases e) simp_all
    then show ?thesis
      using h o dash_qr_inv_settled [OF dash_run_answer.IH, of n t ok] dash_run_answer.hyps(2) by auto
  next
    case False
    then have "\<And>n t ok. e \<noteq> DQrSettled n t ok" using dash_answers_qr [OF dash_run_answer.hyps(3)] by blast
    moreover have "(\<forall>r. e \<noteq> DQr r) \<and> e \<noteq> DQrClose"
      using dash_answers_is_answer [OF dash_run_answer.hyps(3)] by auto
    ultimately have fr: "qrTarget d' = qrTarget d \<and> qrDataUrl d' = qrDataUrl d \<and> qrLoading d' = qrLoading d \<and>
        qrRun d' = qrRun d \<and> (\<forall>x \<in> set outs. \<not> dash_is_qr_job x)"
      using dash_handle_keeps_qr [OF h] by blast
    have "P - {#out#} + mset (filter dash_awaits outs) \<subseteq># P + mset (filter dash_awaits outs)"
      by (simp add: subset_mset.add_right_mono)
    then show ?thesis
      using dash_qr_inv_frame [OF dash_run_answer.IH, where Q = "mset (filter dash_awaits outs)"] fr
      by simp
  qed
qed

subsection \<open>The dashboard as a machine\<close>

text \<open>
  C31. On the dashboard a cancelled QR generation that fails still clears the image and
  raises "Failed to generate QR": after the QR of one row is opened, closed, and the QR
  of another row has been generated and is shown, the failure of the first generation
  empties the dialog of the second (the \<open>catch\<close> branch lacks the \<open>!cancelled\<close>
  guard the stats page has).
\<close>

theorem dash_stale_qr_failure_clears_current:
  "\<exists>d P. dash_run wdenv d P \<and>
     qrTarget d = Some (normalized_row (new_item ''bbbbbb'' (JStr ''https://b.example'') 2)) \<and>
     \<not> qrLoading d \<and> qrDataUrl d = Some (QrImage ''https://t.ly/bbbbbb'') \<and>
     DOutQrJob 1 ''https://t.ly/aaaaaa'' \<in># P \<and>
     dash_step wdenv (DQrSettled 1 ''https://t.ly/aaaaaa'' False) d =
       Some (d\<lparr>snack := Some (Snack Error ''Failed to generate QR''), qrDataUrl := None\<rparr>, [])"
proof -
  obtain d P where ex: "dash_exec wdenv [DListed (Some (Json 200 (BLinks wlinks))),
      DQr (normalized_row (new_item ''aaaaaa'' (JStr ''https://a.example'') 1)), DQrClose,
      DQr (normalized_row (new_item ''bbbbbb'' (JStr ''https://b.example'') 2)),
      DQrSettled 3 ''https://t.ly/bbbbbb'' True] (fetchLinks_start dash_init, [DOutList]) = Some (d, P)"
    by (simp add: dash_eval_defs)
  moreover have "qrTarget d = Some (normalized_row (new_item ''bbbbbb'' (JStr ''https://b.example'') 2)) \<and>
     \<not> qrLoading d \<and> qrDataUrl d = Some (QrImage ''https://t.ly/bbbbbb'') \<and>
     DOutQrJob 1 ''https://t.ly/aaaaaa'' \<in># mset P \<and>
     dash_step wdenv (DQrSettled 1 ''https://t.ly/aaaaaa'' False) d =
       Some (d\<lparr>snack := Some (Snack Error ''Failed to generate QR''), qrDataUrl := None\<rparr>, [])"
    using ex by (auto simp: dash_eval_defs)
  ultimately show ?thesis using dash_exec_init by blast
qed

text \<open>
  C32. The dashboard never has two creations in flight: in every reachable state the
  pending POSTs and the reloads \<open>handleAdd\<close> awaits number one while \<open>submitting\<close>
  is set and zero otherwise, because the submit button is disabled while submitting.
\<close>

theorem dash_one_submission_in_flight:
  "dash_run env d P \<Longrightarrow> size (filter_mset dash_is_add P) = (if submitting d then 1 else 0)"
proof (induction rule: dash_run.induct)
  case (dash_run_init env)
  then show ?case by (simp add: dash_init_def fetchLinks_start_def dash_is_add_def)
next
  case (dash_run_event env d P e d' outs)
  then have en: "dash_enabled env e d" and h: "dash_handle env e d = (d', outs)"
    by (simp_all add: dash_step_Some)
  show ?case
  proof (cases "e = DSubmit")
    case True
    with en h have "\<not> submitting d" "isUrlValid d" "isCodeValid d" "dash_submit d = (d', outs)" by simp_all
    with dash_run_event.IH show ?thesis using dash_submit_valid by (simp add: size_filter_filter_mset)
  next
    case False
    moreover have "\<And>t f. e \<noteq> DPosted t f" "\<And>f. e \<noteq> DListedForAdd f"
      using dash_run_event.hyps(2) by auto
    ultimately have "submitting d' = submitting d \<and> (\<forall>x \<in> set outs. \<not> dash_is_add x)"
      using h dash_handle_keeps_submitting by blast
    with dash_run_event.IH show ?thesis by (auto simp: filter_empty_conv)
  qed
next
  case (dash_run_answer env d P out e d' outs)
  then have h: "dash_handle env e d = (d', outs)" by (simp add: dash_step_Some)
  show ?case
  proof (cases "dash_is_add out")
    case True
    have "out \<in># filter_mset dash_is_add P" using True dash_run_answer.hyps(2) by simp
    then have "0 < size (filter_mset dash_is_add P)"
      by (metis gr0I size_eq_0_iff_empty empty_iff set_mset_empty)
    with dash_run_answer.IH have sub: "submitting d" and one: "size (filter_mset dash_is_add P) = 1"
      by (simp_all split: if_splits)
    have sz: "size (filter_mset dash_is_add (P - {#out#})) = 0"
      using one True dash_run_answer.hyps(2) by (simp add: filter_diff_mset size_Diff_singleton)
    consider (Po) t f where "e = DPosted t f" | (Li) f where "e = DListedForAdd f"
      using True dash_answers_add [OF dash_run_answer.hyps(3)] by blast
    then show ?thesis
    proof cases
      case Po
      with h have "dash_posted t f d = (d', outs)" by simp
      with sz sub show ?thesis using dash_posted_add by simp
    next
      case Li
      with h have "d' = dash_listed_for_add f d" "outs = []" by simp_all
      with sz show ?thesis by (simp add: dash_listed_for_add_def)
    qed
  next
    case False
    then have "\<And>t f. e \<noteq> DPosted t f" "\<And>f. e \<noteq> DListedForAdd f"
      using dash_answers_add [OF dash_run_answer.hyps(3)] by blast+
    moreover have "e \<noteq> DSubmit" using dash_answers_is_answer [OF dash_run_answer.hyps(3)] by auto
    ultimately have "submitting d' = submitting d \<and> (\<forall>x \<in> set outs. \<not> dash_is_add x)"
      using h dash_handle_keeps_submitting by blast
    with dash_run_answer.IH False show ?thesis by (auto simp: filter_diff_mset filter_empty_conv)
  qed
qed

theorem dash_one_submission_in_flight_witness:
  "case dash_exec wdenv [DListed (Some (Json 200 (BLinks wlinks))), DSetUrl ''https://example.com'', DSubmit]
          (fetchLinks_start dash_init, [DOutList]) of
     None \<Rightarrow> False
   | Some (d, P) \<Rightarrow> submitting d \<and> size (filter_mset dash_is_add (mset P)) = 1"
proof -
  obtain d P where ex: "dash_exec wdenv [DListed (Some (Json 200 (BLinks wlinks))), DSetUrl ''https://example.com'',
      DSubmit] (fetchLinks_start dash_init, [DOutList]) = Some (d, P)"
    by (simp add: dash_eval_defs)
  have h: "submitting d" using ex
    by (auto simp: dash_eval_defs)
  then have "size (filter_mset dash_is_add (mset P)) = 1"
    using dash_one_submission_in_flight [OF dash_exec_init [OF ex]] by simp
  then show ?thesis using ex h by simp
qed

text \<open>
  The event machine refines the create round trip of \<open>Dashboard.thy\<close>: a
  submission of a valid form, the server's answer to its POST and, after a failure, the
  answer to the awaited reload give exactly the state and table of \<open>dash_add\<close>.
\<close>

theorem dash_events_refine_add:
  assumes "isUrlValid d" and "isCodeValid d"
  shows "\<exists>d1 b. dash_submit d = (d1, [DOutPost b]) \<and>
           (let (r, st1) = api_step now rnd env (LinksRequest POST b) st;
                (d2, outs) = dash_posted cnow (Some r) d1
            in (if outs = [] then (d2, st1)
                else (dash_listed_for_add (Some (fst (api_step now rnd env (LinksRequest GET no_body) st1))) d2, st1))
               = dash_add cnow now rnd env d st)"
proof -
  obtain d1 b where st: "add_start d = (d1, Some b)" and fe: "formError d1 = []"
    using assms by (simp add: add_start_def)
  then have s: "dash_submit d = (d1, [DOutPost b])" by (simp add: dash_submit_def)
  obtain r st1 where a: "api_step now rnd env (LinksRequest POST b) st = (r, st1)" by fastforce
  obtain d2 re where f: "add_finish cnow (Some r) d1 = (d2, re)" by fastforce
  show ?thesis
  proof (cases re)
    case True
    then show ?thesis using s st a f
      by (simp add: dash_posted_def dash_listed_for_add_def dash_add_def dash_fetch_def)
  next
    case False
    with f fe have "dash_url d2 = []" "formError d2 = []" using add_finish_no_reload by fastforce+
    then have "form_error_effect (d2\<lparr>submitting := False\<rparr>) = d2\<lparr>submitting := False\<rparr>"
      by (simp add: form_error_effect_def)
    then show ?thesis using s st a f False
      by (simp add: dash_posted_def dash_add_def)
  qed
qed

theorem dash_events_refine_add_witness:
  "isUrlValid (dash_init\<lparr>dash_url := ''https://example.com''\<rparr>) \<and>
   isCodeValid (dash_init\<lparr>dash_url := ''https://example.com''\<rparr>) \<and>
   (\<exists>d1 b. dash_submit (dash_init\<lparr>dash_url := ''https://example.com''\<rparr>) = (d1, [DOutPost b]) \<and>
     (let (r, st1) = api_step 5 (sconst 7) \<lparr>scan_keys = [], page_items = 0\<rparr> (LinksRequest POST b) Map.empty;
          (d2, outs) = dash_posted 9 (Some r) d1
      in (if outs = [] then (d2, st1)
          else (dash_listed_for_add (Some (fst (api_step 5 (sconst 7) \<lparr>scan_keys = [], page_items = 0\<rparr>
                  (LinksRequest GET no_body) st1))) d2, st1))
         = dash_add 9 5 (sconst 7) \<lparr>scan_keys = [], page_items = 0\<rparr>
             (dash_init\<lparr>dash_url := ''https://example.com''\<rparr>) Map.empty))"
proof -
  have v: "isUrlValid (dash_init\<lparr>dash_url := ''https://example.com''\<rparr>)"
          "isCodeValid (dash_init\<lparr>dash_url := ''https://example.com''\<rparr>)"
    by (simp_all add: isUrlValid_def isCodeValid_def url_regex_def url_regex_after_def dash_init_def
                      js_trim_def js_space_def ascii_lower_def js_simps)
  show ?thesis by (rule conjI [OF v(1) conjI [OF v(2) dash_events_refine_add [OF v]]])
qed


text \<open>
  C29. The dashboard's QR dialog never shows the QR of another row: in every reachable
  state in which it shows an image, a row is the QR target and the image encodes that
  row's short link. A generation superseded by a later run cannot set the image (its
  \<open>catch\<close> can only clear it, C31).
\<close>

theorem dash_qr_dialog_shows_target:
  assumes "dash_run env d P" and "dash_qr_view d = QrShown img"
  shows "\<exists>r. qrTarget d = Some r \<and> img = QrImage (qr_text (denv_base env) (denv_origin env) r)"
proof -
  have "\<not> qrLoading d" "qrDataUrl d = Some img"
    using assms(2) by (auto simp: dash_qr_view_def split: if_splits option.splits)
  then have "Some img = dash_qr_for env d"
    using dash_qr_inv_run [OF assms(1)] by (auto simp: dash_qr_inv_def)
  then show ?thesis by (cases "qrTarget d") (auto simp: dash_qr_for_def)
qed

theorem dash_qr_dialog_shows_target_witness:
  "case dash_exec wdenv [DListed (Some (Json 200 (BLinks wlinks))),
          DQr (normalized_row (new_item ''aaaaaa'' (JStr ''https://a.example'') 1)),
          DQrSettled 1 ''https://t.ly/aaaaaa'' True] (fetchLinks_start dash_init, [DOutList]) of
     None \<Rightarrow> False
   | Some (d, P) \<Rightarrow> dash_qr_view d = QrShown (QrImage ''https://t.ly/aaaaaa'') \<and>
       (\<exists>r. qrTarget d = Some r \<and> QrImage ''https://t.ly/aaaaaa'' = QrImage (qr_text (denv_base wdenv) (denv_origin wdenv) r))"
proof -
  obtain d P where ex: "dash_exec wdenv [DListed (Some (Json 200 (BLinks wlinks))),
          DQr (normalized_row (new_item ''aaaaaa'' (JStr ''https://a.example'') 1)),
          DQrSettled 1 ''https://t.ly/aaaaaa'' True] (fetchLinks_start dash_init, [DOutList]) = Some (d, P)"
    by (simp add: dash_eval_defs)
  have v: "dash_qr_view d = QrShown (QrImage ''https://t.ly/aaaaaa'')"
    using ex by (auto simp: dash_eval_defs dash_qr_view_def)
  show ?thesis using ex v dash_qr_dialog_shows_target [OF dash_exec_init [OF ex] v] by simp
qed


text \<open>
  C24. A link whose url is a JSON array (which the POST handler accepts and stores, claim C15)
  unmounts the dashboard as soon as a search is applied that its code does not match: the
  filter calls \<open>toLowerCase\<close> on the url, the array has none, the render throws, and
  after the debounced search takes effect the page handles no further event.
\<close>

theorem array_url_search_kills_dashboard:
  assumes "r \<in> set (links d)" and "row_url r = Some (JArr vs)"
    and "js_lower (js_trim q) \<noteq> []" and "\<not> js_includes (js_lower (row_code r)) (js_lower (js_trim q))"
    and "dash_step env (DSearch q) d = Some (d1, outs)"
  shows "\<exists>d2 outs2. dash_step env DDebounced d1 = Some (d2, outs2) \<and> (\<forall>e. dash_step env e d2 = None)"
proof -
  from assms(5) have nt: "\<not> filter_throws d" and d1: "d1 = set_search q d"
    by (auto simp: dash_step_Some)
  have nt1: "\<not> filter_throws d1" using nt by (simp add: d1 set_search_def filter_throws_def query_def)
  let ?d2 = "d1\<lparr>debouncedSearch := search d1\<rparr>"
  have s: "dash_step env DDebounced d1 = Some (?d2, [])" using nt1 by (simp add: dash_step_def)
  have "query ?d2 = js_lower (js_trim q)" by (simp add: query_def d1 set_search_def)
  then have "row_match (query ?d2) r = None"
    using assms(2-4) by (simp add: row_match_def url_search_text_def)
  moreover have "r \<in> set (links ?d2)" using assms(1) by (simp add: d1 set_search_def)
  ultimately have "filter_throws ?d2" by (auto simp: filter_throws_def list_ex_iff)
  then show ?thesis using s by (auto simp: dash_step_def)
qed

theorem array_url_search_kills_dashboard_witness:
  "snd (post_links 1 (sconst 0) \<lparr>body_url = JArr [JStr ''https://a.example''], body_code = JStr ''aaaaaa''\<rparr> Map.empty) =
     [''aaaaaa'' \<mapsto> new_item ''aaaaaa'' (JArr [JStr ''https://a.example'']) 1] \<and>
   (case dash_exec wdenv [DListed (Some (Json 200 (BLinks [new_item ''aaaaaa'' (JArr [JStr ''https://a.example'']) 1]))),
                           DSearch ''zzz''] (fetchLinks_start dash_init, [DOutList]) of
      None \<Rightarrow> False
    | Some (d1, P) \<Rightarrow> dash_run wdenv d1 (mset P) \<and>
        (\<exists>d2 outs2. dash_step wdenv DDebounced d1 = Some (d2, outs2) \<and> (\<forall>e. dash_step wdenv e d2 = None)))"
proof -
  let ?l = "new_item ''aaaaaa'' (JArr [JStr ''https://a.example'']) 1"
  have p: "snd (post_links 1 (sconst 0) \<lparr>body_url = JArr [JStr ''https://a.example''], body_code = JStr ''aaaaaa''\<rparr> Map.empty) =
     [''aaaaaa'' \<mapsto> ?l]"
    by (simp add: post_links_def url_parser_defs js_simps validCode_def code_regex_def create_response_def
                  createLink_def Let_def)
  obtain d P where ex0: "dash_exec wdenv [DListed (Some (Json 200 (BLinks [?l])))] (fetchLinks_start dash_init, [DOutList])
      = Some (d, P)"
    by (simp add: dash_eval_defs filter_throws_def)
  have dl: "links d = [normalized_row ?l]" using ex0 by (auto simp: dash_eval_defs)
  have nt: "\<not> filter_throws d" using ex0 by (auto simp: dash_eval_defs filter_throws_def)
  have en: "dash_enabled wdenv (DSearch ''zzz'') d" using ex0 by (auto simp: dash_eval_defs)
  let ?d1 = "set_search ''zzz'' d"
  have st: "dash_step wdenv (DSearch ''zzz'') d = Some (?d1, [])" using nt en by (simp add: dash_step_def)
  have ex: "dash_exec wdenv [DListed (Some (Json 200 (BLinks [?l]))), DSearch ''zzz''] (fetchLinks_start dash_init, [DOutList])
      = Some (?d1, P)"
    using ex0 st by (simp add: dash_step_def split: if_splits)
  have k: "\<exists>d2 outs2. dash_step wdenv DDebounced ?d1 = Some (d2, outs2) \<and> (\<forall>e. dash_step wdenv e d2 = None)"
    by (rule array_url_search_kills_dashboard [of "normalized_row ?l" d "[JStr ''https://a.example'']" "''zzz''" wdenv ?d1 "[]"])
       (simp_all add: dl normalized_row_def new_item_def js_trim_def js_lower_def js_space_def lower_unit_def st)
  show ?thesis using p ex k dash_exec_init [OF ex] by simp
qed

end
