(* ===== verification/Routing.thy ===== *)
theory Routing
  imports StatsPage
begin

text \<open>
  Next.js serves a request by the file-system route of its path over \<open>src/pages\<close>:
  \<open>index.js\<close> at \<open>/\<close>, \<open>healthz.js\<close> at \<open>/healthz\<close>, \<open>[code].js\<close> at any other
  single segment, \<open>code/[code].js\<close> at \<open>/code/c\<close>, and the two API routes under
  \<open>/api/links\<close>; any other path is the 404 page. A static segment is preferred to a
  dynamic one. This theory routes a path, given as its segments after the leading slash
  (Next.js redirects a trailing slash away and decodes the dynamic segment), to a page or
  to the handlers of \<open>Api.thy\<close>, and runs the health page \<open>src/pages/healthz.js\<close>
  against it.
\<close>

subsection \<open>Routes\<close>

datatype page_route =
    RDashboard
  | RHealth
  | RStats string
  | RRedirect string
  | RApiLinks
  | RApiLink string
  | RNotFound

text \<open>The route of the segments of a path: the pages and API routes of \<open>src/pages\<close>,
  static segments first.\<close>

fun next_route :: "string list \<Rightarrow> page_route" where
  "next_route [] = RDashboard"
| "next_route [s] = (if s = ''healthz'' then RHealth else RRedirect s)"
| "next_route [s, t] =
     (if s = ''code'' then RStats t else if s = ''api'' \<and> t = ''links'' then RApiLinks else RNotFound)"
| "next_route [s, t, c] = (if s = ''api'' \<and> t = ''links'' then RApiLink c else RNotFound)"
| "next_route (s # t # c # x # xs) = RNotFound"

text \<open>What the server sends back: the answer of a handler or of the redirect page's
  \<open>getServerSideProps\<close>, or the document of a page rendered in the browser.\<close>

datatype served = ApiAnswer response | PageDocument page_route

definition serve ::
  "timestamp \<Rightarrow> random_bytes \<Rightarrow> scan_env \<Rightarrow> http_method \<Rightarrow> string list \<Rightarrow> post_body \<Rightarrow> store \<Rightarrow>
   served \<times> store" where
  "serve now rnd env m segs b st =
     (let answer = (\<lambda>rq. case api_step now rnd env rq st of (r, st') \<Rightarrow> (ApiAnswer r, st'))
      in case next_route segs of
           RApiLinks \<Rightarrow> answer (LinksRequest m b)
         | RApiLink c \<Rightarrow> answer (LinkRequest m c)
         | RRedirect c \<Rightarrow> answer (RedirectRequest c)
         | RNotFound \<Rightarrow> (ApiAnswer NotFoundPage, st)
         | p \<Rightarrow> (PageDocument p, st))"

text \<open>What \<open>fetch\<close> receives: a page document is HTML, which \<open>res.json()\<close> does not
  parse, like the 404 page.\<close>

primrec served_response :: "served \<Rightarrow> response" where
  "served_response (ApiAnswer r) = r"
| "served_response (PageDocument p) = NotFoundPage"

subsection \<open>The health page\<close>

text \<open>\<open>HealthPage()\<close>: the status, and the effect's \<open>mounted\<close>, which its cleanup
  clears. The effect runs once, on mount, and fetches \<open>/api/healthz\<close>.\<close>

record hpage =
  hp_status :: "health_status option"
  hp_mounted :: bool

definition hp_mount :: hpage where
  "hp_mount = \<lparr>hp_status = None, hp_mounted = True\<rparr>"

definition hp_path :: "string list" where
  "hp_path = [''api'', ''healthz'']"

text \<open>The settled promise chain: \<open>setStatus\<close> only while mounted.\<close>

definition hp_settle :: "string \<Rightarrow> string \<Rightarrow> fetched \<Rightarrow> hpage \<Rightarrow> hpage" where
  "hp_settle netmsg parsemsg f d =
     (if hp_mounted d then d\<lparr>hp_status := Some (health_done netmsg parsemsg f)\<rparr> else d)"

definition hp_unmount :: "hpage \<Rightarrow> hpage" where
  "hp_unmount d = d\<lparr>hp_mounted := False\<rparr>"

text \<open>What the page shows: "Checking server health" (\<open>None\<close>) until there is a
  status, then its JSON and the ok line. \<open>stringify\<close> is \<open>JSON.stringify(_, null, 2)\<close>
  of a parsed body, whose keys come in the order of the server's object.\<close>

definition hp_render ::
  "(resp_body \<Rightarrow> string) \<Rightarrow> (string \<Rightarrow> string) \<Rightarrow> hpage \<Rightarrow> (string \<times> string) option" where
  "hp_render stringify quote d =
     map_option
       (\<lambda>s. (case s of
               HealthBody b \<Rightarrow> stringify b
             | HealthFailed m \<Rightarrow>
                 ''{'' @ [CHR 0x0A] @ ''  '' @ quote ''ok'' @ '': false,'' @ [CHR 0x0A] @
                 ''  '' @ quote ''error'' @ '': '' @ quote m @ [CHR 0x0A] @ ''}'',
             health_ok_line s))
       (hp_status d)"

text \<open>The runs of the page against the server: the request is pending after mounting;
  it is answered by the server in any state of the table, or \<open>fetch\<close> rejects; the page
  may unmount at any time.\<close>

inductive hp_run :: "string \<Rightarrow> string \<Rightarrow> hpage \<Rightarrow> bool \<Rightarrow> bool" where
  hp_run_mount: "hp_run netmsg parsemsg hp_mount True"
| hp_run_served:
    "hp_run netmsg parsemsg d True \<Longrightarrow>
     hp_run netmsg parsemsg
       (hp_settle netmsg parsemsg
          (Some (served_response (fst (serve now rnd env GET hp_path no_body st)))) d) False"
| hp_run_rejected: "hp_run netmsg parsemsg d True \<Longrightarrow> hp_run netmsg parsemsg (hp_settle netmsg parsemsg None d) False"
| hp_run_unmount: "hp_run netmsg parsemsg d p \<Longrightarrow> hp_run netmsg parsemsg (hp_unmount d) p"


subsection \<open>Helper lemmas\<close>

lemma served_health_api: "served_response (fst (serve now rnd env m hp_path b st)) = NotFoundPage"
  by (simp add: serve_def hp_path_def)

lemma healthz_valid_code: "validCode (JStr ''healthz'')"
  by (simp add: validCode_def code_regex_def js_simps)

subsection \<open>Routes and the pages\<close>

text \<open>
  C35. \<open>healthz\<close> is a valid custom code: a POST creating it answers 201 and stores
  the link, but the path \<open>/healthz\<close> is the static health page for every state of
  the table, so the link can never be redirected to.
\<close>

theorem healthz_code_unreachable:
  assumes "validUrl (JStr u)" and "st ''healthz'' = None"
  shows "serve now rnd env POST [''api'', ''links''] \<lparr>body_url = JStr u, body_code = JStr ''healthz''\<rparr> st =
           (ApiAnswer (Json 201 (BCreated (JStr ''healthz'') (JStr u))),
            st(''healthz'' \<mapsto> new_item ''healthz'' (JStr u) now)) \<and>
         (\<forall>st' b' now' rnd' env'. serve now' rnd' env' GET [''healthz''] b' st' = (PageDocument RHealth, st'))"
  using assms healthz_valid_code
  by (simp add: serve_def api_step_def links_handler_def post_links_def create_response_def createLink_def
                Let_def js_simps)

theorem healthz_code_unreachable_witness:
  "serve 5 (sconst 0) \<lparr>scan_keys = [], page_items = 0\<rparr> POST [''api'', ''links'']
     \<lparr>body_url = JStr ''https://example.com'', body_code = JStr ''healthz''\<rparr> Map.empty =
     (ApiAnswer (Json 201 (BCreated (JStr ''healthz'') (JStr ''https://example.com''))),
      [''healthz'' \<mapsto> new_item ''healthz'' (JStr ''https://example.com'') 5]) \<and>
   serve 6 (sconst 0) \<lparr>scan_keys = [], page_items = 0\<rparr> GET [''healthz''] no_body
     [''healthz'' \<mapsto> new_item ''healthz'' (JStr ''https://example.com'') 5] =
     (PageDocument RHealth, [''healthz'' \<mapsto> new_item ''healthz'' (JStr ''https://example.com'') 5])"
  using healthz_code_unreachable [OF valid_example_url, of Map.empty 5 "sconst 0" "\<lparr>scan_keys = [], page_items = 0\<rparr>"]
  by simp

text \<open>
  C33. The health page never shows a status from the server: \<open>/api/healthz\<close> has no
  route, the 404 page does not parse as JSON, so in every run the status is absent or
  the failure with the message of the network error or of the parse error.
\<close>

theorem health_page_never_shows_server:
  "hp_run netmsg parsemsg d p \<Longrightarrow>
   hp_status d = None \<or> hp_status d = Some (HealthFailed netmsg) \<or> hp_status d = Some (HealthFailed parsemsg)"
  by (induction rule: hp_run.induct)
     (auto simp: hp_mount_def hp_settle_def hp_unmount_def health_done_def served_health_api)

theorem health_page_never_shows_server_witness:
  "hp_run ''Failed to fetch'' ''Unexpected token'' \<lparr>hp_status = Some (HealthFailed ''Unexpected token''), hp_mounted = True\<rparr> False \<and>
   hp_status \<lparr>hp_status = Some (HealthFailed ''Unexpected token''), hp_mounted = True\<rparr> = Some (HealthFailed ''Unexpected token'')"
proof -
  have r: "hp_run ''Failed to fetch'' ''Unexpected token''
      (hp_settle ''Failed to fetch'' ''Unexpected token''
         (Some (served_response (fst (serve 5 (sconst 0) \<lparr>scan_keys = [], page_items = 0\<rparr> GET hp_path no_body Map.empty)))) hp_mount) False"
    by (rule hp_run_served [OF hp_run_mount])
  have e: "hp_settle ''Failed to fetch'' ''Unexpected token''
         (Some (served_response (fst (serve 5 (sconst 0) \<lparr>scan_keys = [], page_items = 0\<rparr> GET hp_path no_body Map.empty)))) hp_mount
      = \<lparr>hp_status = Some (HealthFailed ''Unexpected token''), hp_mounted = True\<rparr>"
    by (simp add: hp_settle_def hp_mount_def health_done_def served_health_api)
  have "hp_status \<lparr>hp_status = Some (HealthFailed ''Unexpected token''), hp_mounted = True\<rparr> = None \<or>
        hp_status \<lparr>hp_status = Some (HealthFailed ''Unexpected token''), hp_mounted = True\<rparr> = Some (HealthFailed ''Failed to fetch'') \<or>
        hp_status \<lparr>hp_status = Some (HealthFailed ''Unexpected token''), hp_mounted = True\<rparr> = Some (HealthFailed ''Unexpected token'')"
    using health_page_never_shows_server [OF r [unfolded e]] .
  then show ?thesis using r e by simp
qed


end
