(* ===== verification/Spec2Isabelle.thy ===== *)
theory Spec2Isabelle
  imports Concurrency DashEvents Routing
begin

text \<open>
  \<^bold>\<open>A verification development of the TinyLink URL shortener\<close>
  (\<open>src/\<close>: a Next.js application over one DynamoDB table).

  \<^bold>\<open>The program.\<close> The table maps a short code to an item
  \<open>{code, url, clicks, createdAt, lastClickedAt}\<close>; \<open>src/lib/dynamo.js\<close> wraps the
  five requests the application sends to it. Three server routes use it:
  \<open>src/pages/api/links/index.js\<close> (GET lists, POST validates and creates),
  \<open>src/pages/api/links/[code].js\<close> (GET reads, DELETE deletes) and
  \<open>src/pages/[code].js\<close> (the redirect, which also counts the click). Two browser pages
  call the API: the dashboard \<open>src/pages/index.js\<close> and the stats page
  \<open>src/pages/code/[code].js\<close>; \<open>src/pages/healthz.js\<close> fetches a health route.
  Next.js dispatches a request by its path to one of these files.

  \<^bold>\<open>The theories\<close>, in import order:
  \<^item> \<open>Prelude\<close>: JSON values of a request body (\<open>jval\<close>: undefined for an absent
    member, null, booleans, integers, strings, arrays and objects), JavaScript
    truthiness and \<open>ToString\<close> (arrays joined with commas, objects as
    \<open>[object Object]\<close>), ASCII classes, decimal printing, and list lemmas shared by
    the others. A body's \<open>url\<close> is kept as this value all the way into the table,
    the redirect and the pages, as the code passes it on unchanged.
  \<^item> \<open>Validator\<close>: \<open>validCode\<close>, \<open>validUrl\<close> (over the accept/reject decision of
    the WHATWG URL parser, \<open>url_parses\<close>: scheme, authority, and the host parser with
    percent-decoding, the IPv4 parser \<open>ipv4_parse\<close>, IPv6 literals \<open>ipv6_parses\<close>,
    opaque and \<open>file:\<close> hosts) and the code generator \<open>gen_code\<close>
    (\<open>chars[b%62]\<close> over the first six bytes, \<open>stake 6\<close>, of an infinite stream
    of \<open>8 word\<close> random bytes, as \<open>new Uint8Array(6)\<close> filled by
    \<open>getRandomValues\<close>), all of \<open>api/links/index.js\<close>.
  \<^item> \<open>Store\<close>: the table as a map \<open>string \<rightharpoonup> link\<close>; \<open>createLink\<close>,
    \<open>getLink\<close>, \<open>listLinks\<close>, \<open>deleteLink\<close>, \<open>incrementClick\<close> of \<open>dynamo.js\<close>,
    each as DynamoDB executes its request (conditional put, point read, first scan page,
    delete, upserting update); errors are \<open>store_error + store\<close>.
  \<^item> \<open>Api\<close>: the three routes as functions from a request and the table to a
    \<open>response\<close> and the new table (\<open>post_links\<close>, \<open>links_handler\<close>,
    \<open>link_handler\<close>, \<open>getServerSideProps\<close>), and \<open>api_step\<close>, one request to any route.
  \<^item> \<open>Concurrency\<close>: requests in flight as threads that each issue their store requests
    one at a time; \<open>cstep\<close> runs one store request of one thread atomically, so runs
    of \<open>cstep\<close> are the interleavings the Node server allows.
  \<^item> \<open>Client\<close>: what the pages share: the normalised row, \<open>fetch\<close>'s view of a
    response, and the string operations \<open>trim\<close>, \<open>toLowerCase\<close>, \<open>includes\<close>.
  \<^item> \<open>Dashboard\<close>: the state of \<open>Dashboard()\<close> as a record, its handlers split at
    each \<open>await\<close> and composed with \<open>api_step\<close> into round trips (\<open>dash_fetch\<close>,
    \<open>dash_add\<close>, \<open>dash_delete\<close>), and the derived view (\<open>filtered\<close>,
    \<open>pageData\<close>, the statistics cards). The search filter calls \<open>toLowerCase\<close>
    on the url; \<open>filter_throws\<close> says when that throws (a url that is not a string).
  \<^item> \<open>StatsPage\<close>: \<open>StatsPage()\<close> the same way (\<open>sp_load\<close>, \<open>sp_delete\<close>), and
    the health page.
  \<^item> \<open>StatsEvents\<close>: the stats page as an event machine. \<open>sp_enabled\<close> says which
    control the returned tree renders and enables (dialogs are modal, Delete is
    \<open>disabled={deleting}\<close>), \<open>sp_handle\<close> runs the handler it names or the
    continuation of an answered request, including the effect on \<open>[code]\<close> and the QR
    preview effect with its \<open>cancelled\<close> flag (\<open>sp_qrRun\<close>, \<open>sp_qrDue\<close>);
    \<open>sp_run\<close> is the inductive set of reachable states with the multiset of outputs
    awaiting an answer, and \<open>sp_exec\<close> runs a given list of events.
  \<^item> \<open>Format\<close>: \<open>relativeTimeFrom\<close>, the CSV export with a reference parser, and
    \<open>useDebounced\<close>.
  \<^item> \<open>DashEvents\<close>: the dashboard as the same kind of machine (\<open>dash_enabled\<close>,
    \<open>dash_handle\<close>, \<open>dash_run\<close>), reusing the handlers of \<open>Dashboard\<close>: the form
    and its disabled submit button, the row buttons of the page, pagination, sort,
    search, the QR dialog with the effect on \<open>[qrTarget]\<close>, the delete dialog, the
    drawer, export and the copy timer; what the QR dialog shows (\<open>dash_qr_view\<close>).
  \<^item> \<open>Routing\<close>: the Next.js file-system router over the segments of a path
    (\<open>next_route\<close>, static files before \<open>[code]\<close>), \<open>serve\<close>, which dispatches a
    request to a page document or to \<open>api_step\<close>, and the health page of
    \<open>healthz.js\<close> (mount, the guarded settlement, unmount, rendering) with its runs
    \<open>hp_run\<close> against the routed server.

  \<^bold>\<open>What is proved.\<close> The claims C1 to C37 are marked in the theories.
  \<^item> Api (C1--C4, C7, C8, C15, C21--C23): the behaviour of every branch of the routes,
    errors included; every request keeps the table well formed (\<open>store_ok\<close>) and
    never changes a surviving link's code, url or creation time. Four divergences from
    \<open>spec.md\<close>: a url that is a JSON array is accepted and stored as an array; a
    numeric code is answered 500, not 400; any URL scheme is accepted; a url with a
    newline is stored but cannot be redirected to.
  \<^item> Concurrency (C9--C12, C25): concurrent redirects lose no click (invariant by
    rule induction over \<open>cstep\<close>); concurrent creates of one code have exactly one
    winner; by explicit interleavings, a redirect racing a DELETE resurrects the code
    as an item with no url, two DELETEs can both answer 200, and a DELETE can remove a
    link created after its existence check while that POST answers 201. Lemmas, not
    claims, show that a request run alone gives the result of \<open>api_step\<close>, that every
    step lowers the outstanding work (\<open>cstep_work_decreases\<close>) and that a thread
    with work can always step.
  \<^item> Validator and Store (C13, C14, C16, C18--C20, C37): the alphabet of
    \<open>validCode\<close>; every generated code has six characters, passes \<open>validCode\<close>, and
    two byte streams give the same code exactly when their first six bytes agree modulo
    62; the generator is biased (5 versus 4 byte values per character); a
    dotted-decimal IPv4 host passes exactly when its four parts are at most 255;
    increments are atomic but upsert; \<open>listLinks\<close> is complete exactly when the
    table fits one page.
  \<^item> Page machines (C5, C6, C17, C24, C29, C31, C32): by rule induction over
    \<open>sp_run\<close> and \<open>dash_run\<close>, the stats page's QR preview never shows another link
    once its effect has run, the dashboard's QR dialog only shows the QR target's
    image, and neither page ever has two DELETEs (stats page) or two creations
    (dashboard) in flight. Three defects: after a route change a late answer makes the
    stats page show and delete another code than the one its dialog names (C17); on
    the dashboard a superseded QR generation that fails clears the current QR (C31);
    and a stored array url unmounts the dashboard on the first search its code does
    not match (C24). Lemmas show that the events refine the round trips
    \<open>sp_load\<close> and \<open>dash_add\<close>.
  \<^item> Routing (C33, C35): the health page never shows a server status, since
    \<open>/api/healthz\<close> has no route; the code \<open>healthz\<close> can be created but its
    short link is always the static health page.
  \<^item> Pages (C26--C28, C30, C34, C36): for one client the dashboard refines the table
    across reloads, creates and deletes; the displayed rows are exactly those whose
    code or string url contains the query, in the order and direction chosen; the
    ascending order equals \<open>sort_key\<close>; the delete rollback loses a concurrently
    created row; the stats page shows the table's item; the CSV export parses back to
    the visible rows. Further lemmas show that the page's checks agree with the server
    on codes and not on urls, that a deleted link reads back as "Not found", that
    numbers pass \<open>validCode\<close> through \<open>ToString\<close>, that a vanished link's row is
    restored, that "Last clicked" sorts by creation time, that a page emptied by a
    delete says "No links yet", that relative times are within their unit's bounds
    and that the average is within half a click.

  \<^bold>\<open>Bounds and fuel.\<close> No model uses fuel: every loop of the source is a list
  recursion or \<open>map\<close>/\<open>filter\<close>, \<open>csv_parse\<close> terminates by the length of its input,
  and the concurrent system terminates by \<open>total_work\<close> (\<open>cstep_work_decreases\<close>). The page machines are
  relations, not functions, so they need no fuel: a run of given events (\<open>sp_exec\<close>,
  \<open>dash_exec\<close>) is a recursion on the list of events. The first scan page is
  the parameter \<open>page_items\<close> of \<open>scan_env\<close>; the theorems that need the whole table
  assume it fits.

  \<^bold>\<open>Not modelled.\<close> \<open>src/app.js\<close>: a theme provider and a document title
  around the page, with no state; it is not at \<open>src/pages/_app.js\<close>, so Next.js
  never loads it. Next.js's own routes (\<open>/_next\<close>, \<open>/api\<close> prefixes, static files)
  beyond the pages of \<open>src/pages\<close> are not routed. Styling and layout, the pixels of
  the QR image (a library; the model keeps the encoded text), \<open>toLocaleString\<close> of
  dates (a parameter), and the UTS 46 mapping and validation of non-ASCII domains and
  of \<open>xn--\<close> labels in the URL parser (the model accepts such a domain when its ASCII
  characters pass; every other step of the parser's decision is modelled). React is modelled by its observable rules: a click's effects run before the
  next event, other commits leave an effect due until it runs (\<open>sp_qrDue\<close>), and
  dependencies are compared by identity, and an exception thrown while rendering
  unmounts the page (there is no error boundary), after which it handles no event. Strings are lists of code units below 256.
\<close>

end
